theory Spec2Isabelle
  imports Main "HOL-Library.AList" "HOL-Library.Multiset"
begin

section \<open>Python strings\<close>

text \<open>
  A Python \<^verbatim>\<open>str\<close> is a sequence of Unicode code points; it is modelled as a list of
  natural numbers. \<open>str\<close> embeds an ASCII literal.  \<open>isspace\<close> is the set of code points
  that \<^verbatim>\<open>str.split()\<close> and \<^verbatim>\<open>str.strip()\<close> treat as whitespace.
\<close>

type_synonym py_str = "nat list"

definition str :: "string \<Rightarrow> py_str" where
  "str s = map of_char s"

definition isspace :: "nat \<Rightarrow> bool" where
  "isspace c \<longleftrightarrow>
     (9 \<le> c \<and> c \<le> 13) \<or> (28 \<le> c \<and> c \<le> 32) \<or> c = 133 \<or> c = 160 \<or> c = 5760 \<or>
     (8192 \<le> c \<and> c \<le> 8202) \<or> c = 8232 \<or> c = 8233 \<or> c = 8239 \<or> c = 8287 \<or> c = 12288"

text \<open>The exceptions that the scripts can raise or let through.\<close>

datatype error = ValueError | IndexError | AttributeError | TypeError | KeyError py_str
  | ServiceError py_str | OSError py_str

text \<open>
  \<^verbatim>\<open>text.split()\<close>: maximal runs of non-whitespace, scanned left to right; \<open>cur\<close> is the
  word being read.
\<close>

fun split_from :: "py_str \<Rightarrow> py_str \<Rightarrow> py_str list" where
  "split_from cur [] = (if cur = [] then [] else [cur])"
| "split_from cur (c # cs) =
     (if isspace c then (if cur = [] then split_from [] cs else cur # split_from [] cs)
      else split_from (cur @ [c]) cs)"

definition split :: "py_str \<Rightarrow> py_str list" where
  "split s = split_from [] s"

text \<open>\<^verbatim>\<open>sep.join(words)\<close>.\<close>

fun join :: "py_str \<Rightarrow> py_str list \<Rightarrow> py_str" where
  "join sep [] = []"
| "join sep [w] = w"
| "join sep (w # v # ws) = w @ sep @ join sep (v # ws)"

text \<open>\<^verbatim>\<open>s.strip()\<close>: leading and trailing whitespace removed.\<close>

definition strip :: "py_str \<Rightarrow> py_str" where
  "strip s = rev (dropWhile isspace (rev (dropWhile isspace s)))"

text \<open>\<^verbatim>\<open>s.split(sep)\<close> for a one-character separator; the result is never empty.\<close>

fun split_on_from :: "nat \<Rightarrow> py_str \<Rightarrow> py_str \<Rightarrow> py_str list" where
  "split_on_from sep cur [] = [cur]"
| "split_on_from sep cur (c # cs) =
     (if c = sep then cur # split_on_from sep [] cs else split_on_from sep (cur @ [c]) cs)"

definition split_on :: "nat \<Rightarrow> py_str \<Rightarrow> py_str list" where
  "split_on sep s = split_on_from sep [] s"

section \<open>Random placeholders (the non-linguistically motivated script)\<close>

definition placeholder :: py_str where
  "placeholder = str ''#######''"

text \<open>
  \<^verbatim>\<open>random.sample(range(n), k)\<close> raises \<^verbatim>\<open>ValueError\<close> when the sample is larger than
  the population; otherwise it returns what the generator draws. The generator is a
  parameter \<open>draw\<close>; \<open>sample_contract\<close> is what the library promises of a draw: \<open>k\<close>
  distinct positions below \<open>n\<close>.
\<close>

definition random_sample :: "(nat \<Rightarrow> nat \<Rightarrow> nat list) \<Rightarrow> nat \<Rightarrow> nat \<Rightarrow> error + nat list" where
  "random_sample draw n k = (if n < k then Inl ValueError else Inr (draw n k))"

definition sample_contract :: "nat \<Rightarrow> nat \<Rightarrow> nat list \<Rightarrow> bool" where
  "sample_contract n k xs \<longleftrightarrow> length xs = k \<and> distinct xs \<and> list_all (\<lambda>i. i < n) xs"

text \<open>
  The loop \<^verbatim>\<open>for i in indices: words[i] = '#######'\<close>; an index outside the list
  raises \<^verbatim>\<open>IndexError\<close>.
\<close>

fun assign_placeholders :: "py_str list \<Rightarrow> nat list \<Rightarrow> error + py_str list" where
  "assign_placeholders ws [] = Inr ws"
| "assign_placeholders ws (i # is) =
     (if i < length ws then assign_placeholders (ws[i := placeholder]) is else Inl IndexError)"

text \<open>
  \<^verbatim>\<open>insert_placeholders_random(text, rate=0.2)\<close>, at the rate its only caller passes.
  \<^verbatim>\<open>int(len(words) * 0.2)\<close> is \<open>length ws div 5\<close>: the double nearest to 0.2 is
  \<open>(2^54 + 1) / (5 * 2^54)\<close>, so for a list of fewer than \<open>2^50\<close> words the product lies
  in \<open>[n / 5, n div 5 + 1)\<close> before and after rounding, and \<^verbatim>\<open>int\<close> truncates it to
  \<open>n div 5\<close>.
\<close>

definition insert_placeholders_random :: "(nat \<Rightarrow> nat \<Rightarrow> nat list) \<Rightarrow> py_str \<Rightarrow> error + py_str" where
  "insert_placeholders_random draw txt =
     (let ws = split txt;
          count = max 1 (length ws div 5)
      in case random_sample draw (length ws) count of
           Inl e \<Rightarrow> Inl e
         | Inr indices \<Rightarrow>
             (case assign_placeholders ws indices of
                Inl e \<Rightarrow> Inl e
              | Inr ws' \<Rightarrow> Inr (join (str '' '') ws')))"

section \<open>The prompt templates\<close>

text \<open>
  Each prompt is the f-string of its function, piece by piece: literal text, the code
  points that are not printable ASCII (10 is the line break, 34 the double quote, 39
  the apostrophe, 8209 the non-breaking hyphen, 8211 the en dash), and the formatted
  arguments.
\<close>

text \<open>The linguistically motivated script: \<^verbatim>\<open>get_switching_points\<close>.\<close>

definition prompt_get_switching_points_lin :: "py_str \<Rightarrow> py_str" where
  "prompt_get_switching_points_lin txt = concat
     [[10], str ''You are an expert linguist and code'', [8209],
      str ''switching analyst. Based on the Equivalence Constraint Theory and '',
      str ''the Matrix Language Frame model, identify nouns in the input English '',
      str ''sentence that would serve as appropriate code'', [8209],
      str ''switching points.'', [10, 10, 8211],
      str '' Input variable: text (a single English sentence)  '', [10, 8211],
      str '' Task: Find every noun (as a free content morpheme) that can be '',
      str ''switched under the theories above.  '', [10, 8211],
      str '' Transformation: Replace each identified noun in the sentence with '', [34],
      str ''#######'', [34], str ''.  '', [10, 8211],
      str '' Output: Return only the transformed sentence with nouns replaced '',
      str ''by '', [34], str ''#######'', [34], str ''.'', [10],
      str ''- The substituted words blend seamlessly into the text, following '',
      str ''natural bilingual speech patterns.'', [10],
      str ''- Adjust the target language words as needed (e.g., inflection, '',
      str ''gender, number) so that the text remains syntactically correct.'', [10],
      str ''- Ensure that nouns in common expressions are not code-switched.'', [10],
      str ''- Don'', [39],
      str ''t return any summary or introduction, just the processed text'', [10, 10],
      str ''[English text]'', [10], txt, [10]]"

text \<open>The linguistically motivated script: \<^verbatim>\<open>code_switch_text\<close>.\<close>

definition prompt_code_switch_text_lin :: "py_str \<Rightarrow> py_str \<Rightarrow> py_str \<Rightarrow> py_str" where
  "prompt_code_switch_text_lin placeholder_text target_text target_language = concat
     [[10], str ''You will be given a pair of parallel texts in English and '',
      target_language, str ''.'', [10, 10],
      str ''Your goal is to produce a code-switched version of the English text '',
      str ''by replacing each of the hashtag-sequences (#######) in the English '',
      str ''text with their '', target_language, str '' counterparts from the '',
      target_language, str '' text, ensuring that:'', [10],
      str ''- The substituted words blend seamlessly into the text, following '',
      str ''natural bilingual speech patterns.'', [10],
      str ''- The text should be grounded with the principles of the Equivalence '',
      str ''Constraint Theory and the Matrix Language Frame model.'', [10],
      str ''- Adjust the target language words as needed (e.g., inflection, '',
      str ''gender, number) so that the text remains syntactically correct.'', [10],
      str ''- The original meaning and flow of the text are maintained.'', [10],
      str ''- All the hashtag-sequences (#######) have to be replaced with text '',
      str ''from the '', target_language, str '' text.'', [10],
      str ''- Use only the words from the '', target_language, str '' text.'', [10],
      str ''- Return only the code-switched text, without any additions or explanations.'',
      [10, 10], str ''[English text with placeholders]'', [10], placeholder_text, [10, 10],
      str ''['', target_language, str '' text]'', [10], target_text, [10, 10],
      str ''[Code-switched English and '', target_language, str '']'', [10]]"

text \<open>The reverse script (English as the embedded language): \<^verbatim>\<open>mask_target_points\<close>.\<close>

definition prompt_mask_target_points :: "py_str \<Rightarrow> py_str \<Rightarrow> py_str" where
  "prompt_mask_target_points txt target_language = concat
     [[10], str ''You are an expert linguist and code'', [8209],
      str ''switching analyst. Based on the Equivalence Constraint Theory and '',
      str ''the Matrix Language Frame model, identify nouns in the input '', target_language,
      str '' sentence that would serve as appropriate code'', [8209],
      str ''switching points.'', [10, 10, 8211], str '' Input variable: text (a single '',
      target_language, str '' sentence)'', [10, 8211],
      str '' Task: Find every noun (as a free content morpheme) that can be '',
      str ''switched under the theories above.'', [10, 8211],
      str '' Transformation: Replace each identified noun in the sentence with '', [34],
      str ''#######'', [34], str ''.'', [10, 8211],
      str '' Output: Return only the transformed sentence with nouns replaced '',
      str ''by '', [34], str ''#######'', [34], str ''.'', [10],
      str ''- The substituted words blend seamlessly into the text, following '',
      str ''natural bilingual speech patterns.'', [10],
      str ''- Adjust the English words as needed so that the text remains syntactically '',
      str ''correct when inserted later.'', [10],
      str ''- Ensure that nouns in common expressions are not code-switched.'', [10],
      str ''- Don'', [39],
      str ''t return any summary or introduction, just the processed text'', [10, 10],
      str ''['', target_language, str '' text]'', [10], txt, [10]]"

text \<open>The reverse script: \<^verbatim>\<open>insert_english_words\<close>.\<close>

definition prompt_insert_english_words :: "py_str \<Rightarrow> py_str \<Rightarrow> py_str \<Rightarrow> py_str" where
  "prompt_insert_english_words placeholder_text english_text target_language = concat
     [[10], str ''You will be given parallel texts in '', target_language,
      str '' and English.'', [10, 10],
      str ''Your goal is to produce a reverse code-switched version of the '',
      target_language,
      str '' text by replacing each of the hashtag-sequences (#######) in the '',
      target_language,
      str '' placeholder text with their English counterparts from the English '',
      str ''text, ensuring that:'', [10],
      str ''- The substituted English words fit naturally into the '', target_language,
      str '' sentence structure.'', [10],
      str ''- The text should be grounded with the principles of the Equivalence '',
      str ''Constraint Theory and the Matrix Language Frame model.'', [10],
      str ''- Inflect English words if needed to maintain grammatical correctness.'', [10],
      str ''- The original meaning and flow of the '', target_language,
      str '' text are preserved.'', [10],
      str ''- All the hashtag-sequences (#######) have to be replaced with text '',
      str ''from the English text.'', [10],
      str ''- Use only the words from the English text.'', [10],
      str ''- Return only the final mixed sentence, without any additions or '',
      str ''explanations.'', [10, 10], str ''['', target_language,
      str '' text with placeholders]'', [10], placeholder_text, [10, 10],
      str ''[English text]'', [10], english_text, [10, 10], str ''[Reverse code-switched '',
      target_language, str '' and English]'', [10]]"

text \<open>The multi-language script: \<^verbatim>\<open>get_switching_points\<close>.\<close>

definition prompt_get_switching_points_multi :: "py_str \<Rightarrow> py_str" where
  "prompt_get_switching_points_multi txt = concat
     [[10], str ''You are an expert linguist and code-switching analyst. Based on '',
      str ''the Equivalence Constraint Theory, identify nouns in the input English '',
      str ''sentence that would serve as appropriate code-switching points.'',
      [10, 10, 8211], str '' Input variable: text (a single English sentence)'', [10, 8211],
      str '' Task: Find every noun (as a free content morpheme) that can be '',
      str ''switched under the theories above.'', [10, 8211],
      str '' Transformation: Replace each identified noun in the sentence with '', [34],
      str ''#######'', [34], str ''.'', [10, 8211],
      str '' Output: Return only the transformed sentence with nouns replaced '',
      str ''by '', [34], str ''#######'', [34], str ''.'', [10],
      str ''- Do not include any summary or extra commentary.'', [10, 10],
      str ''[English text]'', [10], txt, [10]]"

text \<open>The multi-language script: \<^verbatim>\<open>code_switch_multi\<close>, after \<open>parallel_section\<close> is built.\<close>

definition prompt_code_switch_multi :: "py_str \<Rightarrow> py_str \<Rightarrow> py_str" where
  "prompt_code_switch_multi placeholder_text parallel_section = concat
     [[10], str ''You are a code-switching specialist. Given an English sentence with '',
      str ''placeholder markers (#######) and parallel sentences in multiple '',
      str ''target languages, produce a single mixed-language code-switched '',
      str ''English sentence by replacing each placeholder with the appropriate '',
      str ''word or phrase from one of the target-language sentences.'', [10, 10],
      str ''Guidelines:'', [10],
      str ''- Replace each ####### with text from exactly one of the provided '',
      str ''target-language sentences.'', [10],
      str ''- The text should be grounded with the principles of the Equivalence '',
      str ''Constraint Theory and the Matrix Language Frame model.'', [10],
      str ''- Distribute replacements as evenly as possible across the set of '',
      str ''languages; do not use any language more often than the others.'', [10],
      str ''- Maintain the original meaning and grammatical flow.'', [10],
      str ''- Use the exact form (including inflections) from the parallel text.'', [10],
      str ''- Return only the final code-switched sentence without any additional '',
      str ''commentary.'', [10, 10], str ''[English text with placeholders]'', [10],
      placeholder_text, [10, 10], parallel_section, [10, 10],
      str ''[Mixed-language code-switched sentence]'', [10]]"

text \<open>The random script: \<^verbatim>\<open>code_switch_text\<close>.\<close>

definition prompt_code_switch_text_rnd :: "py_str \<Rightarrow> py_str \<Rightarrow> py_str \<Rightarrow> py_str" where
  "prompt_code_switch_text_rnd placeholder_text target_text target_language = concat
     [[10], str ''You will be given an English sentence with placeholders (#######) '',
      str ''and its parallel sentence in '', target_language, str ''.'', [10],
      str ''Replace each placeholder with the corresponding segment from the '',
      target_language, str '' text, ensuring:'', [10],
      str ''- The inserted text matches the target-language phrasing (inflections, '',
      str ''gender, number).'', [10],
      str ''- The final sentence reads naturally as mixed English and '', target_language,
      str ''.'', [10], str ''- Preserve the original sentence order.'', [10],
      str ''Return only the filled sentence, no extra comments.'', [10, 10],
      str ''[English with placeholders]'', [10], placeholder_text, [10, 10], str ''['',
      target_language, str '' parallel text]'', [10], target_text, [10, 10],
      str ''[Mixed code-switched result]'', [10]]"

section \<open>Data frames, the command line and the outside world\<close>

text \<open>
  A cell read from a CSV file is a string or something else (a number, a missing value).
  A value that is not a string is kept as the text that \<^verbatim>\<open>str()\<close> gives for it, which is
  what an f-string puts into a prompt.
\<close>

datatype cell = Str py_str | NonStr py_str

fun format_cell :: "cell \<Rightarrow> py_str" where
  "format_cell (Str s) = s"
| "format_cell (NonStr r) = r"

text \<open>
  A data frame: the column labels in order, and the rows in order, each row holding a
  value for each label.
\<close>

type_synonym row = "(py_str \<times> cell) list"

record dataframe =
  columns :: "py_str list"
  rows :: "row list"

text \<open>The first exception of a list of results, or all the values.\<close>

fun collect :: "(error + 'a) list \<Rightarrow> error + 'a list" where
  "collect [] = Inr []"
| "collect (x # xs) =
     (case x of
        Inl e \<Rightarrow> Inl e
      | Inr v \<Rightarrow> (case collect xs of Inl e \<Rightarrow> Inl e | Inr vs \<Rightarrow> Inr (v # vs)))"

text \<open>\<^verbatim>\<open>row[c]\<close> and \<^verbatim>\<open>df[c]\<close>; a missing label raises \<^verbatim>\<open>KeyError\<close>.\<close>

definition row_get :: "row \<Rightarrow> py_str \<Rightarrow> error + cell" where
  "row_get r c = (case map_of r c of None \<Rightarrow> Inl (KeyError c) | Some v \<Rightarrow> Inr v)"

definition get_column :: "py_str \<Rightarrow> dataframe \<Rightarrow> error + cell list" where
  "get_column c df =
     (if c \<in> set (columns df) then collect (map (\<lambda>r. row_get r c) (rows df))
      else Inl (KeyError c))"

text \<open>
  \<^verbatim>\<open>df[c] = values\<close>, for values computed from the rows of \<open>df\<close> itself: an existing
  column is replaced where it stands, a new one is appended.
\<close>

definition set_column :: "py_str \<Rightarrow> cell list \<Rightarrow> dataframe \<Rightarrow> dataframe" where
  "set_column c vs df =
     \<lparr>columns = (if c \<in> set (columns df) then columns df else columns df @ [c]),
      rows = map (\<lambda>(r, v). AList.update c v r) (zip (rows df) vs)\<rparr>"

text \<open>
  \<^verbatim>\<open>df.drop_duplicates(subset=c)\<close> keeps the first row of each value of column \<open>c\<close>;
  \<^verbatim>\<open>df.head(n)\<close> keeps the first \<open>n\<close> rows, and for negative \<open>n\<close> all rows but the
  last \<open>-n\<close>.
\<close>

fun first_occurrences :: "cell list \<Rightarrow> (cell \<times> row) list \<Rightarrow> row list" where
  "first_occurrences seen [] = []"
| "first_occurrences seen ((k, r) # krs) =
     (if k \<in> set seen then first_occurrences seen krs
      else r # first_occurrences (k # seen) krs)"

definition drop_duplicates :: "py_str \<Rightarrow> dataframe \<Rightarrow> error + dataframe" where
  "drop_duplicates c df =
     (case get_column c df of
        Inl e \<Rightarrow> Inl e
      | Inr keys \<Rightarrow> Inr (df\<lparr>rows := first_occurrences [] (zip keys (rows df))\<rparr>))"

definition head :: "int \<Rightarrow> dataframe \<Rightarrow> dataframe" where
  "head n df =
     df\<lparr>rows := (if 0 \<le> n then take (nat n) (rows df)
                 else take (length (rows df) - nat (- n)) (rows df))\<rparr>"

text \<open>
  The sampling step of \<open>main\<close>. In the linguistically motivated and the multi-language
  script the key is the source column, in the reverse script the target column:
  \<^verbatim>\<open>if args.sample_size: df = df.drop_duplicates(subset=key).head(args.sample_size)\<close>.
  The random script has \<^verbatim>\<open>if args.sample_size: df = df.head(args.sample_size)\<close>.
  The option is an \<^verbatim>\<open>int\<close> or \<^verbatim>\<open>None\<close>, and \<^verbatim>\<open>None\<close> and 0 are false.
\<close>

definition sample_unique :: "py_str \<Rightarrow> int option \<Rightarrow> dataframe \<Rightarrow> error + dataframe" where
  "sample_unique key sample_size df =
     (case sample_size of
        None \<Rightarrow> Inr df
      | Some n \<Rightarrow>
          if n \<noteq> 0 then
            (case drop_duplicates key df of Inl e \<Rightarrow> Inl e | Inr d \<Rightarrow> Inr (head n d))
          else Inr df)"

definition sample_first :: "int option \<Rightarrow> dataframe \<Rightarrow> error + dataframe" where
  "sample_first sample_size df =
     (case sample_size of
        None \<Rightarrow> Inr df
      | Some n \<Rightarrow> if n \<noteq> 0 then Inr (head n df) else Inr df)"

text \<open>The parsed command line.\<close>

record common_args =
  input_csv :: py_str
  source_column :: py_str
  csw_column_name :: py_str
  output_dir :: py_str
  sample_size :: "int option"

record args = common_args +
  target_column :: py_str
  target_language :: py_str

record multi_args = common_args +
  target_columns :: py_str
  target_languages :: py_str

text \<open>
  What a script does to the outside world, in order: reading the input file, a request
  to the text-generation service, a draw from the random generator for the words of a
  text, writing the output file. Logging and the progress bar are left out.
\<close>

datatype event = ReadCsv py_str | Invoke py_str | Sample py_str | ToCsv py_str dataframe

text \<open>
  The outside world: the file system behind \<^verbatim>\<open>pd.read_csv\<close> and \<^verbatim>\<open>to_csv\<close>, the service
  behind \<^verbatim>\<open>invoke_claude\<close> (its answer, or the exception it raises, to the \<open>k\<close>-th
  request of the run), the random generator (its \<open>j\<close>-th draw of \<open>k\<close> positions out of
  \<open>n\<close>), and \<^verbatim>\<open>os.path\<close>: \<open>path_join\<close> is \<^verbatim>\<open>os.path.join\<close>, \<open>path_stem p\<close> is
  \<^verbatim>\<open>os.path.splitext(os.path.basename(p))[0]\<close>.
\<close>

record env =
  read_csv :: "py_str \<Rightarrow> error + dataframe"
  to_csv :: "py_str \<Rightarrow> dataframe \<Rightarrow> error option"
  claude :: "nat \<Rightarrow> py_str \<Rightarrow> error + py_str"
  rng :: "nat \<Rightarrow> nat \<Rightarrow> nat \<Rightarrow> nat list"
  path_join :: "py_str \<Rightarrow> py_str \<Rightarrow> py_str"
  path_stem :: "py_str \<Rightarrow> py_str"

text \<open>
  A computation takes the events so far and returns a value or an exception, and the
  events extended by its own.
\<close>

type_synonym 'a io = "event list \<Rightarrow> (error + 'a) \<times> event list"

definition io_return :: "'a \<Rightarrow> 'a io" where
  "io_return x tr = (Inr x, tr)"

definition io_raise :: "error \<Rightarrow> 'a io" where
  "io_raise e tr = (Inl e, tr)"

definition io_lift :: "error + 'a \<Rightarrow> 'a io" where
  "io_lift r tr = (r, tr)"

definition io_bind :: "'a io \<Rightarrow> ('a \<Rightarrow> 'b io) \<Rightarrow> 'b io" where
  "io_bind m f tr = (case m tr of (Inl e, tr') \<Rightarrow> (Inl e, tr') | (Inr x, tr') \<Rightarrow> f x tr')"

fun requests :: "event list \<Rightarrow> py_str list" where
  "requests [] = []"
| "requests (Invoke p # tr) = p # requests tr"
| "requests (ReadCsv p # tr) = requests tr"
| "requests (Sample s # tr) = requests tr"
| "requests (ToCsv p d # tr) = requests tr"

fun samples :: "event list \<Rightarrow> py_str list" where
  "samples [] = []"
| "samples (Sample s # tr) = s # samples tr"
| "samples (ReadCsv p # tr) = samples tr"
| "samples (Invoke p # tr) = samples tr"
| "samples (ToCsv p d # tr) = samples tr"

fun written :: "event list \<Rightarrow> (py_str \<times> dataframe) list" where
  "written [] = []"
| "written (ToCsv p d # tr) = (p, d) # written tr"
| "written (ReadCsv p # tr) = written tr"
| "written (Invoke p # tr) = written tr"
| "written (Sample s # tr) = written tr"

definition pd_read_csv :: "env \<Rightarrow> py_str \<Rightarrow> dataframe io" where
  "pd_read_csv E path tr = (read_csv E path, tr @ [ReadCsv path])"

definition pd_to_csv :: "env \<Rightarrow> py_str \<Rightarrow> dataframe \<Rightarrow> unit io" where
  "pd_to_csv E path df tr =
     ((case to_csv E path df of None \<Rightarrow> Inr () | Some e \<Rightarrow> Inl e), tr @ [ToCsv path df])"

definition invoke_claude :: "env \<Rightarrow> py_str \<Rightarrow> py_str io" where
  "invoke_claude E prompt tr = (claude E (length (requests tr)) prompt, tr @ [Invoke prompt])"

text \<open>
  \<^verbatim>\<open>Series.apply(f)\<close>, and \<^verbatim>\<open>DataFrame.apply(f, axis=1)\<close> on a frame that has rows: \<open>f\<close> on
  each element, or on each row, in order; the first exception ends the loop. On a
  column without values \<^verbatim>\<open>Series.apply\<close> makes no call.
\<close>

fun apply_io :: "('a \<Rightarrow> 'b io) \<Rightarrow> 'a list \<Rightarrow> 'b list io" where
  "apply_io f [] tr = (Inr [], tr)"
| "apply_io f (x # xs) tr =
     (case f x tr of
        (Inl e, tr') \<Rightarrow> (Inl e, tr')
      | (Inr y, tr') \<Rightarrow>
          (case apply_io f xs tr' of
             (Inl e, tr'') \<Rightarrow> (Inl e, tr'')
           | (Inr ys, tr'') \<Rightarrow> (Inr (y # ys), tr'')))"

text \<open>
  \<^verbatim>\<open>DataFrame.apply(f, axis=1)\<close> on a frame without rows (pandas 2,
  \<^verbatim>\<open>FrameApply.apply_empty_result\<close>): to see whether \<open>f\<close> reduces a row to a value, pandas
  calls it once, on \<^verbatim>\<open>Series(index=df.columns, dtype=float64)\<close>, a row that holds the
  missing value \<^verbatim>\<open>nan\<close> under every label. An exception of that call is caught
  (\<^verbatim>\<open>except Exception: pass\<close>) and the result is a copy of the frame; when the call
  returns something that is not a \<^verbatim>\<open>Series\<close>, as the functions of the scripts do, the
  result is a column without values. The scripts call it on a frame that has at least
  one column, the one stage 1 has set or found.
\<close>

datatype applied = Values "py_str list" | Frame dataframe

definition nan_row :: "dataframe \<Rightarrow> row" where
  "nan_row df = map (\<lambda>c. (c, NonStr (str ''nan''))) (columns df)"

definition apply_rows :: "(row \<Rightarrow> py_str io) \<Rightarrow> dataframe \<Rightarrow> applied io" where
  "apply_rows f df =
     (if rows df = [] then
        (\<lambda>tr. case f (nan_row df) tr of
                 (Inl e, tr') \<Rightarrow> (Inr (Frame df), tr')
               | (Inr y, tr') \<Rightarrow> (Inr (Values []), tr'))
      else io_bind (apply_io f (rows df)) (\<lambda>ys. io_return (Values ys)))"

text \<open>
  \<^verbatim>\<open>df[c] = df.apply(f, axis=1)\<close>. A column of values is set as in \<open>set_column\<close>. A frame
  (\<^verbatim>\<open>DataFrame._set_item_frame_value\<close>) is accepted only when it has exactly one column,
  whose values are then set; otherwise the assignment raises \<^verbatim>\<open>ValueError\<close>.
\<close>

definition assign :: "py_str \<Rightarrow> applied \<Rightarrow> dataframe \<Rightarrow> error + dataframe" where
  "assign c v df =
     (case v of
        Values ys \<Rightarrow> Inr (set_column c (map Str ys) df)
      | Frame d \<Rightarrow>
          if length (columns d) = 1 then
            (case get_column (hd (columns d)) d of
               Inl e \<Rightarrow> Inl e
             | Inr vs \<Rightarrow> Inr (set_column c vs df))
          else Inl ValueError)"

definition col_placeholder_text :: py_str where
  "col_placeholder_text = str ''placeholder_text''"

definition col_masked_target :: py_str where
  "col_masked_target = str ''masked_target''"

section \<open>The linguistically motivated script\<close>

definition get_switching_points_lin :: "env \<Rightarrow> cell \<Rightarrow> py_str io" where
  "get_switching_points_lin E txt =
     io_bind (invoke_claude E (prompt_get_switching_points_lin (format_cell txt)))
       (\<lambda>response. io_return (strip response))"

definition code_switch_text_lin :: "env \<Rightarrow> cell \<Rightarrow> cell \<Rightarrow> py_str \<Rightarrow> py_str io" where
  "code_switch_text_lin E placeholder_text target_text target_lang =
     io_bind (invoke_claude E (prompt_code_switch_text_lin (format_cell placeholder_text)
                (format_cell target_text) target_lang))
       (\<lambda>response. io_return (strip response))"

definition main_lin :: "env \<Rightarrow> args \<Rightarrow> unit io" where
  "main_lin E A =
     io_bind (pd_read_csv E (input_csv A)) (\<lambda>df.
     io_bind (io_lift (sample_unique (source_column A) (sample_size A) df)) (\<lambda>df.
     io_bind (io_lift (get_column (source_column A) df)) (\<lambda>source.
     io_bind (apply_io (\<lambda>txt. get_switching_points_lin E txt) source) (\<lambda>placeholders.
     io_bind (io_return (set_column col_placeholder_text (map Str placeholders) df)) (\<lambda>df.
     io_bind (apply_rows (\<lambda>row.
                io_bind (io_lift (row_get row col_placeholder_text)) (\<lambda>p.
                io_bind (io_lift (row_get row (target_column A))) (\<lambda>t.
                code_switch_text_lin E p t (target_language A)))) df) (\<lambda>mixed.
     io_bind (io_lift (assign (csw_column_name A) mixed df)) (\<lambda>df.
     pd_to_csv E (path_join E (output_dir A)
         (path_stem E (input_csv A) @ str ''_with_'' @ csw_column_name A @ str ''.csv'')) df)))))))"

section \<open>The reverse script (English as the embedded language)\<close>

definition mask_target_points :: "env \<Rightarrow> cell \<Rightarrow> py_str \<Rightarrow> py_str io" where
  "mask_target_points E txt target_lang =
     io_bind (invoke_claude E (prompt_mask_target_points (format_cell txt) target_lang))
       (\<lambda>response. io_return (strip response))"

definition insert_english_words :: "env \<Rightarrow> cell \<Rightarrow> cell \<Rightarrow> py_str \<Rightarrow> py_str io" where
  "insert_english_words E placeholder_text english_text target_lang =
     io_bind (invoke_claude E (prompt_insert_english_words (format_cell placeholder_text)
                (format_cell english_text) target_lang))
       (\<lambda>response. io_return (strip response))"

definition main_rev :: "env \<Rightarrow> args \<Rightarrow> unit io" where
  "main_rev E A =
     io_bind (pd_read_csv E (input_csv A)) (\<lambda>df.
     io_bind (io_lift (sample_unique (target_column A) (sample_size A) df)) (\<lambda>df.
     io_bind (io_lift (get_column (target_column A) df)) (\<lambda>target.
     io_bind (apply_io (\<lambda>txt. mask_target_points E txt (target_language A)) target) (\<lambda>masked.
     io_bind (io_return (set_column col_masked_target (map Str masked) df)) (\<lambda>df.
     io_bind (apply_rows (\<lambda>row.
                io_bind (io_lift (row_get row col_masked_target)) (\<lambda>p.
                io_bind (io_lift (row_get row (source_column A))) (\<lambda>t.
                insert_english_words E p t (target_language A)))) df) (\<lambda>mixed.
     io_bind (io_lift (assign (csw_column_name A) mixed df)) (\<lambda>df.
     pd_to_csv E (path_join E (output_dir A)
         (path_stem E (input_csv A) @ str ''_reverse_'' @ csw_column_name A @ str ''.csv'')) df)))))))"

section \<open>The multi-language script\<close>

definition get_switching_points_multi :: "env \<Rightarrow> cell \<Rightarrow> py_str io" where
  "get_switching_points_multi E txt =
     io_bind (invoke_claude E (prompt_get_switching_points_multi (format_cell txt)))
       (\<lambda>response. io_return (strip response))"

definition code_switch_multi :: "env \<Rightarrow> cell \<Rightarrow> cell list \<Rightarrow> py_str list \<Rightarrow> py_str io" where
  "code_switch_multi E placeholder_text target_texts languages =
     (let parallel_section =
            join [10] (map (\<lambda>(lang, txt). str ''['' @ lang @ str '' text]'' @ [10] @ format_cell txt)
                         (zip languages target_texts))
      in io_bind (invoke_claude E (prompt_code_switch_multi (format_cell placeholder_text)
                    parallel_section))
           (\<lambda>response. io_return (strip response)))"

definition main_multi :: "env \<Rightarrow> multi_args \<Rightarrow> unit io" where
  "main_multi E A =
     (let target_cols = map strip (split_on 44 (target_columns A));
          languages = map strip (split_on 44 (target_languages A))
      in if length target_cols \<noteq> length languages then io_raise ValueError
         else
     io_bind (pd_read_csv E (input_csv A)) (\<lambda>df.
     io_bind (io_lift (sample_unique (source_column A) (sample_size A) df)) (\<lambda>df.
     io_bind (if col_placeholder_text \<notin> set (columns df) then
                io_bind (io_lift (get_column (source_column A) df)) (\<lambda>source.
                io_bind (apply_io (\<lambda>txt. get_switching_points_multi E txt) source) (\<lambda>placeholders.
                io_return (set_column col_placeholder_text (map Str placeholders) df)))
              else io_return df) (\<lambda>df.
     io_bind (apply_rows (\<lambda>row.
                io_bind (io_lift (row_get row col_placeholder_text)) (\<lambda>p.
                io_bind (io_lift (collect (map (\<lambda>col. row_get row col) target_cols))) (\<lambda>ts.
                code_switch_multi E p ts languages))) df) (\<lambda>mixed.
     io_bind (io_lift (assign (csw_column_name A) mixed df)) (\<lambda>df.
     pd_to_csv E (path_join E (output_dir A)
         (path_stem E (input_csv A) @ str ''_with_'' @ csw_column_name A @ str ''.csv'')) df))))))"

section \<open>The random script\<close>

text \<open>
  The function applied to each source text: \<^verbatim>\<open>txt.split()\<close> raises \<^verbatim>\<open>AttributeError\<close> on
  a value that is not a string; on a string the generator is asked for its next draw.
\<close>

definition insert_placeholders_random_io :: "env \<Rightarrow> cell \<Rightarrow> py_str io" where
  "insert_placeholders_random_io E txt tr =
     (case txt of
        NonStr r \<Rightarrow> (Inl AttributeError, tr)
      | Str s \<Rightarrow> (insert_placeholders_random (rng E (length (samples tr))) s, tr @ [Sample s]))"

definition code_switch_text_rnd :: "env \<Rightarrow> cell \<Rightarrow> cell \<Rightarrow> py_str \<Rightarrow> py_str io" where
  "code_switch_text_rnd E placeholder_text target_text target_lang =
     io_bind (invoke_claude E (prompt_code_switch_text_rnd (format_cell placeholder_text)
                (format_cell target_text) target_lang))
       (\<lambda>response. io_return (strip response))"

definition main_rnd :: "env \<Rightarrow> args \<Rightarrow> unit io" where
  "main_rnd E A =
     io_bind (pd_read_csv E (input_csv A)) (\<lambda>df.
     io_bind (io_lift (sample_first (sample_size A) df)) (\<lambda>df.
     io_bind (io_lift (get_column (source_column A) df)) (\<lambda>source.
     io_bind (apply_io (\<lambda>txt. insert_placeholders_random_io E txt) source) (\<lambda>placeholders.
     io_bind (io_return (set_column col_placeholder_text (map Str placeholders) df)) (\<lambda>df.
     io_bind (apply_rows (\<lambda>row.
                io_bind (io_lift (row_get row col_placeholder_text)) (\<lambda>p.
                io_bind (io_lift (row_get row (target_column A))) (\<lambda>t.
                code_switch_text_rnd E p t (target_language A)))) df) (\<lambda>mixed.
     io_bind (io_lift (assign (csw_column_name A) mixed df)) (\<lambda>df.
     pd_to_csv E (path_join E (output_dir A)
         (path_stem E (input_csv A) @ str ''_rnd_'' @ csw_column_name A @ str ''.csv'')) df)))))))"

section \<open>The two-stage pipeline of the specification\<close>

text \<open>
  The specification describes one mask-then-fill pipeline, repeated with small prompt
  variations. These definitions follow its words, to be compared with the four
  \<open>main\<close> functions above. \<open>ask\<close> is a request whose answer is stripped;
  \<open>mask_stage\<close> asks with a prompt made from one text; \<open>fill_stage\<close> reads the masked
  text and the parallel texts of a row and asks with a prompt made from them.
\<close>

definition ask :: "env \<Rightarrow> py_str \<Rightarrow> py_str io" where
  "ask E prompt = io_bind (invoke_claude E prompt) (\<lambda>response. io_return (strip response))"

definition mask_stage :: "env \<Rightarrow> (py_str \<Rightarrow> py_str) \<Rightarrow> cell \<Rightarrow> py_str io" where
  "mask_stage E prompt txt = ask E (prompt (format_cell txt))"

definition fill_stage ::
  "env \<Rightarrow> py_str \<Rightarrow> py_str list \<Rightarrow> (py_str \<Rightarrow> cell list \<Rightarrow> py_str) \<Rightarrow> row \<Rightarrow> py_str io" where
  "fill_stage E mid cols prompt row =
     io_bind (io_lift (row_get row mid)) (\<lambda>p.
     io_bind (io_lift (collect (map (\<lambda>col. row_get row col) cols))) (\<lambda>ts.
     ask E (prompt (format_cell p) ts)))"

text \<open>The block of parallel texts that \<^verbatim>\<open>code_switch_multi\<close> puts into its prompt.\<close>

definition parallel_section :: "py_str list \<Rightarrow> cell list \<Rightarrow> py_str" where
  "parallel_section languages target_texts =
     join [10] (map (\<lambda>(lang, txt). str ''['' @ lang @ str '' text]'' @ [10] @ format_cell txt)
                  (zip languages target_texts))"

text \<open>The request that the fill stage sends for a row, when the row has the columns.\<close>

definition fill_request ::
  "py_str \<Rightarrow> py_str list \<Rightarrow> (py_str \<Rightarrow> cell list \<Rightarrow> py_str) \<Rightarrow> row \<Rightarrow> py_str option" where
  "fill_request mid cols prompt row =
     (case row_get row mid of
        Inl e \<Rightarrow> None
      | Inr p \<Rightarrow>
          (case collect (map (\<lambda>col. row_get row col) cols) of
             Inl e \<Rightarrow> None
           | Inr ts \<Rightarrow> Some (prompt (format_cell p) ts)))"

text \<open>
  The rows on which the fill stage is called: the rows of the frame, or for a frame
  without rows the one row of missing values.
\<close>

definition called_rows :: "dataframe \<Rightarrow> row list" where
  "called_rows df = (if rows df = [] then [nan_row df] else rows df)"

text \<open>
  The two stages. \<open>mask_rows\<close>: read, sample, mask every value of the key column
  (unless an existing column of masked texts is reused). \<open>fill_rows\<close>: apply the fill
  stage to the rows of the frame and set the new column.
\<close>

definition mask_rows ::
  "env \<Rightarrow> py_str \<Rightarrow> (dataframe \<Rightarrow> error + dataframe) \<Rightarrow> bool \<Rightarrow> py_str \<Rightarrow> (cell \<Rightarrow> py_str io) \<Rightarrow>
   py_str \<Rightarrow> dataframe io" where
  "mask_rows E input sampling reuse key stage1 mid =
     io_bind (pd_read_csv E input) (\<lambda>df.
     io_bind (io_lift (sampling df)) (\<lambda>df.
     if reuse \<and> mid \<in> set (columns df) then io_return df
     else io_bind (io_lift (get_column key df)) (\<lambda>vals.
          io_bind (apply_io stage1 vals) (\<lambda>masked.
          io_return (set_column mid (map Str masked) df)))))"

definition fill_rows :: "(row \<Rightarrow> py_str io) \<Rightarrow> py_str \<Rightarrow> dataframe \<Rightarrow> dataframe io" where
  "fill_rows stage2 csw df =
     io_bind (apply_rows stage2 df) (\<lambda>mixed. io_lift (assign csw mixed df))"

definition stages ::
  "env \<Rightarrow> py_str \<Rightarrow> (dataframe \<Rightarrow> error + dataframe) \<Rightarrow> bool \<Rightarrow> py_str \<Rightarrow> (cell \<Rightarrow> py_str io) \<Rightarrow>
   py_str \<Rightarrow> (row \<Rightarrow> py_str io) \<Rightarrow> py_str \<Rightarrow> dataframe io" where
  "stages E input sampling reuse key stage1 mid stage2 csw =
     io_bind (mask_rows E input sampling reuse key stage1 mid) (\<lambda>df. fill_rows stage2 csw df)"

definition mask_then_fill ::
  "env \<Rightarrow> py_str \<Rightarrow> (dataframe \<Rightarrow> error + dataframe) \<Rightarrow> bool \<Rightarrow> py_str \<Rightarrow> (cell \<Rightarrow> py_str io) \<Rightarrow>
   py_str \<Rightarrow> (row \<Rightarrow> py_str io) \<Rightarrow> py_str \<Rightarrow> py_str \<Rightarrow> unit io" where
  "mask_then_fill E input sampling reuse key stage1 mid stage2 csw output =
     io_bind (stages E input sampling reuse key stage1 mid stage2 csw) (\<lambda>df.
     pd_to_csv E output df)"

text \<open>
  Dropping duplicates in the words of the specification: of the rows with the same key,
  the first one is kept, that is, a row stays when its key occurs in no earlier row.
\<close>

definition unique_rows :: "cell list \<Rightarrow> row list \<Rightarrow> row list" where
  "unique_rows keys rs =
     map (\<lambda>i. rs ! i) (filter (\<lambda>i. keys ! i \<notin> set (take i keys)) [0..<length rs])"

text \<open>
  Two notions for the proofs. \<open>answered\<close>: the service has answered every request made
  so far. \<open>sound\<close>: a computation that starts with all requests answered and nothing
  written writes nothing, and either all its requests are answered too, or its last
  event is a request on which the service raised, and that exception is its result.
\<close>

definition answered :: "env \<Rightarrow> event list \<Rightarrow> bool" where
  "answered E tr \<longleftrightarrow> (\<forall>i<length (requests tr). \<exists>s. claude E i (requests tr ! i) = Inr s)"

definition failed_last :: "env \<Rightarrow> error + 'a \<Rightarrow> event list \<Rightarrow> bool" where
  "failed_last E r tr \<longleftrightarrow>
     (\<exists>t p e. tr = t @ [Invoke p] \<and> answered E t \<and>
        claude E (length (requests t)) p = Inl e \<and> r = Inl e)"

definition sound :: "env \<Rightarrow> 'a io \<Rightarrow> bool" where
  "sound E m \<longleftrightarrow>
     (\<forall>t r t'. answered E t \<and> written t = [] \<and> m t = (r, t') \<longrightarrow>
        written t' = [] \<and> (answered E t' \<or> failed_last E r t'))"

section \<open>The dataset preparation script\<close>

text \<open>
  The values that the benchmark corpora hold: \<^verbatim>\<open>None\<close>, strings, integers, the missing
  value \<^verbatim>\<open>NaN\<close>, sequences, and dictionaries (their items in insertion order).
\<close>

datatype pyval = PNone | PStr py_str | PInt int | PNaN
  | PList "pyval list" | PDict "(pyval \<times> pyval) list"

text \<open>
  The preparation script works on whole columns, so here a data frame is its columns in
  order, each with its values from the first row to the last. A loaded dataset is its
  splits by name.
\<close>

type_synonym frame = "(py_str \<times> pyval list) list"

type_synonym dataset = "(py_str \<times> frame) list"

text \<open>\<^verbatim>\<open>df[c]\<close>, \<^verbatim>\<open>df[c] = values\<close>, \<^verbatim>\<open>df[[c1, ...]]\<close>, \<^verbatim>\<open>df.drop(columns=[...])\<close>, \<^verbatim>\<open>dataset[split]\<close>.\<close>

definition frame_get :: "py_str \<Rightarrow> frame \<Rightarrow> error + pyval list" where
  "frame_get c df = (case map_of df c of None \<Rightarrow> Inl (KeyError c) | Some vs \<Rightarrow> Inr vs)"

definition frame_set :: "py_str \<Rightarrow> pyval list \<Rightarrow> frame \<Rightarrow> frame" where
  "frame_set c vs df = AList.update c vs df"

definition select_columns :: "py_str list \<Rightarrow> frame \<Rightarrow> error + frame" where
  "select_columns cs df =
     collect (map (\<lambda>c. case map_of df c of None \<Rightarrow> Inl (KeyError c) | Some vs \<Rightarrow> Inr (c, vs)) cs)"

definition drop_columns :: "py_str list \<Rightarrow> frame \<Rightarrow> error + frame" where
  "drop_columns cs df =
     (case filter (\<lambda>c. c \<notin> set (map fst df)) cs of
        [] \<Rightarrow> Inr (filter (\<lambda>(c, vs). c \<notin> set cs) df)
      | c # _ \<Rightarrow> Inl (KeyError c))"

definition split_get :: "dataset \<Rightarrow> py_str \<Rightarrow> error + frame" where
  "split_get d s = (case map_of d s of None \<Rightarrow> Inl (KeyError s) | Some df \<Rightarrow> Inr df)"

text \<open>
  \<^verbatim>\<open>df.sort_values(by=c).reset_index(drop=True)\<close>: the rows in the order that the sort
  gives them, numbered anew. The default sort of pandas is not stable, so the order is
  the one the library computes, a parameter \<open>argsort\<close> that maps the keys to the row
  positions in sorted order. \<open>sorting_permutation\<close> is what the library promises of it:
  every position once, and the keys ascending, strings by code points and missing values
  last.
\<close>

definition take_rows :: "nat list \<Rightarrow> pyval list \<Rightarrow> pyval list" where
  "take_rows positions vs = map (\<lambda>i. vs ! i) positions"

definition sort_values :: "(pyval list \<Rightarrow> nat list) \<Rightarrow> py_str \<Rightarrow> frame \<Rightarrow> error + frame" where
  "sort_values argsort by df =
     (case map_of df by of
        None \<Rightarrow> Inl (KeyError by)
      | Some keys \<Rightarrow> Inr (map (\<lambda>(c, vs). (c, take_rows (argsort keys) vs)) df))"

fun str_le :: "py_str \<Rightarrow> py_str \<Rightarrow> bool" where
  "str_le [] t = True"
| "str_le (x # s) [] = False"
| "str_le (x # s) (y # t) = (x < y \<or> (x = y \<and> str_le s t))"

fun key_le :: "pyval \<Rightarrow> pyval \<Rightarrow> bool" where
  "key_le (PStr s) (PStr t) = str_le s t"
| "key_le a (PStr t) = False"
| "key_le a b = True"

definition sorting_permutation :: "pyval list \<Rightarrow> nat list \<Rightarrow> bool" where
  "sorting_permutation keys perm \<longleftrightarrow>
     mset perm = mset [0..<length keys] \<and> sorted_wrt key_le (map (\<lambda>i. keys ! i) perm)"

text \<open>
  \<^verbatim>\<open>pd.concat([a, b], axis=1)\<close> for frames numbered from 0: the columns of \<open>a\<close>, then
  those of \<open>b\<close>, and the shorter columns filled with \<^verbatim>\<open>NaN\<close>.
\<close>

definition nrows :: "frame \<Rightarrow> nat" where
  "nrows df = fold (\<lambda>(c, vs) n. max (length vs) n) df 0"

definition pad_column :: "nat \<Rightarrow> py_str \<times> pyval list \<Rightarrow> py_str \<times> pyval list" where
  "pad_column n cv = (fst cv, snd cv @ replicate (n - length (snd cv)) PNaN)"

definition concat_axis1 :: "frame \<Rightarrow> frame \<Rightarrow> frame" where
  "concat_axis1 a b = map (pad_column (max (nrows a) (nrows b))) (a @ b)"

subsection \<open>Belebele\<close>

definition subsets :: "py_str list" where
  "subsets = [str ''eng_Latn'', str ''fra_Latn'', str ''deu_Latn'', str ''arb_Arab'', str ''zho_Hans'']"

text \<open>\<^verbatim>\<open>subset.split('_')[0]\<close>.\<close>

definition subset_prefix :: "py_str \<Rightarrow> py_str" where
  "subset_prefix sub = (case split_on 95 sub of [] \<Rightarrow> [] | p # _ \<Rightarrow> p)"

text \<open>
  The four statements that both branches of the loop share: copy the two text columns
  under the prefixed names, then drop the originals.
\<close>

definition prefix_columns :: "py_str \<Rightarrow> frame \<Rightarrow> error + frame" where
  "prefix_columns sub df =
     (case frame_get (str ''flores_passage'') df of
        Inl e \<Rightarrow> Inl e
      | Inr passages \<Rightarrow>
          (let df = frame_set (subset_prefix sub @ str ''_flores_passage'') passages df
           in case frame_get (str ''question'') df of
                Inl e \<Rightarrow> Inl e
              | Inr questions \<Rightarrow>
                  (let df = frame_set (subset_prefix sub @ str ''_question'') questions df
                   in drop_columns [str ''flores_passage'', str ''question''] df)))"

definition belebele_piece :: "(pyval list \<Rightarrow> nat list) \<Rightarrow> py_str \<Rightarrow> frame \<Rightarrow> error + frame" where
  "belebele_piece argsort sub test =
     (case sort_values argsort (str ''link'') test of
        Inl e \<Rightarrow> Inl e
      | Inr ordered \<Rightarrow>
          (if sub = str ''eng_Latn'' then
             (case select_columns
                     [str ''flores_passage'', str ''question'', str ''mc_answer1'',
                      str ''mc_answer2'', str ''mc_answer3'', str ''mc_answer4'',
                      str ''correct_answer_num''] ordered of
                Inl e \<Rightarrow> Inl e
              | Inr df \<Rightarrow> prefix_columns sub df)
           else
             (case select_columns [str ''flores_passage'', str ''question''] ordered of
                Inl e \<Rightarrow> Inl e
              | Inr df \<Rightarrow> prefix_columns sub df)))"

fun belebele_loop ::
  "(pyval list \<Rightarrow> nat list) \<Rightarrow> (dataset \<times> py_str) list \<Rightarrow> frame \<Rightarrow> error + frame" where
  "belebele_loop argsort [] combined_df = Inr combined_df"
| "belebele_loop argsort ((dataset, sub) # rest) combined_df =
     (case split_get dataset (str ''test'') of
        Inl e \<Rightarrow> Inl e
      | Inr test \<Rightarrow>
          (case belebele_piece argsort sub test of
             Inl e \<Rightarrow> Inl e
           | Inr df \<Rightarrow> belebele_loop argsort rest (concat_axis1 combined_df df)))"

text \<open>
  The Belebele part of the script: every sub is loaded first, by \<open>load_dataset\<close>, the
  hub behind \<^verbatim>\<open>load_dataset("facebook/belebele", subset)\<close>; the result is the frame
  written to \<^verbatim>\<open>belebele.csv\<close>.
\<close>

definition prepare_belebele ::
  "(py_str \<Rightarrow> error + dataset) \<Rightarrow> (pyval list \<Rightarrow> nat list) \<Rightarrow> error + frame" where
  "prepare_belebele load_dataset argsort =
     (case collect (map (\<lambda>sub. case load_dataset sub of
                                     Inl e \<Rightarrow> Inl e
                                   | Inr d \<Rightarrow> Inr (d, sub))
                      (filter (\<lambda>sub. sub \<noteq> str ''All'') subsets)) of
        Inl e \<Rightarrow> Inl e
      | Inr datasets \<Rightarrow> belebele_loop argsort datasets [])"

subsection \<open>XNLI\<close>

text \<open>
  \<^verbatim>\<open>ast.literal_eval\<close> is a parameter \<open>literal_eval\<close>. The first step turns a field that
  is a string into the value it denotes and leaves any other field as it is.
\<close>

definition parse_field :: "(py_str \<Rightarrow> error + pyval) \<Rightarrow> pyval \<Rightarrow> error + pyval" where
  "parse_field literal_eval x = (case x of PStr s \<Rightarrow> literal_eval s | _ \<Rightarrow> Inr x)"

text \<open>
  Iterating a value (\<^verbatim>\<open>zip\<close> does it to both arguments), and \<^verbatim>\<open>dict(pairs)\<close>: a later
  item replaces the value of an equal key, a key that cannot be hashed raises
  \<^verbatim>\<open>TypeError\<close>.
\<close>

fun py_iter :: "pyval \<Rightarrow> error + pyval list" where
  "py_iter (PList xs) = Inr xs"
| "py_iter (PStr s) = Inr (map (\<lambda>c. PStr [c]) s)"
| "py_iter (PDict kvs) = Inr (map fst kvs)"
| "py_iter PNone = Inl TypeError"
| "py_iter (PInt n) = Inl TypeError"
| "py_iter PNaN = Inl TypeError"

fun hashable :: "pyval \<Rightarrow> bool" where
  "hashable (PList xs) = False"
| "hashable (PDict kvs) = False"
| "hashable v = True"

fun dict_of :: "(pyval \<times> pyval) list \<Rightarrow> (pyval \<times> pyval) list \<Rightarrow> error + (pyval \<times> pyval) list" where
  "dict_of acc [] = Inr acc"
| "dict_of acc ((k, v) # kvs) =
     (if hashable k then dict_of (AList.update k v acc) kvs else Inl TypeError)"

definition process_translation :: "pyval \<Rightarrow> error + pyval" where
  "process_translation d =
     (case d of
        PDict kvs \<Rightarrow>
          (case (map_of kvs (PStr (str ''language'')), map_of kvs (PStr (str ''translation''))) of
             (Some languages, Some translations) \<Rightarrow>
               (case py_iter languages of
                  Inl e \<Rightarrow> Inl e
                | Inr ls \<Rightarrow>
                    (case py_iter translations of
                       Inl e \<Rightarrow> Inl e
                     | Inr ts \<Rightarrow>
                         (case dict_of [] (zip ls ts) of
                            Inl e \<Rightarrow> Inl e
                          | Inr kvs' \<Rightarrow> Inr (PDict kvs'))))
           | _ \<Rightarrow> Inr d)
      | _ \<Rightarrow> Inr d)"

text \<open>
  The function of the extraction loop:
  \<^verbatim>\<open>lambda d: d.get(lang, None) if isinstance(d, dict) else None\<close>.
\<close>

definition extract_translation :: "py_str \<Rightarrow> pyval \<Rightarrow> error + pyval" where
  "extract_translation lang d =
     (case d of
        PDict kvs \<Rightarrow> (case map_of kvs (PStr lang) of None \<Rightarrow> Inr PNone | Some v \<Rightarrow> Inr v)
      | _ \<Rightarrow> Inr PNone)"

text \<open>
  In the words of the specification: the translation stored under the key \<open>lang\<close> when
  the field is a dictionary, and \<^verbatim>\<open>None\<close> when it is not a dictionary or has no such key.
\<close>

definition translation_of :: "py_str \<Rightarrow> pyval \<Rightarrow> pyval" where
  "translation_of lang d =
     (case d of
        PDict kvs \<Rightarrow> (case map_of kvs (PStr lang) of None \<Rightarrow> PNone | Some v \<Rightarrow> v)
      | _ \<Rightarrow> PNone)"

definition language_map :: "(py_str \<times> py_str) list" where
  "language_map =
     [(str ''en'', str ''eng''), (str ''fr'', str ''fra''), (str ''de'', str ''deu''),
      (str ''ar'', str ''arb''), (str ''zh'', str ''zho'')]"

text \<open>\<^verbatim>\<open>df[c] = df[c].apply(f)\<close> and \<^verbatim>\<open>df[new] = df[c].apply(f)\<close>.\<close>

definition apply_column :: "py_str \<Rightarrow> py_str \<Rightarrow> (pyval \<Rightarrow> error + pyval) \<Rightarrow> frame \<Rightarrow> error + frame" where
  "apply_column new c f df =
     (case frame_get c df of
        Inl e \<Rightarrow> Inl e
      | Inr vs \<Rightarrow> (case collect (map f vs) of
                    Inl e \<Rightarrow> Inl e
                  | Inr ws \<Rightarrow> Inr (frame_set new ws df)))"

fun extract_loop :: "(py_str \<times> py_str) list \<Rightarrow> frame \<Rightarrow> error + frame" where
  "extract_loop [] xnli = Inr xnli"
| "extract_loop ((lang, prefix) # rest) xnli =
     (case apply_column (prefix @ str ''_premise'') (str ''premise'')
             (extract_translation lang) xnli of
        Inl e \<Rightarrow> Inl e
      | Inr xnli \<Rightarrow>
          (case apply_column (prefix @ str ''_hypothesis'') (str ''hypothesis'')
                  (extract_translation lang) xnli of
             Inl e \<Rightarrow> Inl e
           | Inr xnli \<Rightarrow> extract_loop rest xnli))"

text \<open>The XNLI part of the script, from the loaded test split to the frame that is written.\<close>

definition prepare_xnli :: "(py_str \<Rightarrow> error + pyval) \<Rightarrow> frame \<Rightarrow> error + frame" where
  "prepare_xnli literal_eval xnli =
     (case apply_column (str ''premise'') (str ''premise'') (parse_field literal_eval) xnli of
        Inl e \<Rightarrow> Inl e
      | Inr xnli \<Rightarrow>
     (case apply_column (str ''hypothesis'') (str ''hypothesis'') (parse_field literal_eval) xnli of
        Inl e \<Rightarrow> Inl e
      | Inr xnli \<Rightarrow>
     (case apply_column (str ''hypothesis'') (str ''hypothesis'') process_translation xnli of
        Inl e \<Rightarrow> Inl e
      | Inr xnli \<Rightarrow> extract_loop language_map xnli)))"

section \<open>Example runs\<close>

text \<open>
  A one-row input with an English and a French column, and a world in which the file
  system holds that input, the service answers every request with \<^verbatim>\<open>" ok "\<close>, the
  generator draws the first positions, and paths are joined with a slash.
\<close>

definition ex_frame :: dataframe where
  "ex_frame =
     \<lparr>columns = [str ''en'', str ''fr''],
      rows = [[(str ''en'', Str (str ''good morning'')), (str ''fr'', Str (str ''bonjour''))]]\<rparr>"

definition ex_env :: env where
  "ex_env =
     \<lparr>read_csv = (\<lambda>p. Inr ex_frame),
      to_csv = (\<lambda>p d. None),
      claude = (\<lambda>k q. Inr (str '' ok '')),
      rng = (\<lambda>j n k. [0..<k]),
      path_join = (\<lambda>a b. a @ [47] @ b),
      path_stem = (\<lambda>p. p)\<rparr>"

definition ex_args :: args where
  "ex_args =
     \<lparr>input_csv = str ''in'', source_column = str ''en'', csw_column_name = str ''mix'',
      output_dir = str ''out'', sample_size = None,
      target_column = str ''fr'', target_language = str ''French''\<rparr>"

definition ex_multi_args :: multi_args where
  "ex_multi_args =
     \<lparr>input_csv = str ''in'', source_column = str ''en'', csw_column_name = str ''mix'',
      output_dir = str ''out'', sample_size = None,
      target_columns = str ''fr'', target_languages = str ''French''\<rparr>"

text \<open>The same input with a column of masked texts already in it.\<close>

definition ex_frame_masked :: dataframe where
  "ex_frame_masked =
     \<lparr>columns = [str ''en'', str ''fr'', str ''placeholder_text''],
      rows = [[(str ''en'', Str (str ''good morning'')), (str ''fr'', Str (str ''bonjour'')),
               (str ''placeholder_text'', Str (str ''good #######''))]]\<rparr>"

definition ex_env_masked :: env where
  "ex_env_masked = ex_env\<lparr>read_csv := (\<lambda>p. Inr ex_frame_masked)\<rparr>"

text \<open>A world in which the service raises on the second request.\<close>

definition ex_env_failing :: env where
  "ex_env_failing =
     ex_env\<lparr>claude := (\<lambda>k q. if k = 1 then Inl (ServiceError (str ''overloaded''))
                            else Inr (str '' ok ''))\<rparr>"

text \<open>
  An input file that has the header but no row, read in a world whose service answers,
  and in one whose service raises on every request.
\<close>

definition ex_frame_empty :: dataframe where
  "ex_frame_empty = \<lparr>columns = [str ''en'', str ''fr''], rows = []\<rparr>"

definition ex_env_empty :: env where
  "ex_env_empty = ex_env\<lparr>read_csv := (\<lambda>p. Inr ex_frame_empty)\<rparr>"

definition ex_env_empty_failing :: env where
  "ex_env_empty_failing =
     ex_env\<lparr>read_csv := (\<lambda>p. Inr ex_frame_empty),
            claude := (\<lambda>k q. Inl (ServiceError (str ''overloaded'')))\<rparr>"

text \<open>A three-row input whose first two rows have the same English text.\<close>

definition ex_frame2 :: dataframe where
  "ex_frame2 =
     \<lparr>columns = [str ''en'', str ''fr''],
      rows = [[(str ''en'', Str (str ''a'')), (str ''fr'', Str (str ''x''))],
              [(str ''en'', Str (str ''a'')), (str ''fr'', Str (str ''y''))],
              [(str ''en'', Str (str ''b'')), (str ''fr'', Str (str ''z''))]]\<rparr>"

text \<open>
  Two XNLI rows: in the first the premise is a dictionary by language and the hypothesis
  has the two keys \<^verbatim>\<open>language\<close> and \<^verbatim>\<open>translation\<close>; in the second the premise is a string
  that denotes a number and the hypothesis is missing.
\<close>

definition ex_xnli :: frame where
  "ex_xnli =
     [(str ''premise'',
       [PDict [(PStr (str ''en''), PStr (str ''a'')), (PStr (str ''fr''), PStr (str ''b''))],
        PStr (str ''3'')]),
      (str ''hypothesis'',
       [PDict [(PStr (str ''language''), PList [PStr (str ''en''), PStr (str ''fr'')]),
               (PStr (str ''translation''), PList [PStr (str ''h''), PStr (str ''i'')])],
        PNone])]"

definition ex_literal_eval :: "py_str \<Rightarrow> error + pyval" where
  "ex_literal_eval s = Inr (PInt 3)"

section \<open>Properties of the string functions\<close>




lemma split_from_spaces:
  "\<forall>c\<in>set s. isspace c \<Longrightarrow> split_from [] s = []"
  by (induction s) simp_all

lemma split_from_nonempty:
  "cur \<noteq> [] \<Longrightarrow> split_from cur s \<noteq> []"
  by (induction s arbitrary: cur) simp_all

lemma split_from_some_word:
  "\<exists>c\<in>set s. \<not> isspace c \<Longrightarrow> split_from [] s \<noteq> []"
  by (induction s) (auto simp: split_from_nonempty)

lemma assign_placeholders_ok:
  "\<forall>i\<in>set is. i < length ws \<Longrightarrow>
   \<exists>ws'. assign_placeholders ws is = Inr ws' \<and> length ws' = length ws \<and>
     (\<forall>i<length ws. ws' ! i = (if i \<in> set is then placeholder else ws ! i))"
proof (induction "is" arbitrary: ws)
  case Nil
  show ?case by simp
next
  case (Cons j js)
  let ?ws = "ws[j := placeholder]"
  from Cons.prems have j: "j < length ws" and js: "\<forall>i\<in>set js. i < length ?ws" by simp_all
  from Cons.IH [OF js] obtain ws' where
    r: "assign_placeholders ?ws js = Inr ws'" and l: "length ws' = length ?ws"
    and v: "\<forall>i<length ?ws. ws' ! i = (if i \<in> set js then placeholder else ?ws ! i)"
    by blast
  have "\<forall>i<length ws. ws' ! i = (if i \<in> set (j # js) then placeholder else ws ! i)"
    using v by (auto simp: nth_list_update)
  with r l j show ?case by simp
qed


section \<open>The random placeholder function\<close>



text \<open>
  Claim C8. On empty or whitespace-only text the word list is empty, the requested
  sample count is 1, and \<open>insert_placeholders_random\<close> raises \<^verbatim>\<open>ValueError\<close>; on text with
  at least one word it raises nothing.
\<close>

theorem insert_placeholders_random_total_on_words:
  "((\<forall>c\<in>set txt. isspace c) \<longrightarrow>
      split txt = [] \<and> max 1 (length (split txt) div 5) = 1 \<and>
      insert_placeholders_random draw txt = Inl ValueError) \<and>
   ((\<exists>c\<in>set txt. \<not> isspace c) \<and>
    sample_contract (length (split txt)) (max 1 (length (split txt) div 5))
      (draw (length (split txt)) (max 1 (length (split txt) div 5))) \<longrightarrow>
      (\<exists>out. insert_placeholders_random draw txt = Inr out))"
proof (intro conjI impI)
  assume sp: "\<forall>c\<in>set txt. isspace c"
  then show e: "split txt = []" by (simp add: split_def split_from_spaces)
  then show "max 1 (length (split txt) div 5) = 1" by simp
  from e show "insert_placeholders_random draw txt = Inl ValueError"
    by (simp add: insert_placeholders_random_def random_sample_def)
next
  let ?ws = "split txt"
  let ?n = "length ?ws" and ?k = "max 1 (length ?ws div 5)"
  assume a: "(\<exists>c\<in>set txt. \<not> isspace c) \<and> sample_contract ?n ?k (draw ?n ?k)"
  then have "?ws \<noteq> []" by (simp add: split_def split_from_some_word)
  then have "1 \<le> ?n" by (cases ?ws) simp_all
  then have k: "\<not> ?n < ?k" by arith
  from a have "\<forall>i\<in>set (draw ?n ?k). i < ?n"
    by (simp add: sample_contract_def list_all_iff)
  from assign_placeholders_ok [OF this] obtain ws' where
    "assign_placeholders ?ws (draw ?n ?k) = Inr ws'" by blast
  with k show "\<exists>out. insert_placeholders_random draw txt = Inr out"
    by (simp add: insert_placeholders_random_def random_sample_def Let_def)
qed

theorem insert_placeholders_random_total_on_words_witness:
  "insert_placeholders_random (\<lambda>n k. [0]) [32, 9, 10] = Inl ValueError \<and>
   (\<exists>out. insert_placeholders_random (\<lambda>n k. [0]) (str ''a b'') = Inr out)"
proof -
  have h1: "\<forall>c\<in>set [32, 9, 10::nat]. isspace c" by (simp add: isspace_def)
  have s: "split (str ''a b'') = [str ''a'', str ''b'']"
    by (simp add: split_def str_def isspace_def)
  have h2: "(\<exists>c\<in>set (str ''a b''). \<not> isspace c) \<and>
     sample_contract (length (split (str ''a b''))) (max 1 (length (split (str ''a b'')) div 5))
       ((\<lambda>n k. [0]) (length (split (str ''a b''))) (max 1 (length (split (str ''a b'')) div 5)))"
    unfolding s by (simp add: sample_contract_def str_def isspace_def)
  from insert_placeholders_random_total_on_words [of "[32, 9, 10]" "\<lambda>n k. [0]"] h1
  have "insert_placeholders_random (\<lambda>n k. [0]) [32, 9, 10] = Inl ValueError" by blast
  moreover from insert_placeholders_random_total_on_words [of "str ''a b''" "\<lambda>n k. [0]"] h2
  have "\<exists>out. insert_placeholders_random (\<lambda>n k. [0]) (str ''a b'') = Inr out" by blast
  ultimately show ?thesis by blast
qed

section \<open>Computations\<close>

lemma io_bind_return: "io_bind (io_return x) f = f x"
  by (rule ext) (simp add: io_bind_def io_return_def)

lemma io_bind_assoc: "io_bind (io_bind m f) g = io_bind m (\<lambda>x. io_bind (f x) g)"
  by (rule ext) (simp add: io_bind_def split: prod.splits sum.splits)

lemma io_bind_if: "io_bind (if c then a else b) g = (if c then io_bind a g else io_bind b g)"
  by simp

lemma io_bind_Inr:
  "io_bind m f t = (Inr y, t') \<longleftrightarrow> (\<exists>x t1. m t = (Inr x, t1) \<and> f x t1 = (Inr y, t'))"
  by (auto simp: io_bind_def split: prod.splits sum.splits)

lemma io_bind_cases:
  assumes "io_bind m f t = (r, t')"
  obtains (failed) e where "m t = (Inl e, t')" "r = Inl e"
        | (continued) x t1 where "m t = (Inr x, t1)" "f x t1 = (r, t')"
  using assms by (auto simp: io_bind_def split: prod.splits sum.splits)

lemma requests_append: "requests (t @ u) = requests t @ requests u"
  by (induction t rule: requests.induct) simp_all

lemma samples_append: "samples (t @ u) = samples t @ samples u"
  by (induction t rule: samples.induct) simp_all

lemma written_append: "written (t @ u) = written t @ written u"
  by (induction t rule: written.induct) simp_all

lemma requests_Invoke: "requests (map Invoke ps) = ps"
  by (induction ps) simp_all

lemma written_Invoke: "written (map Invoke ps) = []"
  by (induction ps) simp_all

lemma samples_Invoke: "samples (map Invoke ps) = []"
  by (induction ps) simp_all

lemma requests_Sample: "requests (map Sample ps) = []"
  by (induction ps) simp_all

lemma written_Sample: "written (map Sample ps) = []"
  by (induction ps) simp_all

lemma samples_Sample: "samples (map Sample ps) = ps"
  by (induction ps) simp_all

section \<open>The loop over the elements\<close>

lemma collect_length: "collect xs = Inr vs \<Longrightarrow> length vs = length xs"
  by (induction xs arbitrary: vs) (auto split: sum.splits)

lemma collect_nth: "collect xs = Inr vs \<Longrightarrow> i < length xs \<Longrightarrow> xs ! i = Inr (vs ! i)"
proof (induction xs arbitrary: vs i)
  case Nil
  then show ?case by simp
next
  case (Cons x xs)
  then show ?case by (cases i) (auto split: sum.splits)
qed

lemma apply_io_length: "apply_io f xs t = (Inr ys, t') \<Longrightarrow> length ys = length xs"
  by (induction xs arbitrary: ys t t') (auto split: prod.splits sum.splits)

lemma apply_io_events:
  assumes ev: "\<And>x t y t'. f x t = (Inr y, t') \<Longrightarrow> t' = t @ ev x"
  shows "apply_io f xs t = (Inr ys, t') \<Longrightarrow> t' = t @ concat (map ev xs)"
proof (induction xs arbitrary: ys t t')
  case Nil
  then show ?case by simp
next
  case (Cons x xs)
  from Cons.prems obtain y t1 ys' where
    1: "f x t = (Inr y, t1)" and 2: "apply_io f xs t1 = (Inr ys', t')"
    by (auto split: prod.splits sum.splits)
  from ev [OF 1] Cons.IH [OF 2] show ?case by simp
qed

section \<open>Requests and their answers\<close>

lemma ask_result:
  "ask E q t = (r, t') \<Longrightarrow>
   t' = t @ [Invoke q] \<and>
   (case claude E (length (requests t)) q of Inl e \<Rightarrow> r = Inl e | Inr s \<Rightarrow> r = Inr (strip s))"
  by (auto simp: ask_def io_bind_def invoke_claude_def io_return_def split: sum.splits)

lemma fill_stage_request:
  assumes "fill_stage E mid cols prompt row t = (Inr y, t')"
  shows "\<exists>q. fill_request mid cols prompt row = Some q \<and> t' = t @ [Invoke q]"
  using assms
  by (auto simp: fill_stage_def fill_request_def io_bind_def io_lift_def
      dest!: ask_result split: sum.splits prod.splits)

lemma apply_fill_stage:
  "apply_io (fill_stage E mid cols prompt) rs t = (Inr ys, t') \<Longrightarrow>
   \<exists>qs. map (fill_request mid cols prompt) rs = map Some qs \<and> t' = t @ map Invoke qs"
proof (induction rs arbitrary: ys t t')
  case Nil
  then show ?case by simp
next
  case (Cons r rs)
  from Cons.prems obtain y t1 ys' where
    1: "fill_stage E mid cols prompt r t = (Inr y, t1)"
    and 2: "apply_io (fill_stage E mid cols prompt) rs t1 = (Inr ys', t')"
    by (auto split: prod.splits sum.splits)
  from fill_stage_request [OF 1] obtain q where
    q: "fill_request mid cols prompt r = Some q" "t1 = t @ [Invoke q]" by blast
  from Cons.IH [OF 2] obtain qs where
    qs: "map (fill_request mid cols prompt) rs = map Some qs" "t' = t1 @ map Invoke qs" by blast
  show ?case
    by (rule exI [of _ "q # qs"]) (simp add: q qs)
qed

section \<open>Every script is an instance of the two-stage pipeline\<close>

lemma if_not_swap: "(if \<not> c then a else b) = (if c then b else a)"
  by simp

lemma pair_lookup:
  "io_bind (io_lift (collect [x])) (\<lambda>ts. g (hd ts)) = io_bind (io_lift x) g"
  by (rule ext) (cases x; simp add: io_bind_def io_lift_def)

lemma get_switching_points_lin_mask:
  "get_switching_points_lin E = mask_stage E prompt_get_switching_points_lin"
  by (rule ext) (simp add: get_switching_points_lin_def mask_stage_def ask_def)

lemma mask_target_points_mask:
  "(\<lambda>txt. mask_target_points E txt lang) = mask_stage E (\<lambda>txt. prompt_mask_target_points txt lang)"
  by (rule ext) (simp add: mask_target_points_def mask_stage_def ask_def)

lemma get_switching_points_multi_mask:
  "get_switching_points_multi E = mask_stage E prompt_get_switching_points_multi"
  by (rule ext) (simp add: get_switching_points_multi_def mask_stage_def ask_def)

lemma fill_lin:
  "(\<lambda>row. io_bind (io_lift (row_get row c1)) (\<lambda>p.
           io_bind (io_lift (row_get row c2)) (\<lambda>t. code_switch_text_lin E p t lang)))
   = fill_stage E c1 [c2] (\<lambda>p ts. prompt_code_switch_text_lin p (format_cell (hd ts)) lang)"
  by (intro ext)
     (simp add: fill_stage_def code_switch_text_lin_def ask_def io_bind_def io_lift_def split: sum.splits)

lemma fill_rev:
  "(\<lambda>row. io_bind (io_lift (row_get row c1)) (\<lambda>p.
           io_bind (io_lift (row_get row c2)) (\<lambda>t. insert_english_words E p t lang)))
   = fill_stage E c1 [c2] (\<lambda>p ts. prompt_insert_english_words p (format_cell (hd ts)) lang)"
  by (intro ext)
     (simp add: fill_stage_def insert_english_words_def ask_def io_bind_def io_lift_def split: sum.splits)

lemma fill_rnd:
  "(\<lambda>row. io_bind (io_lift (row_get row c1)) (\<lambda>p.
           io_bind (io_lift (row_get row c2)) (\<lambda>t. code_switch_text_rnd E p t lang)))
   = fill_stage E c1 [c2] (\<lambda>p ts. prompt_code_switch_text_rnd p (format_cell (hd ts)) lang)"
  by (intro ext)
     (simp add: fill_stage_def code_switch_text_rnd_def ask_def io_bind_def io_lift_def split: sum.splits)

lemma fill_multi:
  "(\<lambda>row. io_bind (io_lift (row_get row c1)) (\<lambda>p.
           io_bind (io_lift (collect (map (\<lambda>col. row_get row col) cols))) (\<lambda>ts.
           code_switch_multi E p ts langs)))
   = fill_stage E c1 cols (\<lambda>p ts. prompt_code_switch_multi p (parallel_section langs ts))"
  by (rule ext)
     (simp add: fill_stage_def code_switch_multi_def ask_def parallel_section_def Let_def)

lemma main_lin_shape:
  "main_lin E A =
   mask_then_fill E (input_csv A) (sample_unique (source_column A) (sample_size A)) False
     (source_column A) (mask_stage E prompt_get_switching_points_lin) col_placeholder_text
     (fill_stage E col_placeholder_text [target_column A]
        (\<lambda>p ts. prompt_code_switch_text_lin p (format_cell (hd ts)) (target_language A)))
     (csw_column_name A)
     (path_join E (output_dir A)
        (path_stem E (input_csv A) @ str ''_with_'' @ csw_column_name A @ str ''.csv''))"
  by (simp add: main_lin_def mask_then_fill_def stages_def mask_rows_def fill_rows_def
      io_bind_assoc io_bind_return
      get_switching_points_lin_mask fill_lin)

lemma main_rev_shape:
  "main_rev E A =
   mask_then_fill E (input_csv A) (sample_unique (target_column A) (sample_size A)) False
     (target_column A) (mask_stage E (\<lambda>txt. prompt_mask_target_points txt (target_language A)))
     col_masked_target
     (fill_stage E col_masked_target [source_column A]
        (\<lambda>p ts. prompt_insert_english_words p (format_cell (hd ts)) (target_language A)))
     (csw_column_name A)
     (path_join E (output_dir A)
        (path_stem E (input_csv A) @ str ''_reverse_'' @ csw_column_name A @ str ''.csv''))"
  by (simp add: main_rev_def mask_then_fill_def stages_def mask_rows_def fill_rows_def
      io_bind_assoc io_bind_return
      mask_target_points_mask fill_rev)

lemma main_rnd_shape:
  "main_rnd E A =
   mask_then_fill E (input_csv A) (sample_first (sample_size A)) False
     (source_column A) (insert_placeholders_random_io E) col_placeholder_text
     (fill_stage E col_placeholder_text [target_column A]
        (\<lambda>p ts. prompt_code_switch_text_rnd p (format_cell (hd ts)) (target_language A)))
     (csw_column_name A)
     (path_join E (output_dir A)
        (path_stem E (input_csv A) @ str ''_rnd_'' @ csw_column_name A @ str ''.csv''))"
  by (simp add: main_rnd_def mask_then_fill_def stages_def mask_rows_def fill_rows_def
      io_bind_assoc io_bind_return fill_rnd)

lemma main_multi_shape:
  "main_multi E A =
   (if length (map strip (split_on 44 (target_columns A)))
        \<noteq> length (map strip (split_on 44 (target_languages A)))
    then io_raise ValueError
    else mask_then_fill E (input_csv A) (sample_unique (source_column A) (sample_size A)) True
     (source_column A) (mask_stage E prompt_get_switching_points_multi) col_placeholder_text
     (fill_stage E col_placeholder_text (map strip (split_on 44 (target_columns A)))
        (\<lambda>p ts. prompt_code_switch_multi p
                   (parallel_section (map strip (split_on 44 (target_languages A))) ts)))
     (csw_column_name A)
     (path_join E (output_dir A)
        (path_stem E (input_csv A) @ str ''_with_'' @ csw_column_name A @ str ''.csv'')))"
  unfolding main_multi_def Let_def mask_then_fill_def stages_def mask_rows_def fill_rows_def
  by (simp only: io_bind_assoc io_bind_return get_switching_points_multi_mask fill_multi
      if_not_swap simp_thms)

section \<open>All outcomes of the loops\<close>

lemma fill_stage_run:
  assumes "fill_stage E mid cols prompt row t = (r, t')"
  shows "(fill_request mid cols prompt row = None \<and> t' = t \<and> (\<exists>e. r = Inl e)) \<or>
         (\<exists>q. fill_request mid cols prompt row = Some q \<and> t' = t @ [Invoke q] \<and>
              r = (case claude E (length (requests t)) q of
                     Inl e \<Rightarrow> Inl e | Inr s \<Rightarrow> Inr (strip s)))"
  using assms
  by (auto simp: fill_stage_def fill_request_def io_bind_def io_lift_def
      dest!: ask_result split: sum.splits prod.splits)

lemma apply_fill_stage_run:
  "apply_io (fill_stage E mid cols prompt) rs t = (r, t') \<Longrightarrow>
   \<exists>fills. length fills \<le> length rs \<and>
      map (fill_request mid cols prompt) (take (length fills) rs) = map Some fills \<and>
      t' = t @ map Invoke fills \<and>
      (\<forall>ys. r = Inr ys \<longrightarrow> length fills = length rs \<and> length ys = length rs)"
proof (induction rs arbitrary: r t t')
  case Nil
  then show ?case by auto
next
  case (Cons x xs)
  obtain r1 t1 where 1: "fill_stage E mid cols prompt x t = (r1, t1)" by fastforce
  from fill_stage_run [OF 1] show ?case
  proof
    assume "fill_request mid cols prompt x = None \<and> t1 = t \<and> (\<exists>e. r1 = Inl e)"
    with 1 Cons.prems have "t' = t" "\<exists>e. r = Inl e" by auto
    then show ?thesis by (intro exI [of _ "[]"]) auto
  next
    assume "\<exists>q. fill_request mid cols prompt x = Some q \<and> t1 = t @ [Invoke q] \<and>
              r1 = (case claude E (length (requests t)) q of
                     Inl e \<Rightarrow> Inl e | Inr s \<Rightarrow> Inr (strip s))"
    then obtain q where q: "fill_request mid cols prompt x = Some q" "t1 = t @ [Invoke q]" by blast
    show ?thesis
    proof (cases r1)
      case (Inl e)
      with 1 Cons.prems have "t' = t1" "r = Inl e" by auto
      with q show ?thesis by (intro exI [of _ "[q]"]) auto
    next
      case (Inr y)
      obtain r2 t2 where 2: "apply_io (fill_stage E mid cols prompt) xs t1 = (r2, t2)" by fastforce
      from Cons.IH [OF 2] obtain fills where
        f: "length fills \<le> length xs"
           "map (fill_request mid cols prompt) (take (length fills) xs) = map Some fills"
           "t2 = t1 @ map Invoke fills"
           "\<forall>ys. r2 = Inr ys \<longrightarrow> length fills = length xs \<and> length ys = length xs"
        by blast
      from 1 2 Inr Cons.prems have t': "t' = t2"
        and r: "r = (case r2 of Inl e \<Rightarrow> Inl e | Inr ys \<Rightarrow> Inr (y # ys))"
        by (auto split: sum.splits)
      show ?thesis
        using q f t' r by (intro exI [of _ "q # fills"]) (auto split: sum.splits)
    qed
  qed
qed

lemma apply_io_events_run:
  assumes ev: "\<And>x t r t'. f x t = (r, t') \<Longrightarrow> t' = t @ ev x \<or> (t' = t \<and> (\<exists>e. r = Inl e))"
  shows "apply_io f xs t = (r, t') \<Longrightarrow>
     \<exists>k\<le>length xs. t' = t @ concat (map ev (take k xs)) \<and>
        (\<forall>ys. r = Inr ys \<longrightarrow> k = length xs \<and> length ys = length xs)"
proof (induction xs arbitrary: r t t')
  case Nil
  then show ?case by auto
next
  case (Cons x xs)
  obtain r1 t1 where 1: "f x t = (r1, t1)" by fastforce
  show ?case
  proof (cases r1)
    case (Inl e)
    with 1 Cons.prems have x: "t' = t1" "r = Inl e" by auto
    from ev [OF 1] show ?thesis
    proof
      assume "t1 = t @ ev x"
      with x show ?thesis by (intro exI [of _ "Suc 0"]) auto
    next
      assume "t1 = t \<and> (\<exists>e. r1 = Inl e)"
      with x show ?thesis by (intro exI [of _ 0]) auto
    qed
  next
    case (Inr y)
    with ev [OF 1] have t1: "t1 = t @ ev x" by auto
    obtain r2 t2 where 2: "apply_io f xs t1 = (r2, t2)" by fastforce
    from Cons.IH [OF 2] obtain k where
      k: "k \<le> length xs" "t2 = t1 @ concat (map ev (take k xs))"
         "\<forall>ys. r2 = Inr ys \<longrightarrow> k = length xs \<and> length ys = length xs"
      by blast
    from 1 2 Inr Cons.prems have t': "t' = t2"
      and r: "r = (case r2 of Inl e \<Rightarrow> Inl e | Inr ys \<Rightarrow> Inr (y # ys))"
      by (auto split: sum.splits)
    show ?thesis
      using k t1 t' r by (intro exI [of _ "Suc k"]) (auto split: sum.splits)
  qed
qed

section \<open>Exceptions of the service\<close>

lemma answered_Nil: "answered E []"
  by (simp add: answered_def)

lemma answered_append_silent: "requests u = [] \<Longrightarrow> answered E (t @ u) = answered E t"
  by (simp add: answered_def requests_append)

lemma failed_last_Inr: "\<not> failed_last E (Inr x) t"
  by (simp add: failed_last_def)

lemma failed_last_Inl:
  "failed_last E (Inl e) t \<longleftrightarrow>
     (\<exists>t0 p. t = t0 @ [Invoke p] \<and> answered E t0 \<and> claude E (length (requests t0)) p = Inl e)"
  by (auto simp: failed_last_def)

lemma sound_if: "sound E a \<Longrightarrow> sound E b \<Longrightarrow> sound E (if c then a else b)"
  by simp

lemma sound_return: "sound E (io_return x)"
  by (simp add: sound_def io_return_def)

lemma sound_raise: "sound E (io_raise e)"
  by (simp add: sound_def io_raise_def)

lemma sound_lift: "sound E (io_lift r)"
  by (simp add: sound_def io_lift_def)

lemma sound_read: "sound E (pd_read_csv E p)"
  by (simp add: sound_def pd_read_csv_def written_append answered_append_silent)

lemma sound_random: "sound E (insert_placeholders_random_io E x)"
  by (cases x)
     (simp_all add: sound_def insert_placeholders_random_io_def written_append
        answered_append_silent)

lemma sound_bind:
  assumes m: "sound E m" and f: "\<And>x. sound E (f x)"
  shows "sound E (io_bind (m :: 'a io) f)"
  unfolding sound_def
proof (intro allI impI, elim conjE)
  fix t r t'
  assume t: "answered E t" "written t = []" and run: "io_bind m f t = (r, t')"
  from run show "written t' = [] \<and> (answered E t' \<or> failed_last E r t')"
  proof (cases rule: io_bind_cases)
    case (failed e)
    with m t have "written t' = [] \<and> (answered E t' \<or> failed_last E (Inl e :: error + 'a) t')"
      unfolding sound_def by blast
    with failed show ?thesis by (simp add: failed_last_Inl)
  next
    case (continued x t1)
    with m t have "written t1 = []" "answered E t1 \<or> failed_last E (Inr x :: error + _) t1"
      unfolding sound_def by blast+
    then have "written t1 = []" "answered E t1" by (simp_all add: failed_last_Inr)
    with f [of x] continued show ?thesis unfolding sound_def by blast
  qed
qed

lemma sound_ask: "sound E (ask E q)"
  unfolding sound_def
proof (intro allI impI, elim conjE)
  fix t r t'
  assume t: "answered E t" "written t = []" and run: "ask E q t = (r, t')"
  from ask_result [OF run] have t': "t' = t @ [Invoke q]"
    and r: "case claude E (length (requests t)) q of Inl e \<Rightarrow> r = Inl e | Inr s \<Rightarrow> r = Inr (strip s)"
    by simp_all
  show "written t' = [] \<and> (answered E t' \<or> failed_last E r t')"
  proof (cases "claude E (length (requests t)) q")
    case (Inl e)
    with r t t' show ?thesis by (auto simp: failed_last_def written_append)
  next
    case (Inr s)
    have "answered E t'"
      unfolding answered_def
    proof (intro allI impI)
      fix i assume "i < length (requests t')"
      then have "i < length (requests t) \<or> i = length (requests t)"
        by (auto simp: t' requests_append)
      then show "\<exists>s. claude E i (requests t' ! i) = Inr s"
        using t(1) Inr by (auto simp: t' requests_append answered_def nth_append)
    qed
    with t t' show ?thesis by (simp add: written_append)
  qed
qed

lemma sound_mask_stage: "sound E (mask_stage E prompt x)"
  by (simp add: mask_stage_def sound_ask)

lemma sound_fill_stage: "sound E (fill_stage E mid cols prompt row)"
  unfolding fill_stage_def by (intro sound_bind sound_lift sound_ask)

lemma sound_apply:
  assumes f: "\<And>x. sound E (f x)"
  shows "sound E (apply_io f xs)"
proof (induction xs)
  case Nil
  show ?case by (simp add: sound_def)
next
  case (Cons x xs)
  have "apply_io f (x # xs) =
        io_bind (f x) (\<lambda>y. io_bind (apply_io f xs) (\<lambda>ys. io_return (y # ys)))"
    by (rule ext) (simp add: io_bind_def io_return_def split: prod.splits sum.splits)
  then show ?case
    using f Cons.IH by (simp add: sound_bind sound_return)
qed


lemma sound_mask_rows:
  assumes "\<And>x. sound E (stage1 x)"
  shows "sound E (mask_rows E input sampling reuse key stage1 mid)"
  unfolding mask_rows_def
  by (intro sound_bind sound_if sound_read sound_lift sound_return sound_apply assms)

lemma sound_fill_rows:
  assumes "rows df \<noteq> []"
  shows "sound E (fill_rows (fill_stage E mid cols prompt) csw df)"
  unfolding fill_rows_def apply_rows_def using assms
  by (simp add: sound_bind sound_apply sound_fill_stage sound_return sound_lift)

section \<open>The two halves of the pipeline\<close>

lemma mask_rows_run:
  assumes ev: "\<And>x t r t'. stage1 x t = (r, t') \<Longrightarrow> t' = t @ ev1 x \<or> (t' = t \<and> (\<exists>e. r = Inl e))"
    and run: "mask_rows E input sampling reuse key stage1 mid t0 = (r, t1)"
  shows "(\<exists>e. r = Inl e \<and> t1 = t0 @ [ReadCsv input] \<and>
            (read_csv E input = Inl e \<or>
             (\<exists>df0. read_csv E input = Inr df0 \<and>
                (sampling df0 = Inl e \<or>
                 (\<exists>df1. sampling df0 = Inr df1 \<and> \<not> (reuse \<and> mid \<in> set (columns df1)) \<and>
                    get_column key df1 = Inl e))))) \<or>
         (\<exists>df0 df1. read_csv E input = Inr df0 \<and> sampling df0 = Inr df1 \<and>
            reuse \<and> mid \<in> set (columns df1) \<and> r = Inr df1 \<and> t1 = t0 @ [ReadCsv input]) \<or>
         (\<exists>df0 df1 vals k. read_csv E input = Inr df0 \<and> sampling df0 = Inr df1 \<and>
            \<not> (reuse \<and> mid \<in> set (columns df1)) \<and> get_column key df1 = Inr vals \<and>
            k \<le> length vals \<and> t1 = t0 @ ReadCsv input # concat (map ev1 (take k vals)) \<and>
            ((\<exists>e. r = Inl e) \<or>
             (\<exists>masked. k = length vals \<and> length masked = length vals \<and>
                r = Inr (set_column mid (map Str masked) df1))))"
proof (cases "read_csv E input")
  case (Inl e)
  with run have "r = Inl e" "t1 = t0 @ [ReadCsv input]"
    by (simp_all add: mask_rows_def io_bind_def pd_read_csv_def)
  with Inl show ?thesis by simp
next
  case df0: (Inr df0)
  show ?thesis
  proof (cases "sampling df0")
    case (Inl e)
    with run df0 have "r = Inl e" "t1 = t0 @ [ReadCsv input]"
      by (simp_all add: mask_rows_def io_bind_def pd_read_csv_def io_lift_def)
    with Inl df0 show ?thesis by simp
  next
    case df1: (Inr df1)
    show ?thesis
    proof (cases "reuse \<and> mid \<in> set (columns df1)")
      case True
      with run df0 df1 have "r = Inr df1" "t1 = t0 @ [ReadCsv input]"
        by (simp_all add: mask_rows_def io_bind_def pd_read_csv_def io_lift_def io_return_def)
      with True df0 df1 show ?thesis by simp
    next
      case False
      show ?thesis
      proof (cases "get_column key df1")
        case (Inl e)
        with run df0 df1 False have "r = Inl e" "t1 = t0 @ [ReadCsv input]"
          by (auto simp: mask_rows_def io_bind_def pd_read_csv_def io_lift_def)
        with Inl df0 df1 False show ?thesis by simp
      next
        case (Inr vals)
        obtain r' t' where a: "apply_io stage1 vals (t0 @ [ReadCsv input]) = (r', t')"
          by fastforce
        from run df0 df1 False Inr a have t1: "t1 = t'"
          and r: "r = (case r' of Inl e \<Rightarrow> Inl e
                       | Inr masked \<Rightarrow> Inr (set_column mid (map Str masked) df1))"
          by (auto simp: mask_rows_def io_bind_def pd_read_csv_def io_lift_def io_return_def
              split: sum.splits)
        from apply_io_events_run [of stage1 ev1, OF ev a] obtain k where
          k: "k \<le> length vals" "t' = (t0 @ [ReadCsv input]) @ concat (map ev1 (take k vals))"
             "\<forall>ys. r' = Inr ys \<longrightarrow> k = length vals \<and> length ys = length vals"
          by blast
        have "(\<exists>e. r = Inl e) \<or>
             (\<exists>masked. k = length vals \<and> length masked = length vals \<and>
                r = Inr (set_column mid (map Str masked) df1))"
          using r k(3) by (cases r') auto
        with df0 df1 False Inr k t1 show ?thesis by auto
      qed
    qed
  qed
qed

lemma get_column_length: "get_column c df = Inr vs \<Longrightarrow> length vs = length (rows df)"
  by (auto simp: get_column_def split: if_splits dest: collect_length)

lemma rows_set_column:
  "length vs = length (rows df) \<Longrightarrow> length (rows (set_column c vs df)) = length (rows df)"
  by (simp add: set_column_def)

text \<open>What a frame that has gone through stage 1 looks like.\<close>

lemma mask_rows_frame:
  assumes run: "mask_rows E input sampling reuse key stage1 mid t0 = (Inr df2, t1)"
  shows "\<exists>df0 df1. read_csv E input = Inr df0 \<and> sampling df0 = Inr df1 \<and>
           length (rows df2) = length (rows df1) \<and>
           (if reuse \<and> mid \<in> set (columns df1) then df2 = df1
            else \<exists>vals masked. get_column key df1 = Inr vals \<and> length masked = length vals \<and>
                   df2 = set_column mid (map Str masked) df1)"
proof (cases "read_csv E input")
  case (Inl e)
  with run show ?thesis by (simp add: mask_rows_def io_bind_def pd_read_csv_def)
next
  case df0: (Inr df0)
  show ?thesis
  proof (cases "sampling df0")
    case (Inl e)
    with run df0 show ?thesis
      by (simp add: mask_rows_def io_bind_def pd_read_csv_def io_lift_def)
  next
    case df1: (Inr df1)
    show ?thesis
    proof (cases "reuse \<and> mid \<in> set (columns df1)")
      case True
      with run df0 df1 have "df2 = df1"
        by (simp add: mask_rows_def io_bind_def pd_read_csv_def io_lift_def io_return_def)
      with True df0 df1 show ?thesis by simp
    next
      case False
      show ?thesis
      proof (cases "get_column key df1")
        case (Inl e)
        with run df0 df1 False show ?thesis
          by (auto simp: mask_rows_def io_bind_def pd_read_csv_def io_lift_def)
      next
        case (Inr vals)
        obtain r' t' where a: "apply_io stage1 vals (t0 @ [ReadCsv input]) = (r', t')"
          by fastforce
        from run df0 df1 False Inr a obtain masked where
          m: "r' = Inr masked" "df2 = set_column mid (map Str masked) df1"
          by (auto simp: mask_rows_def io_bind_def pd_read_csv_def io_lift_def io_return_def
              split: sum.splits)
        from a m have l: "length masked = length vals" by (auto dest: apply_io_length)
        then have "length (rows df2) = length (rows df1)"
          using m get_column_length [OF Inr] by (simp add: rows_set_column)
        with df0 df1 False Inr l m show ?thesis by auto
      qed
    qed
  qed
qed

lemma get_column_empty:
  "rows df = [] \<Longrightarrow> c \<in> set (columns df) \<Longrightarrow> get_column c df = Inr []"
  by (simp add: get_column_def)

lemma assign_frame_empty:
  "rows df = [] \<Longrightarrow>
   assign csw (Frame df) df =
     (if length (columns df) = 1 then Inr (set_column csw [] df) else Inl ValueError)"
  by (cases "columns df") (simp_all add: assign_def get_column_def)

lemma fill_rows_nonempty:
  assumes ne: "rows df \<noteq> []"
    and run: "fill_rows (fill_stage E mid cols prompt) csw df t = (r, t')"
  shows "\<exists>fills. length fills \<le> length (rows df) \<and>
     map (fill_request mid cols prompt) (take (length fills) (rows df)) = map Some fills \<and>
     t' = t @ map Invoke fills \<and>
     ((\<exists>e. r = Inl e) \<or>
      (\<exists>mixed. length fills = length (rows df) \<and> length mixed = length (rows df) \<and>
         r = Inr (set_column csw (map Str mixed) df)))"
proof -
  obtain r1 t1 where a: "apply_io (fill_stage E mid cols prompt) (rows df) t = (r1, t1)"
    by fastforce
  from run ne a have t': "t' = t1"
    and r: "r = (case r1 of Inl e \<Rightarrow> Inl e | Inr ys \<Rightarrow> Inr (set_column csw (map Str ys) df))"
    by (auto simp: fill_rows_def apply_rows_def io_bind_def io_return_def io_lift_def assign_def
        split: sum.splits)
  from apply_fill_stage_run [OF a] obtain fills where
    f: "length fills \<le> length (rows df)"
       "map (fill_request mid cols prompt) (take (length fills) (rows df)) = map Some fills"
       "t1 = t @ map Invoke fills"
       "\<forall>ys. r1 = Inr ys \<longrightarrow> length fills = length (rows df) \<and> length ys = length (rows df)"
    by blast
  have "(\<exists>e. r = Inl e) \<or>
      (\<exists>mixed. length fills = length (rows df) \<and> length mixed = length (rows df) \<and>
         r = Inr (set_column csw (map Str mixed) df))"
    using r f(4) by (cases r1) auto
  with f t' show ?thesis by blast
qed

lemma fill_rows_empty:
  assumes em: "rows df = []"
    and run: "fill_rows (fill_stage E mid cols prompt) csw df t = (r, t')"
  shows "(fill_request mid cols prompt (nan_row df) = None \<and> t' = t \<and>
          r = (if length (columns df) = 1 then Inr (set_column csw [] df) else Inl ValueError)) \<or>
         (\<exists>q. fill_request mid cols prompt (nan_row df) = Some q \<and> t' = t @ [Invoke q] \<and>
            r = (case claude E (length (requests t)) q of
                   Inr s \<Rightarrow> Inr (set_column csw [] df)
                 | Inl e \<Rightarrow> if length (columns df) = 1 then Inr (set_column csw [] df)
                            else Inl ValueError))"
proof -
  obtain r1 t1 where a: "fill_stage E mid cols prompt (nan_row df) t = (r1, t1)" by fastforce
  from run em a have t': "t' = t1"
    and r: "r = (case r1 of Inl e \<Rightarrow> assign csw (Frame df) df
                 | Inr y \<Rightarrow> Inr (set_column csw [] df))"
    by (auto simp: fill_rows_def apply_rows_def io_bind_def io_lift_def assign_def
        split: sum.splits)
  from fill_stage_run [OF a] show ?thesis
  proof
    assume "fill_request mid cols prompt (nan_row df) = None \<and> t1 = t \<and> (\<exists>e. r1 = Inl e)"
    with r t' em show ?thesis by (auto simp: assign_frame_empty)
  next
    assume "\<exists>q. fill_request mid cols prompt (nan_row df) = Some q \<and> t1 = t @ [Invoke q] \<and>
              r1 = (case claude E (length (requests t)) q of
                     Inl e \<Rightarrow> Inl e | Inr s \<Rightarrow> Inr (strip s))"
    then obtain q where q: "fill_request mid cols prompt (nan_row df) = Some q"
      "t1 = t @ [Invoke q]"
      "r1 = (case claude E (length (requests t)) q of Inl e \<Rightarrow> Inl e | Inr s \<Rightarrow> Inr (strip s))"
      by blast
    have "r = (case claude E (length (requests t)) q of
                   Inr s \<Rightarrow> Inr (set_column csw [] df)
                 | Inl e \<Rightarrow> if length (columns df) = 1 then Inr (set_column csw [] df)
                            else Inl ValueError)"
      using r q(3) em by (auto simp: assign_frame_empty split: sum.splits)
    with q t' show ?thesis by blast
  qed
qed

text \<open>Both cases at once.\<close>

lemma fill_rows_run:
  assumes run: "fill_rows (fill_stage E mid cols prompt) csw df t = (r, t')"
  shows "\<exists>fills. length fills \<le> length (called_rows df) \<and>
     map (fill_request mid cols prompt) (take (length fills) (called_rows df)) = map Some fills \<and>
     t' = t @ map Invoke fills \<and>
     (\<forall>out. r = Inr out \<longrightarrow>
        (\<exists>mixed. length mixed = length (rows df) \<and> out = set_column csw (map Str mixed) df) \<and>
        (rows df \<noteq> [] \<longrightarrow> length fills = length (rows df)) \<and>
        (rows df = [] \<and> fills = [] \<longrightarrow>
           length (columns df) = 1 \<and> fill_request mid cols prompt (nan_row df) = None))"
proof (cases "rows df = []")
  case False
  from fill_rows_nonempty [OF False run] obtain fills where
    f: "length fills \<le> length (rows df)"
     "map (fill_request mid cols prompt) (take (length fills) (rows df)) = map Some fills"
     "t' = t @ map Invoke fills"
     "(\<exists>e. r = Inl e) \<or>
      (\<exists>mixed. length fills = length (rows df) \<and> length mixed = length (rows df) \<and>
         r = Inr (set_column csw (map Str mixed) df))"
    by blast
  show ?thesis
    using f False by (intro exI [of _ fills]) (auto simp: called_rows_def)
next
  case True
  from fill_rows_empty [OF True run] show ?thesis
  proof
    assume a: "fill_request mid cols prompt (nan_row df) = None \<and> t' = t \<and>
          r = (if length (columns df) = 1 then Inr (set_column csw [] df) else Inl ValueError)"
    show ?thesis
      using a True by (intro exI [of _ "[]"]) (auto simp: called_rows_def split: if_splits)
  next
    assume "\<exists>q. fill_request mid cols prompt (nan_row df) = Some q \<and> t' = t @ [Invoke q] \<and>
            r = (case claude E (length (requests t)) q of
                   Inr s \<Rightarrow> Inr (set_column csw [] df)
                 | Inl e \<Rightarrow> if length (columns df) = 1 then Inr (set_column csw [] df)
                            else Inl ValueError)"
    then obtain q where q: "fill_request mid cols prompt (nan_row df) = Some q"
      "t' = t @ [Invoke q]"
      "r = (case claude E (length (requests t)) q of
                   Inr s \<Rightarrow> Inr (set_column csw [] df)
                 | Inl e \<Rightarrow> if length (columns df) = 1 then Inr (set_column csw [] df)
                            else Inl ValueError)"
      by blast
    show ?thesis
      using q True
      by (intro exI [of _ "[q]"]) (auto simp: called_rows_def split: sum.splits if_splits)
  qed
qed

lemma mask_then_fill_cases:
  assumes run: "mask_then_fill E input sampling reuse key stage1 mid stage2 csw output t0 = (r, tr)"
  obtains (masking) e where
      "mask_rows E input sampling reuse key stage1 mid t0 = (Inl e, tr)" "r = Inl e"
    | (filling) df2 t1 e where
      "mask_rows E input sampling reuse key stage1 mid t0 = (Inr df2, t1)"
      "fill_rows stage2 csw df2 t1 = (Inl e, tr)" "r = Inl e"
    | (writing) df2 t1 out t2 where
      "mask_rows E input sampling reuse key stage1 mid t0 = (Inr df2, t1)"
      "fill_rows stage2 csw df2 t1 = (Inr out, t2)" "tr = t2 @ [ToCsv output out]"
      "r = (case to_csv E output out of None \<Rightarrow> Inr () | Some e \<Rightarrow> Inl e)"
  using assms
  by (auto simp: mask_then_fill_def stages_def io_bind_def pd_to_csv_def
      split: prod.splits sum.splits)

section \<open>Whole runs of the pipeline\<close>

lemma mask_rows_success:
  assumes ev: "\<And>x t r t'. stage1 x t = (r, t') \<Longrightarrow> t' = t @ ev1 x \<or> (t' = t \<and> (\<exists>e. r = Inl e))"
    and run: "mask_rows E input sampling reuse key stage1 mid t0 = (Inr df2, t1)"
  shows "\<exists>df0 df1 vals. read_csv E input = Inr df0 \<and> sampling df0 = Inr df1 \<and>
     (if reuse \<and> mid \<in> set (columns df1) then vals = [] \<and> df2 = df1
      else get_column key df1 = Inr vals \<and>
           (\<exists>masked. length masked = length vals \<and> df2 = set_column mid (map Str masked) df1)) \<and>
     length (rows df2) = length (rows df1) \<and>
     t1 = t0 @ ReadCsv input # concat (map ev1 vals)"
proof -
  from mask_rows_run [of stage1 ev1, OF ev run]
  consider
    (reused) df0 df1 where "read_csv E input = Inr df0" "sampling df0 = Inr df1"
      "reuse \<and> mid \<in> set (columns df1)" "df2 = df1" "t1 = t0 @ [ReadCsv input]"
  | (masked) df0 df1 vals masked where "read_csv E input = Inr df0" "sampling df0 = Inr df1"
      "\<not> (reuse \<and> mid \<in> set (columns df1))" "get_column key df1 = Inr vals"
      "t1 = t0 @ ReadCsv input # concat (map ev1 vals)"
      "length masked = length vals" "df2 = set_column mid (map Str masked) df1"
    by auto
  then show ?thesis
  proof cases
    case reused
    then show ?thesis
      by (intro exI [of _ df0] exI [of _ df1] exI [of _ "[]"]) simp
  next
    case masked
    have "length (rows df2) = length (rows df1)"
      using masked(6,7) get_column_length [OF masked(4)] by (simp add: rows_set_column)
    with masked show ?thesis
      by (intro exI [of _ df0] exI [of _ df1] exI [of _ vals]) auto
  qed
qed

lemma sound_from_start:
  assumes "sound E m" and "m [] = (r, t)"
  shows "written t = [] \<and> (answered E t \<or> failed_last E r t)"
  using assms answered_Nil [of E] unfolding sound_def by (metis written.simps(1))

text \<open>A run that reaches the output file has completed both stages.\<close>

lemma mask_then_fill_written:
  assumes s1: "\<And>x. sound E (stage1 x)"
    and ev: "\<And>x t r t'. stage1 x t = (r, t') \<Longrightarrow> t' = t @ ev1 x \<or> (t' = t \<and> (\<exists>e. r = Inl e))"
    and run: "mask_then_fill E input sampling reuse key stage1 mid
                (fill_stage E mid cols prompt) csw output [] = (r, tr)"
    and w: "written tr \<noteq> [] \<or> r = Inr ()"
  shows "\<exists>df0 df1 df2 vals fills mixed.
     read_csv E input = Inr df0 \<and> sampling df0 = Inr df1 \<and>
     (if reuse \<and> mid \<in> set (columns df1) then vals = [] \<and> df2 = df1
      else get_column key df1 = Inr vals \<and>
           (\<exists>masked. length masked = length vals \<and> df2 = set_column mid (map Str masked) df1)) \<and>
     length (rows df2) = length (rows df1) \<and>
     length fills \<le> length (called_rows df2) \<and>
     map (fill_request mid cols prompt) (take (length fills) (called_rows df2)) = map Some fills \<and>
     (rows df2 \<noteq> [] \<longrightarrow> length fills = length (rows df2)) \<and>
     (rows df2 = [] \<and> fills = [] \<longrightarrow>
        length (columns df2) = 1 \<and> fill_request mid cols prompt (nan_row df2) = None) \<and>
     length mixed = length (rows df2) \<and>
     tr = ReadCsv input # concat (map ev1 vals) @ map Invoke fills
            @ [ToCsv output (set_column csw (map Str mixed) df2)] \<and>
     r = (case to_csv E output (set_column csw (map Str mixed) df2) of
            None \<Rightarrow> Inr () | Some e \<Rightarrow> Inl e)"
proof -
  have sm: "sound E (mask_rows E input sampling reuse key stage1 mid)"
    using s1 by (rule sound_mask_rows)
  from run show ?thesis
  proof (cases rule: mask_then_fill_cases)
    case (masking e)
    from sound_from_start [OF sm masking(1)] masking(2) w show ?thesis by simp
  next
    case (filling df2 t1 e)
    from sound_from_start [OF sm filling(1)] have "written t1 = []" by simp
    moreover from fill_rows_run [OF filling(2)] obtain fills where "tr = t1 @ map Invoke fills"
      by blast
    ultimately have "written tr = []" by (simp add: written_append written_Invoke)
    with filling(3) w show ?thesis by simp
  next
    case (writing df2 t1 out t2)
    from mask_rows_success [of stage1 ev1, OF ev writing(1)] obtain df0 df1 vals where
      m: "read_csv E input = Inr df0" "sampling df0 = Inr df1"
         "if reuse \<and> mid \<in> set (columns df1) then vals = [] \<and> df2 = df1
          else get_column key df1 = Inr vals \<and>
           (\<exists>masked. length masked = length vals \<and> df2 = set_column mid (map Str masked) df1)"
         "length (rows df2) = length (rows df1)"
         "t1 = [] @ ReadCsv input # concat (map ev1 vals)"
      by blast
    from fill_rows_run [OF writing(2)] obtain fills mixed where
      f: "length fills \<le> length (called_rows df2)"
         "map (fill_request mid cols prompt) (take (length fills) (called_rows df2)) = map Some fills"
         "t2 = t1 @ map Invoke fills"
         "length mixed = length (rows df2)" "out = set_column csw (map Str mixed) df2"
         "rows df2 \<noteq> [] \<longrightarrow> length fills = length (rows df2)"
         "rows df2 = [] \<and> fills = [] \<longrightarrow>
           length (columns df2) = 1 \<and> fill_request mid cols prompt (nan_row df2) = None"
      by blast
    show ?thesis
      apply (rule exI [of _ df0], rule exI [of _ df1], rule exI [of _ df2])
      apply (rule exI [of _ vals], rule exI [of _ fills], rule exI [of _ mixed])
      using m f writing(3,4) by simp
  qed
qed

text \<open>With a row to work on, an exception of the service ends the run.\<close>

lemma mask_then_fill_exception:
  assumes s1: "\<And>x. sound E (stage1 x)"
    and run: "mask_then_fill E input sampling reuse key stage1 mid
                (fill_stage E mid cols prompt) csw output [] = (r, tr)"
    and df0: "read_csv E input = Inr df0" and df1: "sampling df0 = Inr df1"
    and ne: "rows df1 \<noteq> []"
    and i: "i < length (requests tr)" and e: "claude E i (requests tr ! i) = Inl e"
  shows "r = Inl e \<and> written tr = [] \<and> Suc i = length (requests tr) \<and>
         last tr = Invoke (requests tr ! i)"
proof -
  have na: "\<not> answered E tr" using i e by (auto simp: answered_def)
  have sm: "sound E (mask_rows E input sampling reuse key stage1 mid)"
    using s1 by (rule sound_mask_rows)
  have rows: "rows df2 \<noteq> []"
    if "mask_rows E input sampling reuse key stage1 mid [] = (Inr df2, t1)" for df2 t1
    using mask_rows_frame [OF that] df0 df1 ne by auto
  from run have "written tr = [] \<and> failed_last E r tr"
  proof (cases rule: mask_then_fill_cases)
    case (masking e')
    from sound_from_start [OF sm masking(1)] na masking(2) show ?thesis
      by (simp add: failed_last_Inl)
  next
    case (filling df2 t1 e')
    from sound_from_start [OF sm filling(1)] have t1: "written t1 = []" "answered E t1"
      by (simp_all add: failed_last_Inr)
    have "sound E (fill_rows (fill_stage E mid cols prompt) csw df2)"
      using rows [OF filling(1)] by (rule sound_fill_rows)
    with t1 filling(2) have "written tr = [] \<and> (answered E tr \<or> failed_last E (Inl e' :: error + dataframe) tr)"
      unfolding sound_def by blast
    with na filling(3) show ?thesis by (simp add: failed_last_Inl)
  next
    case (writing df2 t1 out t2)
    from sound_from_start [OF sm writing(1)] have t1: "written t1 = []" "answered E t1"
      by (simp_all add: failed_last_Inr)
    have "sound E (fill_rows (fill_stage E mid cols prompt) csw df2)"
      using rows [OF writing(1)] by (rule sound_fill_rows)
    with t1 writing(2) have "answered E t2 \<or> failed_last E (Inr out :: error + dataframe) t2"
      unfolding sound_def by blast
    then have "answered E t2" by (simp add: failed_last_Inr)
    then have "answered E tr" using writing(3) by (simp add: answered_append_silent)
    with na show ?thesis by simp
  qed
  then obtain t p e' where w: "written tr = []" and t: "tr = t @ [Invoke p]"
    and a: "answered E t" and c: "claude E (length (requests t)) p = Inl e'" and r: "r = Inl e'"
    by (auto simp: failed_last_def)
  from i t have "i \<le> length (requests t)" by (simp add: requests_append)
  moreover have "\<not> i < length (requests t)"
  proof
    assume l: "i < length (requests t)"
    with a obtain s where "claude E i (requests t ! i) = Inr s" by (auto simp: answered_def)
    with e l t show False by (simp add: requests_append nth_append)
  qed
  ultimately have ieq: "i = length (requests t)" by simp
  then have "requests tr ! i = p" using t by (simp add: requests_append nth_append)
  with ieq c e r w t show ?thesis by (simp add: requests_append)
qed

text \<open>
  Without a row, stage 1 does nothing and stage 2 is the one call on the row of missing
  values, whose exception is not the result of the run.
\<close>

lemma mask_then_fill_empty:
  assumes run: "mask_then_fill E input sampling reuse key stage1 mid
                (fill_stage E mid cols prompt) csw output [] = (r, tr)"
    and df0: "read_csv E input = Inr df0" and df1: "sampling df0 = Inr df1"
    and em: "rows df1 = []"
    and df2: "df2 = (if reuse \<and> mid \<in> set (columns df1) then df1 else set_column mid [] df1)"
  shows "(\<not> (reuse \<and> mid \<in> set (columns df1)) \<and> key \<notin> set (columns df1) \<longrightarrow>
            r = Inl (KeyError key) \<and> tr = [ReadCsv input]) \<and>
         (reuse \<and> mid \<in> set (columns df1) \<or> key \<in> set (columns df1) \<longrightarrow>
            (\<exists>fills swallowed.
               (case fill_request mid cols prompt (nan_row df2) of
                  None \<Rightarrow> fills = [] \<and> swallowed
                | Some q \<Rightarrow> fills = [q] \<and> (swallowed \<longleftrightarrow> (\<exists>e. claude E 0 q = Inl e))) \<and>
               (if swallowed \<and> length (columns df2) \<noteq> 1
                then tr = ReadCsv input # map Invoke fills \<and> r = Inl ValueError
                else tr = ReadCsv input # map Invoke fills @ [ToCsv output (set_column csw [] df2)] \<and>
                     r = (case to_csv E output (set_column csw [] df2) of
                            None \<Rightarrow> Inr () | Some e \<Rightarrow> Inl e))))"
proof (rule conjI; rule impI)
  assume "\<not> (reuse \<and> mid \<in> set (columns df1)) \<and> key \<notin> set (columns df1)"
  with run df0 df1 show "r = Inl (KeyError key) \<and> tr = [ReadCsv input]"
    by (auto simp: mask_then_fill_def stages_def mask_rows_def io_bind_def pd_read_csv_def
        io_lift_def get_column_def)
next
  assume ok: "reuse \<and> mid \<in> set (columns df1) \<or> key \<in> set (columns df1)"
  have m: "mask_rows E input sampling reuse key stage1 mid [] = (Inr df2, [ReadCsv input])"
    using df0 df1 em ok df2
    by (auto simp: mask_rows_def io_bind_def pd_read_csv_def io_lift_def io_return_def
        get_column_empty)
  have e2: "rows df2 = []" using df2 em by (simp add: set_column_def)
  obtain r2 t2 where f: "fill_rows (fill_stage E mid cols prompt) csw df2 [ReadCsv input] = (r2, t2)"
    by fastforce
  from run m f have out: "case r2 of Inl e \<Rightarrow> r = Inl e \<and> tr = t2
      | Inr out \<Rightarrow> tr = t2 @ [ToCsv output out] \<and>
          r = (case to_csv E output out of None \<Rightarrow> Inr () | Some e \<Rightarrow> Inl e)"
    by (auto simp: mask_then_fill_def stages_def io_bind_def pd_to_csv_def split: sum.splits)
  from fill_rows_empty [OF e2 f]
  show "\<exists>fills swallowed.
               (case fill_request mid cols prompt (nan_row df2) of
                  None \<Rightarrow> fills = [] \<and> swallowed
                | Some q \<Rightarrow> fills = [q] \<and> (swallowed \<longleftrightarrow> (\<exists>e. claude E 0 q = Inl e))) \<and>
               (if swallowed \<and> length (columns df2) \<noteq> 1
                then tr = ReadCsv input # map Invoke fills \<and> r = Inl ValueError
                else tr = ReadCsv input # map Invoke fills @ [ToCsv output (set_column csw [] df2)] \<and>
                     r = (case to_csv E output (set_column csw [] df2) of
                            None \<Rightarrow> Inr () | Some e \<Rightarrow> Inl e))"
  proof
    assume a: "fill_request mid cols prompt (nan_row df2) = None \<and> t2 = [ReadCsv input] \<and>
          r2 = (if length (columns df2) = 1 then Inr (set_column csw [] df2) else Inl ValueError)"
    show ?thesis
      using a out by (intro exI [of _ "[]"] exI [of _ True]) (auto split: if_splits)
  next
    assume "\<exists>q. fill_request mid cols prompt (nan_row df2) = Some q \<and>
            t2 = [ReadCsv input] @ [Invoke q] \<and>
            r2 = (case claude E (length (requests [ReadCsv input])) q of
                   Inr s \<Rightarrow> Inr (set_column csw [] df2)
                 | Inl e \<Rightarrow> if length (columns df2) = 1 then Inr (set_column csw [] df2)
                            else Inl ValueError)"
    then obtain q where q: "fill_request mid cols prompt (nan_row df2) = Some q"
      "t2 = [ReadCsv input] @ [Invoke q]"
      "r2 = (case claude E (length (requests [ReadCsv input])) q of
                   Inr s \<Rightarrow> Inr (set_column csw [] df2)
                 | Inl e \<Rightarrow> if length (columns df2) = 1 then Inr (set_column csw [] df2)
                            else Inl ValueError)"
      by blast
    show ?thesis
      using q out
      by (intro exI [of _ "[q]"] exI [of _ "\<exists>e. claude E 0 q = Inl e"])
         (auto split: sum.splits if_splits)
  qed
qed

section \<open>Columns that the pipeline leaves alone\<close>

lemma columns_set_column:
  "columns (set_column c vs df) = (if c \<in> set (columns df) then columns df else columns df @ [c])"
  by (simp add: set_column_def)

lemma nth_rows_set_column:
  "i < length (rows df) \<Longrightarrow> length vs = length (rows df) \<Longrightarrow>
   rows (set_column c vs df) ! i = AList.update c (vs ! i) (rows df ! i)"
  by (simp add: set_column_def)

lemma row_get_update:
  "row_get (AList.update c v r) c' = (if c' = c then Inr v else row_get r c')"
  by (simp add: row_get_def update_conv')

lemma row_get_set_column:
  "i < length (rows df) \<Longrightarrow> length vs = length (rows df) \<Longrightarrow>
   row_get (rows (set_column c vs df) ! i) c' = (if c' = c then Inr (vs ! i) else row_get (rows df ! i) c')"
  by (simp add: nth_rows_set_column row_get_update)

lemma columns_head: "columns (head n df) = columns df"
  by (simp add: head_def)

lemma columns_drop_duplicates: "drop_duplicates c df = Inr d \<Longrightarrow> columns d = columns df"
  by (auto simp: drop_duplicates_def split: sum.splits)

lemma columns_sample_unique: "sample_unique key n df = Inr d \<Longrightarrow> columns d = columns df"
  by (auto simp: sample_unique_def columns_head split: option.splits sum.splits if_splits
      dest: columns_drop_duplicates)

lemma columns_sample_first: "sample_first n df = Inr d \<Longrightarrow> columns d = columns df"
  by (auto simp: sample_first_def columns_head split: option.splits if_splits)

lemma mask_then_fill_frame:
  assumes s1: "\<And>x. sound E (stage1 x)"
    and run: "mask_then_fill E input sampling reuse key stage1 mid
                (fill_stage E mid cols prompt) csw output [] = (r, tr)"
    and w: "(p, out) \<in> set (written tr)"
    and df0: "read_csv E input = Inr df0"
    and keep: "\<forall>d. sampling df0 = Inr d \<longrightarrow> columns d = columns df0"
    and new: "mid \<notin> set (columns df0)" "csw \<notin> set (columns df0)"
  shows "\<exists>df1. sampling df0 = Inr df1 \<and>
           columns out = columns df0 @ (if csw = mid then [mid] else [mid, csw]) \<and>
           length (rows out) = length (rows df1) \<and>
           (\<forall>i<length (rows df1). \<forall>c\<in>set (columns df0).
              row_get (rows out ! i) c = row_get (rows df1 ! i) c)"
proof -
  have sm: "sound E (mask_rows E input sampling reuse key stage1 mid)"
    using s1 by (rule sound_mask_rows)
  from run obtain df2 t1 df t2 where
    m: "mask_rows E input sampling reuse key stage1 mid [] = (Inr df2, t1)"
    and f: "fill_rows (fill_stage E mid cols prompt) csw df2 t1 = (Inr df, t2)"
    and tr: "tr = t2 @ [ToCsv output df]"
  proof (cases rule: mask_then_fill_cases)
    case (masking e)
    from sound_from_start [OF sm masking(1)] w show ?thesis by simp
  next
    case (filling df2 t1 e)
    from sound_from_start [OF sm filling(1)] have "written t1 = []" by simp
    moreover from fill_rows_run [OF filling(2)] obtain fills where "tr = t1 @ map Invoke fills"
      by blast
    ultimately have "written tr = []" by (simp add: written_append written_Invoke)
    with w show ?thesis by simp
  next
    case (writing df2 t1 out t2)
    then show ?thesis using that by blast
  qed
  from sound_from_start [OF sm m] have "written t1 = []" by simp
  moreover from fill_rows_run [OF f] obtain fills mixed where
    t2: "t2 = t1 @ map Invoke fills"
    and x2: "length mixed = length (rows df2)" "df = set_column csw (map Str mixed) df2"
    by blast
  ultimately have pre: "written t2 = []" by (simp add: written_append written_Invoke)
  from w tr pre have out: "out = df" by (simp add: written_append)
  from mask_rows_frame [OF m] df0 obtain df1 where
    x0: "sampling df0 = Inr df1" and x1: "length (rows df2) = length (rows df1)"
    and y: "if reuse \<and> mid \<in> set (columns df1) then df2 = df1
            else \<exists>vals masked. get_column key df1 = Inr vals \<and> length masked = length vals \<and>
                   df2 = set_column mid (map Str masked) df1"
    by auto
  from keep x0 have c1: "columns df1 = columns df0" by blast
  with new y obtain vals masked where
    m: "get_column key df1 = Inr vals" "length masked = length vals"
       "df2 = set_column mid (map Str masked) df1"
    by auto
  have lm: "length (map Str masked) = length (rows df1)"
    using m get_column_length [OF m(1)] by simp
  have lx: "length (map Str mixed) = length (rows df2)" using x2 by simp
  have cols: "columns out = columns df0 @ (if csw = mid then [mid] else [mid, csw])"
    using new c1 by (simp add: out x2(2) m(3) columns_set_column)
  have len: "length (rows out) = length (rows df1)"
    using lm lx x1 by (simp add: out x2(2) rows_set_column)
  have vals: "\<forall>i<length (rows df1). \<forall>c\<in>set (columns df0).
              row_get (rows out ! i) c = row_get (rows df1 ! i) c"
  proof (intro allI impI ballI)
    fix i c assume i: "i < length (rows df1)" and "c \<in> set (columns df0)"
    with new have c: "c \<noteq> mid \<and> c \<noteq> csw" by auto
    from i x1 have i2: "i < length (rows df2)" by simp
    have "row_get (rows out ! i) c = row_get (rows df2 ! i) c"
      using c row_get_set_column [OF i2 lx, of csw c] by (simp add: out x2(2))
    also have "\<dots> = row_get (rows df1 ! i) c"
      using c row_get_set_column [OF i lm, of mid c] by (simp add: m(3))
    finally show "row_get (rows out ! i) c = row_get (rows df1 ! i) c" .
  qed
  from x0 cols len vals show ?thesis by blast
qed

section \<open>The order of the events\<close>

lemma mask_then_fill_trace:
  assumes ev: "\<And>x t r t'. stage1 x t = (r, t') \<Longrightarrow> t' = t @ ev1 x \<or> (t' = t \<and> (\<exists>e. r = Inl e))"
    and run: "mask_then_fill E input sampling reuse key stage1 mid
                (fill_stage E mid cols prompt) csw output [] = (r, tr)"
  shows "\<exists>vals k fills w.
      tr = ReadCsv input # concat (map ev1 (take k vals)) @ map Invoke fills @ w \<and>
      k \<le> length vals \<and> (w = [] \<or> (\<exists>out. w = [ToCsv output out])) \<and>
      (vals \<noteq> [] \<longrightarrow>
         (\<exists>df0 df1. read_csv E input = Inr df0 \<and> sampling df0 = Inr df1 \<and>
            \<not> (reuse \<and> mid \<in> set (columns df1)) \<and> get_column key df1 = Inr vals)) \<and>
      (fills \<noteq> [] \<or> w \<noteq> [] \<longrightarrow> k = length vals \<and>
         (\<exists>df0 df1 df2. read_csv E input = Inr df0 \<and> sampling df0 = Inr df1 \<and>
            (if reuse \<and> mid \<in> set (columns df1) then vals = [] \<and> df2 = df1
             else get_column key df1 = Inr vals \<and>
                  (\<exists>masked. length masked = length vals \<and>
                     df2 = set_column mid (map Str masked) df1)) \<and>
            length fills \<le> length (called_rows df2) \<and>
            map (fill_request mid cols prompt) (take (length fills) (called_rows df2))
              = map Some fills \<and>
            (w \<noteq> [] \<and> rows df2 \<noteq> [] \<longrightarrow> length fills = length (rows df2))))"
proof -
  have after: ?thesis
    if m: "mask_rows E input sampling reuse key stage1 mid [] = (Inr df2, t1)"
      and f: "fill_rows (fill_stage E mid cols prompt) csw df2 t1 = (r2, t2)"
      and tr: "tr = t2 @ w" and w: "w = [] \<or> (\<exists>out. r2 = Inr out \<and> w = [ToCsv output out])"
    for df2 t1 r2 t2 w
  proof -
    from mask_rows_success [of stage1 ev1, OF ev m] obtain df0 df1 vals where
      x: "read_csv E input = Inr df0" "sampling df0 = Inr df1"
         "if reuse \<and> mid \<in> set (columns df1) then vals = [] \<and> df2 = df1
          else get_column key df1 = Inr vals \<and>
           (\<exists>masked. length masked = length vals \<and> df2 = set_column mid (map Str masked) df1)"
         "t1 = [] @ ReadCsv input # concat (map ev1 vals)"
      by blast
    from fill_rows_run [OF f] obtain fills where
      y: "length fills \<le> length (called_rows df2)"
         "map (fill_request mid cols prompt) (take (length fills) (called_rows df2)) = map Some fills"
         "t2 = t1 @ map Invoke fills"
         "\<forall>out. r2 = Inr out \<longrightarrow> (rows df2 \<noteq> [] \<longrightarrow> length fills = length (rows df2))"
      by blast
    have v: "vals \<noteq> [] \<longrightarrow>
         (\<exists>df0 df1. read_csv E input = Inr df0 \<and> sampling df0 = Inr df1 \<and>
            \<not> (reuse \<and> mid \<in> set (columns df1)) \<and> get_column key df1 = Inr vals)"
      using x by (auto split: if_splits)
    have z: "\<exists>df0 df1 df2. read_csv E input = Inr df0 \<and> sampling df0 = Inr df1 \<and>
            (if reuse \<and> mid \<in> set (columns df1) then vals = [] \<and> df2 = df1
             else get_column key df1 = Inr vals \<and>
                  (\<exists>masked. length masked = length vals \<and>
                     df2 = set_column mid (map Str masked) df1)) \<and>
            length fills \<le> length (called_rows df2) \<and>
            map (fill_request mid cols prompt) (take (length fills) (called_rows df2))
              = map Some fills \<and>
            (w \<noteq> [] \<and> rows df2 \<noteq> [] \<longrightarrow> length fills = length (rows df2))"
      apply (rule exI [of _ df0], rule exI [of _ df1], rule exI [of _ df2])
      using x y w by auto
    have w': "w = [] \<or> (\<exists>out. w = [ToCsv output out])" using w by blast
    show ?thesis
      apply (rule exI [of _ vals], rule exI [of _ "length vals"])
      apply (rule exI [of _ fills], rule exI [of _ w])
      using x(4) y(3) tr v z w' by simp
  qed
  from run show ?thesis
  proof (cases rule: mask_then_fill_cases)
    case (masking e)
    from mask_rows_run [of stage1 ev1, OF ev masking(1)]
    consider (early) "tr = [ReadCsv input]"
      | (loop) df0 df1 vals k where "read_csv E input = Inr df0" "sampling df0 = Inr df1"
          "\<not> (reuse \<and> mid \<in> set (columns df1))" "get_column key df1 = Inr vals"
          "k \<le> length vals" "tr = [] @ ReadCsv input # concat (map ev1 (take k vals))"
      by auto
    then show ?thesis
    proof cases
      case early
      then show ?thesis
        by (intro exI [of _ "[]"] exI [of _ 0]) simp
    next
      case loop
      show ?thesis
        apply (rule exI [of _ vals], rule exI [of _ k])
        apply (rule exI [of _ "[]"], rule exI [of _ "[]"])
        using loop by auto
    qed
  next
    case (filling df2 t1 e)
    show ?thesis
      by (rule after [OF filling(1) filling(2), of "[]"]) simp_all
  next
    case (writing df2 t1 out t2)
    show ?thesis
      by (rule after [OF writing(1) writing(2), of "[ToCsv output out]"])
         (simp_all add: writing(3))
  qed
qed

section \<open>The prompts of one script differ\<close>

lemma lin_prompts_differ:
  "prompt_get_switching_points_lin x \<noteq> prompt_code_switch_text_lin p t lang"
proof -
  have "prompt_get_switching_points_lin x ! 5 = 97"
    by (simp add: prompt_get_switching_points_lin_def str_def)
  moreover have "prompt_code_switch_text_lin p t lang ! 5 = 119"
    by (simp add: prompt_code_switch_text_lin_def str_def)
  ultimately show ?thesis by auto
qed

lemma rev_prompts_differ:
  "prompt_mask_target_points x lang \<noteq> prompt_insert_english_words p t lang'"
proof -
  have "prompt_mask_target_points x lang ! 5 = 97"
    by (simp add: prompt_mask_target_points_def str_def)
  moreover have "prompt_insert_english_words p t lang' ! 5 = 119"
    by (simp add: prompt_insert_english_words_def str_def)
  ultimately show ?thesis by auto
qed

lemma multi_prompts_differ:
  "prompt_get_switching_points_multi x \<noteq> prompt_code_switch_multi p s"
proof -
  have "prompt_get_switching_points_multi x ! 10 = 110"
    by (simp add: prompt_get_switching_points_multi_def str_def)
  moreover have "prompt_code_switch_multi p s ! 10 = 32"
    by (simp add: prompt_code_switch_multi_def str_def)
  ultimately show ?thesis by auto
qed

section \<open>Complete runs of the four scripts\<close>

lemma map_eq_Some_nth:
  "map f xs = map Some ys \<Longrightarrow> i < length xs \<Longrightarrow> f (xs ! i) = Some (ys ! i)"
  by (metis length_map nth_map)

lemma fill_request_single:
  "fill_request mid [c] (\<lambda>p ts. g p (format_cell (hd ts))) row = Some q \<longleftrightarrow>
     (\<exists>p t. row_get row mid = Inr p \<and> row_get row c = Inr t \<and>
            q = g (format_cell p) (format_cell t))"
  by (auto simp: fill_request_def split: sum.splits)

lemma fill_request_many:
  "fill_request mid cs (\<lambda>p ts. g p ts) row = Some q \<longleftrightarrow>
     (\<exists>p ts. row_get row mid = Inr p \<and> collect (map (\<lambda>c. row_get row c) cs) = Inr ts \<and>
            q = g (format_cell p) ts)"
  by (auto simp: fill_request_def split: sum.splits)

lemma concat_map_single: "concat (map (\<lambda>x. [f x]) xs) = map f xs"
  by (induction xs) simp_all

lemma mask_stage_run:
  "mask_stage E prompt x t = (r, t') \<Longrightarrow> t' = t @ [Invoke (prompt (format_cell x))]"
  by (auto simp: mask_stage_def dest: ask_result)

lemma random_stage_run:
  "insert_placeholders_random_io E x t = (r, t') \<Longrightarrow>
   t' = t @ [Sample (format_cell x)] \<or> (t' = t \<and> (\<exists>e. r = Inl e))"
  by (cases x) (auto simp: insert_placeholders_random_io_def)

text \<open>The row of missing values has \<^verbatim>\<open>nan\<close> under every label of the frame.\<close>

lemma row_get_nan_row:
  "row_get (nan_row df) c =
     (if c \<in> set (columns df) then Inr (NonStr (str ''nan'')) else Inl (KeyError c))"
proof -
  have "map_of (map (\<lambda>c. (c, v)) cs) c = (if c \<in> set cs then Some v else None)" for cs and v :: cell
    by (induction cs) auto
  then show ?thesis by (simp add: row_get_def nan_row_def)
qed

lemma called_rows_nonempty: "rows df \<noteq> [] \<Longrightarrow> called_rows df = rows df"
  by (simp add: called_rows_def)

lemma called_rows_empty: "rows df = [] \<Longrightarrow> called_rows df = [nan_row df]"
  by (simp add: called_rows_def)

lemma main_lin_complete:
  assumes run: "main_lin E A [] = (r, tr)" and w: "written tr \<noteq> [] \<or> r = Inr ()"
  shows "\<exists>df0 df1 df2 vals fills mixed.
     read_csv E (input_csv A) = Inr df0 \<and>
     sample_unique (source_column A) (sample_size A) df0 = Inr df1 \<and>
     get_column (source_column A) df1 = Inr vals \<and>
     (\<exists>masked. length masked = length vals \<and>
        df2 = set_column col_placeholder_text (map Str masked) df1) \<and>
     length (rows df2) = length (rows df1) \<and>
     length fills \<le> length (called_rows df2) \<and>
     map (fill_request col_placeholder_text [target_column A]
           (\<lambda>p ts. prompt_code_switch_text_lin p (format_cell (hd ts)) (target_language A)))
         (take (length fills) (called_rows df2)) = map Some fills \<and>
     (rows df2 \<noteq> [] \<longrightarrow> length fills = length (rows df2)) \<and>
     (rows df2 = [] \<and> fills = [] \<longrightarrow>
        length (columns df2) = 1 \<and>
        fill_request col_placeholder_text [target_column A]
           (\<lambda>p ts. prompt_code_switch_text_lin p (format_cell (hd ts)) (target_language A)) (nan_row df2) = None) \<and>
     length mixed = length (rows df2) \<and>
     tr = ReadCsv (input_csv A)
          # map (\<lambda>v. Invoke (prompt_get_switching_points_lin (format_cell v))) vals
          @ map Invoke fills
          @ [ToCsv (path_join E (output_dir A)
                      (path_stem E (input_csv A) @ str ''_with_'' @ csw_column_name A @ str ''.csv''))
               (set_column (csw_column_name A) (map Str mixed) df2)] \<and>
     r = (case to_csv E (path_join E (output_dir A)
                      (path_stem E (input_csv A) @ str ''_with_'' @ csw_column_name A @ str ''.csv''))
               (set_column (csw_column_name A) (map Str mixed) df2) of
            None \<Rightarrow> Inr () | Some e \<Rightarrow> Inl e)"
proof -
  have s: "\<And>x. sound E (mask_stage E prompt_get_switching_points_lin x)" by (rule sound_mask_stage)
  have ev: "\<And>x t r t'. mask_stage E prompt_get_switching_points_lin x t = (r, t') \<Longrightarrow>
              t' = t @ (\<lambda>v. [Invoke (prompt_get_switching_points_lin (format_cell v))]) x \<or> (t' = t \<and> (\<exists>e. r = Inl e))"
    by (auto dest: mask_stage_run)
  note run' = run [unfolded main_lin_shape]
  from mask_then_fill_written [where ?stage1.0 = "mask_stage E prompt_get_switching_points_lin"
      and ?ev1.0 = "\<lambda>v. [Invoke (prompt_get_switching_points_lin (format_cell v))]", OF s ev run' w]
  show ?thesis by (simp add: concat_map_single)
qed

lemma main_rev_complete:
  assumes run: "main_rev E A [] = (r, tr)" and w: "written tr \<noteq> [] \<or> r = Inr ()"
  shows "\<exists>df0 df1 df2 vals fills mixed.
     read_csv E (input_csv A) = Inr df0 \<and>
     sample_unique (target_column A) (sample_size A) df0 = Inr df1 \<and>
     get_column (target_column A) df1 = Inr vals \<and>
     (\<exists>masked. length masked = length vals \<and>
        df2 = set_column col_masked_target (map Str masked) df1) \<and>
     length (rows df2) = length (rows df1) \<and>
     length fills \<le> length (called_rows df2) \<and>
     map (fill_request col_masked_target [source_column A]
           (\<lambda>p ts. prompt_insert_english_words p (format_cell (hd ts)) (target_language A)))
         (take (length fills) (called_rows df2)) = map Some fills \<and>
     (rows df2 \<noteq> [] \<longrightarrow> length fills = length (rows df2)) \<and>
     (rows df2 = [] \<and> fills = [] \<longrightarrow>
        length (columns df2) = 1 \<and>
        fill_request col_masked_target [source_column A]
           (\<lambda>p ts. prompt_insert_english_words p (format_cell (hd ts)) (target_language A)) (nan_row df2) = None) \<and>
     length mixed = length (rows df2) \<and>
     tr = ReadCsv (input_csv A)
          # map (\<lambda>v. Invoke (prompt_mask_target_points (format_cell v) (target_language A))) vals
          @ map Invoke fills
          @ [ToCsv (path_join E (output_dir A)
                      (path_stem E (input_csv A) @ str ''_reverse_'' @ csw_column_name A @ str ''.csv''))
               (set_column (csw_column_name A) (map Str mixed) df2)] \<and>
     r = (case to_csv E (path_join E (output_dir A)
                      (path_stem E (input_csv A) @ str ''_reverse_'' @ csw_column_name A @ str ''.csv''))
               (set_column (csw_column_name A) (map Str mixed) df2) of
            None \<Rightarrow> Inr () | Some e \<Rightarrow> Inl e)"
proof -
  have s: "\<And>x. sound E (mask_stage E (\<lambda>txt. prompt_mask_target_points txt (target_language A)) x)" by (rule sound_mask_stage)
  have ev: "\<And>x t r t'. mask_stage E (\<lambda>txt. prompt_mask_target_points txt (target_language A)) x t = (r, t') \<Longrightarrow>
              t' = t @ (\<lambda>v. [Invoke (prompt_mask_target_points (format_cell v) (target_language A))]) x \<or> (t' = t \<and> (\<exists>e. r = Inl e))"
    by (auto dest: mask_stage_run)
  note run' = run [unfolded main_rev_shape]
  from mask_then_fill_written [where ?stage1.0 = "mask_stage E (\<lambda>txt. prompt_mask_target_points txt (target_language A))"
      and ?ev1.0 = "\<lambda>v. [Invoke (prompt_mask_target_points (format_cell v) (target_language A))]", OF s ev run' w]
  show ?thesis by (simp add: concat_map_single)
qed

lemma main_rnd_complete:
  assumes run: "main_rnd E A [] = (r, tr)" and w: "written tr \<noteq> [] \<or> r = Inr ()"
  shows "\<exists>df0 df1 df2 vals fills mixed.
     read_csv E (input_csv A) = Inr df0 \<and>
     sample_first (sample_size A) df0 = Inr df1 \<and>
     get_column (source_column A) df1 = Inr vals \<and>
     (\<exists>masked. length masked = length vals \<and>
        df2 = set_column col_placeholder_text (map Str masked) df1) \<and>
     length (rows df2) = length (rows df1) \<and>
     length fills \<le> length (called_rows df2) \<and>
     map (fill_request col_placeholder_text [target_column A]
           (\<lambda>p ts. prompt_code_switch_text_rnd p (format_cell (hd ts)) (target_language A)))
         (take (length fills) (called_rows df2)) = map Some fills \<and>
     (rows df2 \<noteq> [] \<longrightarrow> length fills = length (rows df2)) \<and>
     (rows df2 = [] \<and> fills = [] \<longrightarrow>
        length (columns df2) = 1 \<and>
        fill_request col_placeholder_text [target_column A]
           (\<lambda>p ts. prompt_code_switch_text_rnd p (format_cell (hd ts)) (target_language A)) (nan_row df2) = None) \<and>
     length mixed = length (rows df2) \<and>
     tr = ReadCsv (input_csv A)
          # map (\<lambda>v. Sample (format_cell v)) vals
          @ map Invoke fills
          @ [ToCsv (path_join E (output_dir A)
                      (path_stem E (input_csv A) @ str ''_rnd_'' @ csw_column_name A @ str ''.csv''))
               (set_column (csw_column_name A) (map Str mixed) df2)] \<and>
     r = (case to_csv E (path_join E (output_dir A)
                      (path_stem E (input_csv A) @ str ''_rnd_'' @ csw_column_name A @ str ''.csv''))
               (set_column (csw_column_name A) (map Str mixed) df2) of
            None \<Rightarrow> Inr () | Some e \<Rightarrow> Inl e)"
proof -
  have s: "\<And>x. sound E (insert_placeholders_random_io E x)" by (rule sound_random)
  have ev: "\<And>x t r t'. insert_placeholders_random_io E x t = (r, t') \<Longrightarrow>
              t' = t @ (\<lambda>v. [Sample (format_cell v)]) x \<or> (t' = t \<and> (\<exists>e. r = Inl e))"
    by (auto dest: random_stage_run)
  note run' = run [unfolded main_rnd_shape]
  from mask_then_fill_written [where ?stage1.0 = "insert_placeholders_random_io E"
      and ?ev1.0 = "\<lambda>v. [Sample (format_cell v)]", OF s ev run' w]
  show ?thesis by (simp add: concat_map_single)
qed

lemma main_multi_complete:
  assumes run: "main_multi E A [] = (r, tr)" and w: "written tr \<noteq> [] \<or> r = Inr ()"
  shows "\<exists>df0 df1 df2 vals fills mixed.
     read_csv E (input_csv A) = Inr df0 \<and>
     sample_unique (source_column A) (sample_size A) df0 = Inr df1 \<and>
     (if col_placeholder_text \<in> set (columns df1) then vals = [] \<and> df2 = df1
      else get_column (source_column A) df1 = Inr vals \<and>
        (\<exists>masked. length masked = length vals \<and>
           df2 = set_column col_placeholder_text (map Str masked) df1)) \<and>
     length (rows df2) = length (rows df1) \<and>
     length fills \<le> length (called_rows df2) \<and>
     map (fill_request col_placeholder_text (map strip (split_on 44 (target_columns A)))
           (\<lambda>p ts. prompt_code_switch_multi p
              (parallel_section (map strip (split_on 44 (target_languages A))) ts)))
         (take (length fills) (called_rows df2)) = map Some fills \<and>
     (rows df2 \<noteq> [] \<longrightarrow> length fills = length (rows df2)) \<and>
     (rows df2 = [] \<and> fills = [] \<longrightarrow>
        length (columns df2) = 1 \<and>
        fill_request col_placeholder_text (map strip (split_on 44 (target_columns A)))
           (\<lambda>p ts. prompt_code_switch_multi p
              (parallel_section (map strip (split_on 44 (target_languages A))) ts)) (nan_row df2) = None) \<and>
     length mixed = length (rows df2) \<and>
     tr = ReadCsv (input_csv A)
          # map (\<lambda>v. Invoke (prompt_get_switching_points_multi (format_cell v))) vals
          @ map Invoke fills
          @ [ToCsv (path_join E (output_dir A)
                      (path_stem E (input_csv A) @ str ''_with_'' @ csw_column_name A @ str ''.csv''))
               (set_column (csw_column_name A) (map Str mixed) df2)] \<and>
     r = (case to_csv E (path_join E (output_dir A)
                      (path_stem E (input_csv A) @ str ''_with_'' @ csw_column_name A @ str ''.csv''))
               (set_column (csw_column_name A) (map Str mixed) df2) of
            None \<Rightarrow> Inr () | Some e \<Rightarrow> Inl e)"
proof -
  have s: "\<And>x. sound E (mask_stage E prompt_get_switching_points_multi x)" by (rule sound_mask_stage)
  have ev: "\<And>x t r t'. mask_stage E prompt_get_switching_points_multi x t = (r, t') \<Longrightarrow>
              t' = t @ (\<lambda>v. [Invoke (prompt_get_switching_points_multi (format_cell v))]) x \<or> (t' = t \<and> (\<exists>e. r = Inl e))"
    by (auto dest: mask_stage_run)
  have eq: "length (map strip (split_on 44 (target_columns A)))
        = length (map strip (split_on 44 (target_languages A)))"
  proof (rule ccontr)
    assume "\<not> ?thesis"
    with run have "r = Inl ValueError" "tr = []"
      by (simp_all add: main_multi_shape io_raise_def del: length_map)
    with w show False by simp
  qed
  from run eq have run': "mask_then_fill E (input_csv A)
     (sample_unique (source_column A) (sample_size A)) True
     (source_column A) (mask_stage E prompt_get_switching_points_multi) col_placeholder_text
     (fill_stage E col_placeholder_text (map strip (split_on 44 (target_columns A)))
        (\<lambda>p ts. prompt_code_switch_multi p
                   (parallel_section (map strip (split_on 44 (target_languages A))) ts)))
     (csw_column_name A)
     (path_join E (output_dir A)
        (path_stem E (input_csv A) @ str ''_with_'' @ csw_column_name A @ str ''.csv'')) []
     = (r, tr)"
    by (simp add: main_multi_shape del: length_map)
  from mask_then_fill_written [where ?stage1.0 = "mask_stage E prompt_get_switching_points_multi"
      and ?ev1.0 = "\<lambda>v. [Invoke (prompt_get_switching_points_multi (format_cell v))]", OF s ev run' w]
  show ?thesis by (simp add: concat_map_single)
qed

section \<open>The example runs\<close>

lemmas ex_defs = ex_env_def ex_args_def ex_frame_def ex_multi_args_def ex_frame_masked_def
  ex_env_masked_def ex_env_failing_def ex_frame_empty_def ex_env_empty_def
  ex_env_empty_failing_def
lemmas io_defs = io_bind_def io_lift_def io_return_def io_raise_def pd_read_csv_def pd_to_csv_def
  invoke_claude_def apply_rows_def assign_def nan_row_def
lemmas pd_defs = sample_unique_def sample_first_def get_column_def row_get_def set_column_def
  col_placeholder_text_def col_masked_target_def str_def strip_def isspace_def

lemma ex_lin: "fst (main_lin ex_env ex_args []) = Inr ()"
  by (simp add: main_lin_def ex_defs io_defs pd_defs get_switching_points_lin_def
      code_switch_text_lin_def)

lemma ex_rev: "fst (main_rev ex_env ex_args []) = Inr ()"
  by (simp add: main_rev_def ex_defs io_defs pd_defs mask_target_points_def
      insert_english_words_def)

lemma ex_multi: "fst (main_multi ex_env ex_multi_args []) = Inr ()"
  by (simp add: main_multi_def ex_defs io_defs pd_defs get_switching_points_multi_def
      code_switch_multi_def split_on_def Let_def)

lemma ex_rnd: "fst (main_rnd ex_env ex_args []) = Inr ()"
  by (simp add: main_rnd_def ex_defs io_defs pd_defs insert_placeholders_random_io_def
      insert_placeholders_random_def split_def random_sample_def placeholder_def
      code_switch_text_rnd_def)

lemma ex_rnd_requests: "requests (snd (main_rnd ex_env ex_args [])) =
   [prompt_code_switch_text_rnd (str ''####### morning'') (str ''bonjour'') (str ''French'')]"
  by (simp add: main_rnd_def ex_defs io_defs pd_defs insert_placeholders_random_io_def
      insert_placeholders_random_def split_def random_sample_def placeholder_def
      code_switch_text_rnd_def)


lemma requests_map_Invoke: "requests (map (\<lambda>v. Invoke (f v)) vs) = map f vs"
  by (induction vs) simp_all

lemma written_map_Invoke: "written (map (\<lambda>v. Invoke (f v)) vs) = []"
  by (induction vs) simp_all

lemma requests_map_Sample: "requests (map (\<lambda>v. Sample (f v)) vs) = []"
  by (induction vs) simp_all

lemma written_map_Sample: "written (map (\<lambda>v. Sample (f v)) vs) = []"
  by (induction vs) simp_all
lemma fill_request_nth:
  assumes "map f (take (length fills) rs) = map Some fills" and "i < length fills"
  shows "f (rs ! i) = Some (fills ! i)"
proof -
  from assms(1) have "length (take (length fills) rs) = length fills" by (metis length_map)
  with assms(2) have i: "i < length (take (length fills) rs)" by simp
  from map_eq_Some_nth [OF assms(1) i] assms(2) show ?thesis by simp
qed

lemma fills_single:
  assumes "map (fill_request mid [c] (\<lambda>p ts. g p (format_cell (hd ts)))) (take (length fills) rs)
             = map Some fills"
    and "i < length fills"
  shows "\<exists>p t. row_get (rs ! i) mid = Inr p \<and> row_get (rs ! i) c = Inr t \<and>
           fills ! i = g (format_cell p) (format_cell t)"
  using fill_request_nth [OF assms] by (simp add: fill_request_single)

lemma fills_many:
  assumes "map (fill_request mid cs (\<lambda>p ts. g p ts)) (take (length fills) rs) = map Some fills"
    and "i < length fills"
  shows "\<exists>p ts. row_get (rs ! i) mid = Inr p \<and>
           collect (map (\<lambda>c. row_get (rs ! i) c) cs) = Inr ts \<and>
           fills ! i = g (format_cell p) ts"
  using fill_request_nth [OF assms] by (simp add: fill_request_many)

lemma ex_lin_written:
  "written (snd (main_lin ex_env ex_args [])) =
     [(str ''out/in_with_mix.csv'',
       \<lparr>columns = [str ''en'', str ''fr'', str ''placeholder_text'', str ''mix''],
        rows = [[(str ''en'', Str (str ''good morning'')), (str ''fr'', Str (str ''bonjour'')),
                 (str ''placeholder_text'', Str (str ''ok'')), (str ''mix'', Str (str ''ok''))]]\<rparr>)]"
  by (simp add: main_lin_def ex_defs io_defs pd_defs get_switching_points_lin_def
      code_switch_text_lin_def)

lemma ex_rev_written:
  "written (snd (main_rev ex_env ex_args [])) =
     [(str ''out/in_reverse_mix.csv'',
       \<lparr>columns = [str ''en'', str ''fr'', str ''masked_target'', str ''mix''],
        rows = [[(str ''en'', Str (str ''good morning'')), (str ''fr'', Str (str ''bonjour'')),
                 (str ''masked_target'', Str (str ''ok'')), (str ''mix'', Str (str ''ok''))]]\<rparr>)]"
  by (simp add: main_rev_def ex_defs io_defs pd_defs mask_target_points_def
      insert_english_words_def)

lemma ex_multi_written:
  "written (snd (main_multi ex_env ex_multi_args [])) =
     [(str ''out/in_with_mix.csv'',
       \<lparr>columns = [str ''en'', str ''fr'', str ''placeholder_text'', str ''mix''],
        rows = [[(str ''en'', Str (str ''good morning'')), (str ''fr'', Str (str ''bonjour'')),
                 (str ''placeholder_text'', Str (str ''ok'')), (str ''mix'', Str (str ''ok''))]]\<rparr>)]"
  by (simp add: main_multi_def ex_defs io_defs pd_defs get_switching_points_multi_def
      code_switch_multi_def split_on_def Let_def)

lemma ex_rnd_written:
  "written (snd (main_rnd ex_env ex_args [])) =
     [(str ''out/in_rnd_mix.csv'',
       \<lparr>columns = [str ''en'', str ''fr'', str ''placeholder_text'', str ''mix''],
        rows = [[(str ''en'', Str (str ''good morning'')), (str ''fr'', Str (str ''bonjour'')),
                 (str ''placeholder_text'', Str (str ''####### morning'')),
                 (str ''mix'', Str (str ''ok''))]]\<rparr>)]"
  by (simp add: main_rnd_def ex_defs io_defs pd_defs insert_placeholders_random_io_def
      insert_placeholders_random_def split_def random_sample_def placeholder_def
      code_switch_text_rnd_def)

lemma ex_frame_new_columns:
  "col_placeholder_text \<notin> set (columns ex_frame)" "col_masked_target \<notin> set (columns ex_frame)"
  "csw_column_name ex_args \<notin> set (columns ex_frame)"
  "csw_column_name ex_multi_args \<notin> set (columns ex_frame)"
  by (simp_all add: ex_defs pd_defs)

lemma ex_lin_empty:
  "main_lin ex_env_empty ex_args [] =
     (Inr (),
      [ReadCsv (str ''in''),
       Invoke (prompt_code_switch_text_lin (str ''nan'') (str ''nan'') (str ''French'')),
       ToCsv (str ''out/in_with_mix.csv'')
         \<lparr>columns = [str ''en'', str ''fr'', str ''placeholder_text'', str ''mix''],
          rows = []\<rparr>])"
  by (simp add: main_lin_def ex_defs io_defs pd_defs get_switching_points_lin_def
      code_switch_text_lin_def)

section \<open>The requests of a complete run\<close>

lemma collect_nan_row:
  "collect (map (\<lambda>c. row_get (nan_row df) c) cs) = Inr ts \<Longrightarrow>
   ts = map (\<lambda>c. NonStr (str ''nan'')) cs"
  by (induction cs arbitrary: ts) (auto simp: row_get_nan_row split: if_splits sum.splits)

lemma nan_request_single:
  "fill_request mid [c] (\<lambda>p ts. g p (format_cell (hd ts))) (nan_row df) = Some q \<Longrightarrow>
   q = g (str ''nan'') (str ''nan'')"
  by (auto simp: fill_request_single row_get_nan_row split: if_splits)

lemma nan_request_many:
  "fill_request mid cs (\<lambda>p ts. g p ts) (nan_row df) = Some q \<Longrightarrow>
   q = g (str ''nan'') (map (\<lambda>c. NonStr (str ''nan'')) cs)"
proof -
  assume "fill_request mid cs (\<lambda>p ts. g p ts) (nan_row df) = Some q"
  then obtain p ts where p: "row_get (nan_row df) mid = Inr p"
    and ts: "collect (map (\<lambda>c. row_get (nan_row df) c) cs) = Inr ts"
    and q: "q = g (format_cell p) ts"
    unfolding fill_request_many by blast
  from p have "p = NonStr (str ''nan'')" by (simp add: row_get_nan_row split: if_splits)
  with q collect_nan_row [OF ts] show ?thesis by simp
qed

lemma complete_empty:
  assumes f: "length fills \<le> length (called_rows df2)"
       "map (fill_request mid cols G) (take (length fills) (called_rows df2)) = map Some fills"
       "rows df2 = [] \<and> fills = [] \<longrightarrow> length (columns df2) = 1 \<and>
          fill_request mid cols G (nan_row df2) = None"
    and m: "length mixed = length (rows df2)"
    and em: "rows (set_column csw (map Str mixed) df2) = []"
  shows "(\<exists>q. fill_request mid cols G (nan_row df2) = Some q \<and> fills = [q]) \<or>
         fills = [] \<and> length (columns (set_column csw (map Str mixed) df2)) \<le> 2"
proof -
  from em m have e: "rows df2 = []" by (auto simp: set_column_def)
  show ?thesis
  proof (cases fills)
    case Nil
    with f(3) e have "length (columns df2) = 1" by simp
    with Nil show ?thesis by (simp add: columns_set_column)
  next
    case (Cons q qs)
    with f(1) e have qs: "qs = []" by (simp add: called_rows_empty)
    with f(2) Cons e have "fill_request mid cols G (nan_row df2) = Some q"
      by (simp add: called_rows_empty)
    with Cons qs show ?thesis by simp
  qed
qed

text \<open>
  Claim C2, as amended. In a run that succeeds and writes a frame with rows, the
  linguistically motivated and the reverse script send two requests for every row of
  the frame they write, one with the masking prompt and one with the filling prompt,
  and the two prompts differ; the multi-language script does the same unless its input
  already has a \<open>placeholder_text\<close> column, in which case it sends only the filling
  request; the random script sends only the filling request, since it masks without the
  service. When the frame has no rows, no masking request is sent and the fill stage is
  still called once, on a row of missing values: one filling request is sent, made from
  the texts \<^verbatim>\<open>nan\<close> (or none, which can only happen for a frame of a single column). In
  all four scripts the frame is written after all requests.
\<close>

theorem requests_per_row:
  "(main_lin E A [] = (Inr (), tr) \<longrightarrow>
      (\<exists>masks fills pre p df. tr = pre @ [ToCsv p df] \<and> written pre = [] \<and>
         requests tr = masks @ fills \<and> length masks = length (rows df) \<and>
         (rows df \<noteq> [] \<longrightarrow> length fills = length (rows df)) \<and>
         (rows df = [] \<longrightarrow>
            fills = [prompt_code_switch_text_lin (str ''nan'') (str ''nan'') (target_language A)] \<or>
            fills = [] \<and> length (columns df) \<le> 2) \<and>
         (\<forall>i<length masks. \<exists>x. masks ! i = prompt_get_switching_points_lin x) \<and>
         (\<forall>i<length fills. \<exists>x y. fills ! i = prompt_code_switch_text_lin x y (target_language A)) \<and>
         (\<forall>i<length (rows df). masks ! i \<noteq> fills ! i))) \<and>
   (main_rev E A [] = (Inr (), tr) \<longrightarrow>
      (\<exists>masks fills pre p df. tr = pre @ [ToCsv p df] \<and> written pre = [] \<and>
         requests tr = masks @ fills \<and> length masks = length (rows df) \<and>
         (rows df \<noteq> [] \<longrightarrow> length fills = length (rows df)) \<and>
         (rows df = [] \<longrightarrow>
            fills = [prompt_insert_english_words (str ''nan'') (str ''nan'') (target_language A)] \<or>
            fills = [] \<and> length (columns df) \<le> 2) \<and>
         (\<forall>i<length masks. \<exists>x. masks ! i = prompt_mask_target_points x (target_language A)) \<and>
         (\<forall>i<length fills. \<exists>x y. fills ! i = prompt_insert_english_words x y (target_language A)) \<and>
         (\<forall>i<length (rows df). masks ! i \<noteq> fills ! i))) \<and>
   (main_multi E M [] = (Inr (), tr) \<longrightarrow>
      (\<exists>df0 masks fills pre p df. read_csv E (input_csv M) = Inr df0 \<and>
         tr = pre @ [ToCsv p df] \<and> written pre = [] \<and>
         requests tr = masks @ fills \<and>
         length masks = (if col_placeholder_text \<in> set (columns df0) then 0 else length (rows df)) \<and>
         (rows df \<noteq> [] \<longrightarrow> length fills = length (rows df)) \<and>
         (rows df = [] \<longrightarrow>
            fills = [prompt_code_switch_multi (str ''nan'')
                       (parallel_section (map strip (split_on 44 (target_languages M)))
                          (map (\<lambda>c. NonStr (str ''nan''))
                             (map strip (split_on 44 (target_columns M)))))] \<or>
            fills = [] \<and> length (columns df) \<le> 2) \<and>
         (\<forall>i<length masks. \<exists>x. masks ! i = prompt_get_switching_points_multi x) \<and>
         (\<forall>i<length fills. \<exists>x y. fills ! i = prompt_code_switch_multi x y) \<and>
         (\<forall>i<length masks. masks ! i \<noteq> fills ! i))) \<and>
   (main_rnd E A [] = (Inr (), tr) \<longrightarrow>
      (\<exists>fills pre p df. tr = pre @ [ToCsv p df] \<and> written pre = [] \<and>
         requests tr = fills \<and>
         (rows df \<noteq> [] \<longrightarrow> length fills = length (rows df)) \<and>
         (rows df = [] \<longrightarrow>
            fills = [prompt_code_switch_text_rnd (str ''nan'') (str ''nan'') (target_language A)] \<or>
            fills = [] \<and> length (columns df) \<le> 2) \<and>
         (\<forall>i<length fills. \<exists>x y. fills ! i = prompt_code_switch_text_rnd x y (target_language A))))"
proof (intro conjI impI)
  assume run: "main_lin E A [] = (Inr (), tr)"
  let ?P = "\<lambda>v. prompt_get_switching_points_lin (format_cell v)"
  let ?G = "\<lambda>p ts. prompt_code_switch_text_lin p (format_cell (hd ts)) (target_language A)"
  let ?mid = "col_placeholder_text"
  let ?cs = "[target_column A]"
  have w: "written tr \<noteq> [] \<or> (Inr () :: error + unit) = Inr ()" by simp
  from main_lin_complete [OF run w] obtain df1 df2 vals fills mixed p where
    v: "get_column (source_column A) df1 = Inr vals"
    and n: "length (rows df2) = length (rows df1)"
    and f: "length fills \<le> length (called_rows df2)"
       "map (fill_request col_placeholder_text [target_column A] ?G) (take (length fills) (called_rows df2)) = map Some fills"
       "rows df2 \<noteq> [] \<longrightarrow> length fills = length (rows df2)"
       "rows df2 = [] \<and> fills = [] \<longrightarrow> length (columns df2) = 1 \<and>
          fill_request col_placeholder_text [target_column A] ?G (nan_row df2) = None"
    and m: "length mixed = length (rows df2)"
    and t: "tr = ReadCsv (input_csv A) # map (\<lambda>v. Invoke (?P v)) vals @ map Invoke fills
          @ [ToCsv p (set_column (csw_column_name A) (map Str mixed) df2)]"
    by (elim exE conjE) (rule that; assumption)
  let ?df = "set_column (csw_column_name A) (map Str mixed) df2"
  have l: "length (rows ?df) = length (rows df2)" using m by (simp add: rows_set_column)
  have lv: "length vals = length (rows df2)" using get_column_length [OF v] n by simp
  have fl: "\<forall>i<length fills. \<exists>x y. fills ! i = prompt_code_switch_text_lin x y (target_language A)"
  proof (intro allI impI)
    fix i assume i: "i < length fills"
    from fills_single [OF f(2) i]
    show "\<exists>x y. fills ! i = prompt_code_switch_text_lin x y (target_language A)" by blast
  qed
  have em: "rows ?df = [] \<longrightarrow>
            fills = [prompt_code_switch_text_lin (str ''nan'') (str ''nan'') (target_language A)] \<or>
            fills = [] \<and> length (columns ?df) \<le> 2"
  proof
    assume e: "rows ?df = []"
    from complete_empty [OF f(1,2,4) m e] show "fills = [prompt_code_switch_text_lin (str ''nan'') (str ''nan'') (target_language A)] \<or>
            fills = [] \<and> length (columns ?df) \<le> 2"
    proof
      assume "\<exists>q. fill_request ?mid ?cs ?G (nan_row df2) = Some q \<and> fills = [q]"
      then obtain q where q: "fill_request ?mid ?cs ?G (nan_row df2) = Some q" "fills = [q]"
        by blast
      from nan_request_single [where g = "\<lambda>p t. prompt_code_switch_text_lin p t (target_language A)", OF q(1)] q(2) show ?thesis by simp
    next
      assume "fills = [] \<and> length (columns ?df) \<le> 2"
      then show ?thesis by simp
    qed
  qed
  have ne: "rows ?df \<noteq> [] \<longrightarrow> length fills = length (rows ?df)"
    using f(3) l by auto
  have df: "\<forall>i<length (rows ?df). map ?P vals ! i \<noteq> fills ! i"
  proof (intro allI impI)
    fix i assume "i < length (rows ?df)"
    with l lv ne have i: "i < length vals" "i < length fills" by auto
    from fl i(2) obtain x y where "fills ! i = prompt_code_switch_text_lin x y (target_language A)" by blast
    with i(1) show "map ?P vals ! i \<noteq> fills ! i" using lin_prompts_differ by simp
  qed
  have mk: "\<forall>i<length (map ?P vals). \<exists>x. map ?P vals ! i = prompt_get_switching_points_lin x"
    by auto
  show "\<exists>masks fills pre p df. tr = pre @ [ToCsv p df] \<and> written pre = [] \<and>
         requests tr = masks @ fills \<and> length masks = length (rows df) \<and>
         (rows df \<noteq> [] \<longrightarrow> length fills = length (rows df)) \<and>
         (rows df = [] \<longrightarrow>
            fills = [prompt_code_switch_text_lin (str ''nan'') (str ''nan'') (target_language A)] \<or>
            fills = [] \<and> length (columns df) \<le> 2) \<and>
         (\<forall>i<length masks. \<exists>x. masks ! i = prompt_get_switching_points_lin x) \<and>
         (\<forall>i<length fills. \<exists>x y. fills ! i = prompt_code_switch_text_lin x y (target_language A)) \<and>
         (\<forall>i<length (rows df). masks ! i \<noteq> fills ! i)"
    apply (rule exI [of _ "map ?P vals"], rule exI [of _ fills])
    apply (rule exI [of _ "ReadCsv (input_csv A) # map (\<lambda>v. Invoke (?P v)) vals @ map Invoke fills"])
    apply (rule exI [of _ p], rule exI [of _ ?df])
    apply (intro conjI)
    using t apply simp
    apply (simp add: written_append written_map_Invoke written_Invoke)
    using t apply (simp add: requests_append requests_map_Invoke requests_Invoke)
    using l lv apply simp
    using ne apply blast
    using em apply blast
    using mk apply blast
    using fl apply blast
    using df apply blast
    done
next
  assume run: "main_rev E A [] = (Inr (), tr)"
  let ?P = "\<lambda>v. prompt_mask_target_points (format_cell v) (target_language A)"
  let ?G = "\<lambda>p ts. prompt_insert_english_words p (format_cell (hd ts)) (target_language A)"
  let ?mid = "col_masked_target"
  let ?cs = "[source_column A]"
  have w: "written tr \<noteq> [] \<or> (Inr () :: error + unit) = Inr ()" by simp
  from main_rev_complete [OF run w] obtain df1 df2 vals fills mixed p where
    v: "get_column (target_column A) df1 = Inr vals"
    and n: "length (rows df2) = length (rows df1)"
    and f: "length fills \<le> length (called_rows df2)"
       "map (fill_request col_masked_target [source_column A] ?G) (take (length fills) (called_rows df2)) = map Some fills"
       "rows df2 \<noteq> [] \<longrightarrow> length fills = length (rows df2)"
       "rows df2 = [] \<and> fills = [] \<longrightarrow> length (columns df2) = 1 \<and>
          fill_request col_masked_target [source_column A] ?G (nan_row df2) = None"
    and m: "length mixed = length (rows df2)"
    and t: "tr = ReadCsv (input_csv A) # map (\<lambda>v. Invoke (?P v)) vals @ map Invoke fills
          @ [ToCsv p (set_column (csw_column_name A) (map Str mixed) df2)]"
    by (elim exE conjE) (rule that; assumption)
  let ?df = "set_column (csw_column_name A) (map Str mixed) df2"
  have l: "length (rows ?df) = length (rows df2)" using m by (simp add: rows_set_column)
  have lv: "length vals = length (rows df2)" using get_column_length [OF v] n by simp
  have fl: "\<forall>i<length fills. \<exists>x y. fills ! i = prompt_insert_english_words x y (target_language A)"
  proof (intro allI impI)
    fix i assume i: "i < length fills"
    from fills_single [OF f(2) i]
    show "\<exists>x y. fills ! i = prompt_insert_english_words x y (target_language A)" by blast
  qed
  have em: "rows ?df = [] \<longrightarrow>
            fills = [prompt_insert_english_words (str ''nan'') (str ''nan'') (target_language A)] \<or>
            fills = [] \<and> length (columns ?df) \<le> 2"
  proof
    assume e: "rows ?df = []"
    from complete_empty [OF f(1,2,4) m e] show "fills = [prompt_insert_english_words (str ''nan'') (str ''nan'') (target_language A)] \<or>
            fills = [] \<and> length (columns ?df) \<le> 2"
    proof
      assume "\<exists>q. fill_request ?mid ?cs ?G (nan_row df2) = Some q \<and> fills = [q]"
      then obtain q where q: "fill_request ?mid ?cs ?G (nan_row df2) = Some q" "fills = [q]"
        by blast
      from nan_request_single [where g = "\<lambda>p t. prompt_insert_english_words p t (target_language A)", OF q(1)] q(2) show ?thesis by simp
    next
      assume "fills = [] \<and> length (columns ?df) \<le> 2"
      then show ?thesis by simp
    qed
  qed
  have ne: "rows ?df \<noteq> [] \<longrightarrow> length fills = length (rows ?df)"
    using f(3) l by auto
  have df: "\<forall>i<length (rows ?df). map ?P vals ! i \<noteq> fills ! i"
  proof (intro allI impI)
    fix i assume "i < length (rows ?df)"
    with l lv ne have i: "i < length vals" "i < length fills" by auto
    from fl i(2) obtain x y where "fills ! i = prompt_insert_english_words x y (target_language A)" by blast
    with i(1) show "map ?P vals ! i \<noteq> fills ! i" using rev_prompts_differ by simp
  qed
  have mk: "\<forall>i<length (map ?P vals). \<exists>x. map ?P vals ! i = prompt_mask_target_points x (target_language A)"
    by auto
  show "\<exists>masks fills pre p df. tr = pre @ [ToCsv p df] \<and> written pre = [] \<and>
         requests tr = masks @ fills \<and> length masks = length (rows df) \<and>
         (rows df \<noteq> [] \<longrightarrow> length fills = length (rows df)) \<and>
         (rows df = [] \<longrightarrow>
            fills = [prompt_insert_english_words (str ''nan'') (str ''nan'') (target_language A)] \<or>
            fills = [] \<and> length (columns df) \<le> 2) \<and>
         (\<forall>i<length masks. \<exists>x. masks ! i = prompt_mask_target_points x (target_language A)) \<and>
         (\<forall>i<length fills. \<exists>x y. fills ! i = prompt_insert_english_words x y (target_language A)) \<and>
         (\<forall>i<length (rows df). masks ! i \<noteq> fills ! i)"
    apply (rule exI [of _ "map ?P vals"], rule exI [of _ fills])
    apply (rule exI [of _ "ReadCsv (input_csv A) # map (\<lambda>v. Invoke (?P v)) vals @ map Invoke fills"])
    apply (rule exI [of _ p], rule exI [of _ ?df])
    apply (intro conjI)
    using t apply simp
    apply (simp add: written_append written_map_Invoke written_Invoke)
    using t apply (simp add: requests_append requests_map_Invoke requests_Invoke)
    using l lv apply simp
    using ne apply blast
    using em apply blast
    using mk apply blast
    using fl apply blast
    using df apply blast
    done
next
  assume run: "main_multi E M [] = (Inr (), tr)"
  let ?P = "\<lambda>v. prompt_get_switching_points_multi (format_cell v)"
  let ?cols = "map strip (split_on 44 (target_columns M))"
  let ?langs = "map strip (split_on 44 (target_languages M))"
  let ?G = "\<lambda>p ts. prompt_code_switch_multi p (parallel_section ?langs ts)"
  let ?mid = "col_placeholder_text"
  let ?cs = "?cols"
  have w: "written tr \<noteq> [] \<or> (Inr () :: error + unit) = Inr ()" by simp
  from main_multi_complete [OF run w] obtain df0 df1 df2 vals fills mixed p where
    r: "read_csv E (input_csv M) = Inr df0"
    and s: "sample_unique (source_column M) (sample_size M) df0 = Inr df1"
    and c: "if col_placeholder_text \<in> set (columns df1) then vals = [] \<and> df2 = df1
      else get_column (source_column M) df1 = Inr vals \<and>
        (\<exists>masked. length masked = length vals \<and>
           df2 = set_column col_placeholder_text (map Str masked) df1)"
    and n: "length (rows df2) = length (rows df1)"
    and f: "length fills \<le> length (called_rows df2)"
       "map (fill_request col_placeholder_text ?cols ?G) (take (length fills) (called_rows df2))
          = map Some fills"
       "rows df2 \<noteq> [] \<longrightarrow> length fills = length (rows df2)"
       "rows df2 = [] \<and> fills = [] \<longrightarrow> length (columns df2) = 1 \<and>
          fill_request col_placeholder_text ?cols ?G (nan_row df2) = None"
    and m: "length mixed = length (rows df2)"
    and t: "tr = ReadCsv (input_csv M) # map (\<lambda>v. Invoke (?P v)) vals @ map Invoke fills
          @ [ToCsv p (set_column (csw_column_name M) (map Str mixed) df2)]"
    by (elim exE conjE) (rule that; assumption)
  let ?df = "set_column (csw_column_name M) (map Str mixed) df2"
  have l: "length (rows ?df) = length (rows df2)" using m by (simp add: rows_set_column)
  have cs: "columns df1 = columns df0" using s by (rule columns_sample_unique)
  have lv: "length vals = (if col_placeholder_text \<in> set (columns df0) then 0 else length (rows df2))"
    using c cs n by (auto dest: get_column_length split: if_splits)
  have fl: "\<forall>i<length fills. \<exists>x y. fills ! i = prompt_code_switch_multi x y"
  proof (intro allI impI)
    fix i assume i: "i < length fills"
    from fills_many [OF f(2) i] show "\<exists>x y. fills ! i = prompt_code_switch_multi x y" by blast
  qed
  have em: "rows ?df = [] \<longrightarrow>
            fills = [prompt_code_switch_multi (str ''nan'')
                       (parallel_section ?langs (map (\<lambda>c. NonStr (str ''nan'')) ?cols))] \<or>
            fills = [] \<and> length (columns ?df) \<le> 2"
  proof
    assume e: "rows ?df = []"
    from complete_empty [OF f(1,2,4) m e] show "fills = [prompt_code_switch_multi (str ''nan'')
                       (parallel_section ?langs (map (\<lambda>c. NonStr (str ''nan'')) ?cols))] \<or>
            fills = [] \<and> length (columns ?df) \<le> 2"
    proof
      assume "\<exists>q. fill_request ?mid ?cs ?G (nan_row df2) = Some q \<and> fills = [q]"
      then obtain q where q: "fill_request ?mid ?cs ?G (nan_row df2) = Some q" "fills = [q]"
        by blast
      from nan_request_many [where g = "?G", OF q(1)] q(2) show ?thesis by simp
    next
      assume "fills = [] \<and> length (columns ?df) \<le> 2"
      then show ?thesis by simp
    qed
  qed
  have ne: "rows ?df \<noteq> [] \<longrightarrow> length fills = length (rows ?df)"
    using f(3) l by auto
  have mk: "\<forall>i<length (map ?P vals). \<exists>x. map ?P vals ! i = prompt_get_switching_points_multi x"
    by auto
  have df: "\<forall>i<length (map ?P vals). map ?P vals ! i \<noteq> fills ! i"
  proof (intro allI impI)
    fix i assume i: "i < length (map ?P vals)"
    then have "i < length (rows ?df)" using lv l by (auto split: if_splits)
    with ne have "i < length fills" by auto
    with fl obtain x y where "fills ! i = prompt_code_switch_multi x y" by blast
    with i show "map ?P vals ! i \<noteq> fills ! i" using multi_prompts_differ by simp
  qed
  show "\<exists>df0 masks fills pre p df. read_csv E (input_csv M) = Inr df0 \<and>
         tr = pre @ [ToCsv p df] \<and> written pre = [] \<and>
         requests tr = masks @ fills \<and>
         length masks = (if col_placeholder_text \<in> set (columns df0) then 0 else length (rows df)) \<and>
         (rows df \<noteq> [] \<longrightarrow> length fills = length (rows df)) \<and>
         (rows df = [] \<longrightarrow>
            fills = [prompt_code_switch_multi (str ''nan'')
                       (parallel_section (map strip (split_on 44 (target_languages M)))
                          (map (\<lambda>c. NonStr (str ''nan''))
                             (map strip (split_on 44 (target_columns M)))))] \<or>
            fills = [] \<and> length (columns df) \<le> 2) \<and>
         (\<forall>i<length masks. \<exists>x. masks ! i = prompt_get_switching_points_multi x) \<and>
         (\<forall>i<length fills. \<exists>x y. fills ! i = prompt_code_switch_multi x y) \<and>
         (\<forall>i<length masks. masks ! i \<noteq> fills ! i)"
    apply (rule exI [of _ df0], rule exI [of _ "map ?P vals"], rule exI [of _ fills])
    apply (rule exI [of _ "ReadCsv (input_csv M) # map (\<lambda>v. Invoke (?P v)) vals @ map Invoke fills"])
    apply (rule exI [of _ p], rule exI [of _ ?df])
    apply (intro conjI)
    apply (rule r)
    using t apply simp
    apply (simp add: written_append written_map_Invoke written_Invoke)
    using t apply (simp add: requests_append requests_map_Invoke requests_Invoke)
    using l lv apply simp
    using ne apply blast
    using em apply blast
    using mk apply blast
    using fl apply blast
    using df apply blast
    done
next
  assume run: "main_rnd E A [] = (Inr (), tr)"
  let ?P = "\<lambda>v. Sample (format_cell v)"
  let ?G = "\<lambda>p ts. prompt_code_switch_text_rnd p (format_cell (hd ts)) (target_language A)"
  let ?mid = "col_placeholder_text"
  let ?cs = "[target_column A]"
  have w: "written tr \<noteq> [] \<or> (Inr () :: error + unit) = Inr ()" by simp
  from main_rnd_complete [OF run w] obtain df1 df2 vals fills mixed p where
    v: "get_column (source_column A) df1 = Inr vals"
    and n: "length (rows df2) = length (rows df1)"
    and f: "length fills \<le> length (called_rows df2)"
       "map (fill_request col_placeholder_text [target_column A] ?G) (take (length fills) (called_rows df2)) = map Some fills"
       "rows df2 \<noteq> [] \<longrightarrow> length fills = length (rows df2)"
       "rows df2 = [] \<and> fills = [] \<longrightarrow> length (columns df2) = 1 \<and>
          fill_request col_placeholder_text [target_column A] ?G (nan_row df2) = None"
    and m: "length mixed = length (rows df2)"
    and t: "tr = ReadCsv (input_csv A) # map (\<lambda>v. Sample (format_cell v)) vals @ map Invoke fills
          @ [ToCsv p (set_column (csw_column_name A) (map Str mixed) df2)]"
    by (elim exE conjE) (rule that; assumption)
  let ?df = "set_column (csw_column_name A) (map Str mixed) df2"
  have l: "length (rows ?df) = length (rows df2)" using m by (simp add: rows_set_column)
  have lv: "length vals = length (rows df2)" using get_column_length [OF v] n by simp
  have fl: "\<forall>i<length fills. \<exists>x y. fills ! i = prompt_code_switch_text_rnd x y (target_language A)"
  proof (intro allI impI)
    fix i assume i: "i < length fills"
    from fills_single [OF f(2) i]
    show "\<exists>x y. fills ! i = prompt_code_switch_text_rnd x y (target_language A)" by blast
  qed
  have em: "rows ?df = [] \<longrightarrow>
            fills = [prompt_code_switch_text_rnd (str ''nan'') (str ''nan'') (target_language A)] \<or>
            fills = [] \<and> length (columns ?df) \<le> 2"
  proof
    assume e: "rows ?df = []"
    from complete_empty [OF f(1,2,4) m e] show "fills = [prompt_code_switch_text_rnd (str ''nan'') (str ''nan'') (target_language A)] \<or>
            fills = [] \<and> length (columns ?df) \<le> 2"
    proof
      assume "\<exists>q. fill_request ?mid ?cs ?G (nan_row df2) = Some q \<and> fills = [q]"
      then obtain q where q: "fill_request ?mid ?cs ?G (nan_row df2) = Some q" "fills = [q]"
        by blast
      from nan_request_single [where g = "\<lambda>p t. prompt_code_switch_text_rnd p t (target_language A)", OF q(1)] q(2) show ?thesis by simp
    next
      assume "fills = [] \<and> length (columns ?df) \<le> 2"
      then show ?thesis by simp
    qed
  qed
  have ne: "rows ?df \<noteq> [] \<longrightarrow> length fills = length (rows ?df)"
    using f(3) l by auto
  show "\<exists>fills pre p df. tr = pre @ [ToCsv p df] \<and> written pre = [] \<and>
         requests tr = fills \<and>
         (rows df \<noteq> [] \<longrightarrow> length fills = length (rows df)) \<and>
         (rows df = [] \<longrightarrow>
            fills = [prompt_code_switch_text_rnd (str ''nan'') (str ''nan'') (target_language A)] \<or>
            fills = [] \<and> length (columns df) \<le> 2) \<and>
         (\<forall>i<length fills. \<exists>x y. fills ! i = prompt_code_switch_text_rnd x y (target_language A))"
    apply (rule exI [of _ fills])
    apply (rule exI [of _ "ReadCsv (input_csv A) # map (\<lambda>v. Sample (format_cell v)) vals @ map Invoke fills"])
    apply (rule exI [of _ p], rule exI [of _ ?df])
    apply (intro conjI)
    using t apply simp
    apply (simp add: written_append written_map_Sample written_Invoke)
    using t apply (simp add: requests_append requests_map_Sample requests_Invoke)
    using ne apply blast
    using em apply blast
    using fl apply blast
    done
qed

theorem requests_per_row_witness:
  "(\<exists>pre p df. snd (main_lin ex_env ex_args []) = pre @ [ToCsv p df] \<and> written pre = [] \<and>
      rows df \<noteq> [] \<and>
      length (requests (snd (main_lin ex_env ex_args []))) = 2 * length (rows df)) \<and>
   (\<exists>pre p df. snd (main_rev ex_env ex_args []) = pre @ [ToCsv p df] \<and> written pre = [] \<and>
      rows df \<noteq> [] \<and>
      length (requests (snd (main_rev ex_env ex_args []))) = 2 * length (rows df)) \<and>
   (\<exists>pre p df. snd (main_multi ex_env ex_multi_args []) = pre @ [ToCsv p df] \<and> written pre = [] \<and>
      rows df \<noteq> [] \<and>
      length (requests (snd (main_multi ex_env ex_multi_args []))) = 2 * length (rows df)) \<and>
   (\<exists>pre p df. snd (main_rnd ex_env ex_args []) = pre @ [ToCsv p df] \<and> written pre = [] \<and>
      rows df \<noteq> [] \<and>
      length (requests (snd (main_rnd ex_env ex_args []))) = length (rows df)) \<and>
   (\<exists>pre p df. snd (main_lin ex_env_empty ex_args []) = pre @ [ToCsv p df] \<and> rows df = [] \<and>
      requests (snd (main_lin ex_env_empty ex_args [])) =
        [prompt_code_switch_text_lin (str ''nan'') (str ''nan'') (str ''French'')])"
proof -
  have h1: "main_lin ex_env ex_args [] = (Inr (), snd (main_lin ex_env ex_args []))"
    using ex_lin by (metis prod.collapse)
  have h2: "main_rev ex_env ex_args [] = (Inr (), snd (main_rev ex_env ex_args []))"
    using ex_rev by (metis prod.collapse)
  have h3: "main_multi ex_env ex_multi_args []
      = (Inr (), snd (main_multi ex_env ex_multi_args []))"
    using ex_multi by (metis prod.collapse)
  have h4: "main_rnd ex_env ex_args [] = (Inr (), snd (main_rnd ex_env ex_args []))"
    using ex_rnd by (metis prod.collapse)
  have h5: "main_lin ex_env_empty ex_args [] = (Inr (), snd (main_lin ex_env_empty ex_args []))"
    by (simp add: ex_lin_empty)
  have c: "col_placeholder_text \<notin> set (columns ex_frame)"
    by (simp add: ex_frame_def col_placeholder_text_def str_def)
  have one: "length (rows df) = 1" if "tr = pre @ [ToCsv p df]" "written pre = []"
    "written tr = [(q, \<lparr>columns = cs, rows = [x]\<rparr>)]" for tr pre p df q cs x
    using that by (auto simp: written_append)
  from requests_per_row [where E = ex_env and A = ex_args
      and tr = "snd (main_lin ex_env ex_args [])", THEN conjunct1, rule_format, OF h1]
  obtain masks fills pre p df where x:
     "snd (main_lin ex_env ex_args []) = pre @ [ToCsv p df]" "written pre = []"
     "requests (snd (main_lin ex_env ex_args [])) = masks @ fills"
     "length masks = length (rows df)" "rows df \<noteq> [] \<longrightarrow> length fills = length (rows df)"
    by blast
  from one [OF x(1,2) ex_lin_written] x
  have 1: "\<exists>pre p df. snd (main_lin ex_env ex_args []) = pre @ [ToCsv p df] \<and>
      written pre = [] \<and> rows df \<noteq> [] \<and>
      length (requests (snd (main_lin ex_env ex_args []))) = 2 * length (rows df)"
    by (intro exI [of _ pre] exI [of _ p] exI [of _ df]) auto
  from requests_per_row [where E = ex_env and A = ex_args
      and tr = "snd (main_rev ex_env ex_args [])", THEN conjunct2, THEN conjunct1,
      rule_format, OF h2]
  obtain masks fills pre p df where x:
     "snd (main_rev ex_env ex_args []) = pre @ [ToCsv p df]" "written pre = []"
     "requests (snd (main_rev ex_env ex_args [])) = masks @ fills"
     "length masks = length (rows df)" "rows df \<noteq> [] \<longrightarrow> length fills = length (rows df)"
    by blast
  from one [OF x(1,2) ex_rev_written] x
  have 2: "\<exists>pre p df. snd (main_rev ex_env ex_args []) = pre @ [ToCsv p df] \<and>
      written pre = [] \<and> rows df \<noteq> [] \<and>
      length (requests (snd (main_rev ex_env ex_args []))) = 2 * length (rows df)"
    by (intro exI [of _ pre] exI [of _ p] exI [of _ df]) auto
  from requests_per_row [where E = ex_env and M = ex_multi_args
      and tr = "snd (main_multi ex_env ex_multi_args [])", THEN conjunct2, THEN conjunct2,
      THEN conjunct1, rule_format, OF h3]
  obtain df0 masks fills pre p df where x:
     "read_csv ex_env (input_csv ex_multi_args) = Inr df0"
     "snd (main_multi ex_env ex_multi_args []) = pre @ [ToCsv p df]" "written pre = []"
     "requests (snd (main_multi ex_env ex_multi_args [])) = masks @ fills"
     "length masks = (if col_placeholder_text \<in> set (columns df0) then 0 else length (rows df))"
     "rows df \<noteq> [] \<longrightarrow> length fills = length (rows df)"
    by blast
  from x(1) have "df0 = ex_frame" by (simp add: ex_env_def)
  with one [OF x(2,3) ex_multi_written] x c
  have 3: "\<exists>pre p df. snd (main_multi ex_env ex_multi_args []) = pre @ [ToCsv p df] \<and>
      written pre = [] \<and> rows df \<noteq> [] \<and>
      length (requests (snd (main_multi ex_env ex_multi_args []))) = 2 * length (rows df)"
    by (intro exI [of _ pre] exI [of _ p] exI [of _ df]) auto
  from requests_per_row [where E = ex_env and A = ex_args
      and tr = "snd (main_rnd ex_env ex_args [])", THEN conjunct2, THEN conjunct2,
      THEN conjunct2, rule_format, OF h4]
  obtain fills pre p df where x:
     "snd (main_rnd ex_env ex_args []) = pre @ [ToCsv p df]" "written pre = []"
     "requests (snd (main_rnd ex_env ex_args [])) = fills"
     "rows df \<noteq> [] \<longrightarrow> length fills = length (rows df)"
    by blast
  from one [OF x(1,2) ex_rnd_written] x
  have 4: "\<exists>pre p df. snd (main_rnd ex_env ex_args []) = pre @ [ToCsv p df] \<and>
      written pre = [] \<and> rows df \<noteq> [] \<and>
      length (requests (snd (main_rnd ex_env ex_args []))) = length (rows df)"
    by (intro exI [of _ pre] exI [of _ p] exI [of _ df]) auto
  from requests_per_row [where E = ex_env_empty and A = ex_args
      and tr = "snd (main_lin ex_env_empty ex_args [])", THEN conjunct1, rule_format, OF h5]
  obtain masks fills pre p df where x:
     "snd (main_lin ex_env_empty ex_args []) = pre @ [ToCsv p df]" "written pre = []"
     "requests (snd (main_lin ex_env_empty ex_args [])) = masks @ fills"
     "length masks = length (rows df)"
     "rows df = [] \<longrightarrow>
        fills = [prompt_code_switch_text_lin (str ''nan'') (str ''nan'') (target_language ex_args)] \<or>
        fills = [] \<and> length (columns df) \<le> 2"
    by blast
  from x(1,2) have df: "df = \<lparr>columns = [str ''en'', str ''fr'', str ''placeholder_text'', str ''mix''],
          rows = []\<rparr>"
    by (auto simp: ex_lin_empty written_append dest: arg_cong [where f = written])
  with x have 5: "\<exists>pre p df. snd (main_lin ex_env_empty ex_args []) = pre @ [ToCsv p df] \<and>
      rows df = [] \<and>
      requests (snd (main_lin ex_env_empty ex_args [])) =
        [prompt_code_switch_text_lin (str ''nan'') (str ''nan'') (str ''French'')]"
    by (intro exI [of _ pre] exI [of _ p] exI [of _ df]) (auto simp: ex_args_def)
  from 1 2 3 4 5 show ?thesis by (intro conjI)
qed

theorem requests_per_row_counterexample:
  "fst (main_rnd ex_env ex_args []) = Inr () \<and> length (rows ex_frame) = 1 \<and>
   requests (snd (main_rnd ex_env ex_args [])) =
     [prompt_code_switch_text_rnd (str ''####### morning'') (str ''bonjour'') (str ''French'')]"
  using ex_rnd ex_rnd_requests by (simp add: ex_frame_def)

text \<open>
  Claim C9. In every script, when neither the name of the intermediate column nor the
  name given for the mixed column is a column of the input, the frame that is written
  has the columns of the input followed by the two new ones, as many rows as were
  retained by the sampling step, and in every row the value of every input column is
  the value it has in the retained row.
\<close>

theorem existing_columns_unchanged:
  "(main_lin E A [] = (r, tr) \<and> (p, out) \<in> set (written tr) \<and>
    read_csv E (input_csv A) = Inr df0 \<and>
    col_placeholder_text \<notin> set (columns df0) \<and> csw_column_name A \<notin> set (columns df0) \<longrightarrow>
      (\<exists>df1. sample_unique (source_column A) (sample_size A) df0 = Inr df1 \<and>
         columns out = columns df0 @
           (if csw_column_name A = col_placeholder_text then [col_placeholder_text]
            else [col_placeholder_text, csw_column_name A]) \<and>
         length (rows out) = length (rows df1) \<and>
         (\<forall>i<length (rows df1). \<forall>c\<in>set (columns df0).
            row_get (rows out ! i) c = row_get (rows df1 ! i) c))) \<and>
   (main_rev E A [] = (r, tr) \<and> (p, out) \<in> set (written tr) \<and>
    read_csv E (input_csv A) = Inr df0 \<and>
    col_masked_target \<notin> set (columns df0) \<and> csw_column_name A \<notin> set (columns df0) \<longrightarrow>
      (\<exists>df1. sample_unique (target_column A) (sample_size A) df0 = Inr df1 \<and>
         columns out = columns df0 @
           (if csw_column_name A = col_masked_target then [col_masked_target]
            else [col_masked_target, csw_column_name A]) \<and>
         length (rows out) = length (rows df1) \<and>
         (\<forall>i<length (rows df1). \<forall>c\<in>set (columns df0).
            row_get (rows out ! i) c = row_get (rows df1 ! i) c))) \<and>
   (main_multi E M [] = (r, tr) \<and> (p, out) \<in> set (written tr) \<and>
    read_csv E (input_csv M) = Inr df0 \<and>
    col_placeholder_text \<notin> set (columns df0) \<and> csw_column_name M \<notin> set (columns df0) \<longrightarrow>
      (\<exists>df1. sample_unique (source_column M) (sample_size M) df0 = Inr df1 \<and>
         columns out = columns df0 @
           (if csw_column_name M = col_placeholder_text then [col_placeholder_text]
            else [col_placeholder_text, csw_column_name M]) \<and>
         length (rows out) = length (rows df1) \<and>
         (\<forall>i<length (rows df1). \<forall>c\<in>set (columns df0).
            row_get (rows out ! i) c = row_get (rows df1 ! i) c))) \<and>
   (main_rnd E A [] = (r, tr) \<and> (p, out) \<in> set (written tr) \<and>
    read_csv E (input_csv A) = Inr df0 \<and>
    col_placeholder_text \<notin> set (columns df0) \<and> csw_column_name A \<notin> set (columns df0) \<longrightarrow>
      (\<exists>df1. sample_first (sample_size A) df0 = Inr df1 \<and>
         columns out = columns df0 @
           (if csw_column_name A = col_placeholder_text then [col_placeholder_text]
            else [col_placeholder_text, csw_column_name A]) \<and>
         length (rows out) = length (rows df1) \<and>
         (\<forall>i<length (rows df1). \<forall>c\<in>set (columns df0).
            row_get (rows out ! i) c = row_get (rows df1 ! i) c)))"
proof (intro conjI impI)
  assume a: "main_lin E A [] = (r, tr) \<and> (p, out) \<in> set (written tr) \<and>
    read_csv E (input_csv A) = Inr df0 \<and>
    col_placeholder_text \<notin> set (columns df0) \<and> csw_column_name A \<notin> set (columns df0)"
  then have run: "main_lin E A [] = (r, tr)" and w: "(p, out) \<in> set (written tr)"
    and d: "read_csv E (input_csv A) = Inr df0"
    and n1: "col_placeholder_text \<notin> set (columns df0)"
    and n2: "csw_column_name A \<notin> set (columns df0)"
    by simp_all
  have s: "\<And>x. sound E (mask_stage E prompt_get_switching_points_lin x)"
    by (rule sound_mask_stage)
  have k: "\<forall>d. sample_unique (source_column A) (sample_size A) df0 = Inr d \<longrightarrow> columns d = columns df0"
    by (auto dest: columns_sample_unique)
  show "\<exists>df1. sample_unique (source_column A) (sample_size A) df0 = Inr df1 \<and>
         columns out = columns df0 @
           (if csw_column_name A = col_placeholder_text then [col_placeholder_text]
            else [col_placeholder_text, csw_column_name A]) \<and>
         length (rows out) = length (rows df1) \<and>
         (\<forall>i<length (rows df1). \<forall>c\<in>set (columns df0).
            row_get (rows out ! i) c = row_get (rows df1 ! i) c)"
    by (rule mask_then_fill_frame [OF s run [unfolded main_lin_shape] w d k n1 n2])
next
  assume a: "main_rev E A [] = (r, tr) \<and> (p, out) \<in> set (written tr) \<and>
    read_csv E (input_csv A) = Inr df0 \<and>
    col_masked_target \<notin> set (columns df0) \<and> csw_column_name A \<notin> set (columns df0)"
  then have run: "main_rev E A [] = (r, tr)" and w: "(p, out) \<in> set (written tr)"
    and d: "read_csv E (input_csv A) = Inr df0"
    and n1: "col_masked_target \<notin> set (columns df0)"
    and n2: "csw_column_name A \<notin> set (columns df0)"
    by simp_all
  have s: "\<And>x. sound E (mask_stage E (\<lambda>txt. prompt_mask_target_points txt (target_language A)) x)"
    by (rule sound_mask_stage)
  have k: "\<forall>d. sample_unique (target_column A) (sample_size A) df0 = Inr d \<longrightarrow> columns d = columns df0"
    by (auto dest: columns_sample_unique)
  show "\<exists>df1. sample_unique (target_column A) (sample_size A) df0 = Inr df1 \<and>
         columns out = columns df0 @
           (if csw_column_name A = col_masked_target then [col_masked_target]
            else [col_masked_target, csw_column_name A]) \<and>
         length (rows out) = length (rows df1) \<and>
         (\<forall>i<length (rows df1). \<forall>c\<in>set (columns df0).
            row_get (rows out ! i) c = row_get (rows df1 ! i) c)"
    by (rule mask_then_fill_frame [OF s run [unfolded main_rev_shape] w d k n1 n2])
next
  assume a: "main_multi E M [] = (r, tr) \<and> (p, out) \<in> set (written tr) \<and>
    read_csv E (input_csv M) = Inr df0 \<and>
    col_placeholder_text \<notin> set (columns df0) \<and> csw_column_name M \<notin> set (columns df0)"
  then have run: "main_multi E M [] = (r, tr)" and w: "(p, out) \<in> set (written tr)"
    and d: "read_csv E (input_csv M) = Inr df0"
    and n1: "col_placeholder_text \<notin> set (columns df0)"
    and n2: "csw_column_name M \<notin> set (columns df0)"
    by simp_all
  have s: "\<And>x. sound E (mask_stage E prompt_get_switching_points_multi x)"
    by (rule sound_mask_stage)
  have eq: "length (map strip (split_on 44 (target_columns M)))
        = length (map strip (split_on 44 (target_languages M)))"
  proof (rule ccontr)
    assume "\<not> ?thesis"
    with run have "tr = []" by (simp add: main_multi_shape io_raise_def del: length_map)
    with w show False by simp
  qed
  from run eq have run': "mask_then_fill E (input_csv M)
     (sample_unique (source_column M) (sample_size M)) True
     (source_column M) (mask_stage E prompt_get_switching_points_multi) col_placeholder_text
     (fill_stage E col_placeholder_text (map strip (split_on 44 (target_columns M)))
        (\<lambda>p ts. prompt_code_switch_multi p
                   (parallel_section (map strip (split_on 44 (target_languages M))) ts)))
     (csw_column_name M)
     (path_join E (output_dir M)
        (path_stem E (input_csv M) @ str ''_with_'' @ csw_column_name M @ str ''.csv'')) []
     = (r, tr)"
    by (simp add: main_multi_shape del: length_map)
  have k: "\<forall>d. sample_unique (source_column M) (sample_size M) df0 = Inr d \<longrightarrow> columns d = columns df0"
    by (auto dest: columns_sample_unique)
  show "\<exists>df1. sample_unique (source_column M) (sample_size M) df0 = Inr df1 \<and>
         columns out = columns df0 @
           (if csw_column_name M = col_placeholder_text then [col_placeholder_text]
            else [col_placeholder_text, csw_column_name M]) \<and>
         length (rows out) = length (rows df1) \<and>
         (\<forall>i<length (rows df1). \<forall>c\<in>set (columns df0).
            row_get (rows out ! i) c = row_get (rows df1 ! i) c)"
    by (rule mask_then_fill_frame [OF s run' w d k n1 n2])
next
  assume a: "main_rnd E A [] = (r, tr) \<and> (p, out) \<in> set (written tr) \<and>
    read_csv E (input_csv A) = Inr df0 \<and>
    col_placeholder_text \<notin> set (columns df0) \<and> csw_column_name A \<notin> set (columns df0)"
  then have run: "main_rnd E A [] = (r, tr)" and w: "(p, out) \<in> set (written tr)"
    and d: "read_csv E (input_csv A) = Inr df0"
    and n1: "col_placeholder_text \<notin> set (columns df0)"
    and n2: "csw_column_name A \<notin> set (columns df0)"
    by simp_all
  have s: "\<And>x. sound E (insert_placeholders_random_io E x)" by (rule sound_random)
  have k: "\<forall>d. sample_first (sample_size A) df0 = Inr d \<longrightarrow> columns d = columns df0"
    by (auto dest: columns_sample_first)
  show "\<exists>df1. sample_first (sample_size A) df0 = Inr df1 \<and>
         columns out = columns df0 @
           (if csw_column_name A = col_placeholder_text then [col_placeholder_text]
            else [col_placeholder_text, csw_column_name A]) \<and>
         length (rows out) = length (rows df1) \<and>
         (\<forall>i<length (rows df1). \<forall>c\<in>set (columns df0).
            row_get (rows out ! i) c = row_get (rows df1 ! i) c)"
    by (rule mask_then_fill_frame [OF s run [unfolded main_rnd_shape] w d k n1 n2])
qed

theorem existing_columns_unchanged_witness:
  "(\<exists>p out. written (snd (main_lin ex_env ex_args [])) = [(p, out)] \<and>
      take 2 (columns out) = columns ex_frame \<and>
      (\<forall>c\<in>set (columns ex_frame). row_get (rows out ! 0) c = row_get (rows ex_frame ! 0) c)) \<and>
   (\<exists>p out. written (snd (main_rev ex_env ex_args [])) = [(p, out)] \<and>
      take 2 (columns out) = columns ex_frame \<and>
      (\<forall>c\<in>set (columns ex_frame). row_get (rows out ! 0) c = row_get (rows ex_frame ! 0) c)) \<and>
   (\<exists>p out. written (snd (main_multi ex_env ex_multi_args [])) = [(p, out)] \<and>
      take 2 (columns out) = columns ex_frame \<and>
      (\<forall>c\<in>set (columns ex_frame). row_get (rows out ! 0) c = row_get (rows ex_frame ! 0) c)) \<and>
   (\<exists>p out. written (snd (main_rnd ex_env ex_args [])) = [(p, out)] \<and>
      take 2 (columns out) = columns ex_frame \<and>
      (\<forall>c\<in>set (columns ex_frame). row_get (rows out ! 0) c = row_get (rows ex_frame ! 0) c))"
proof -
  have rd: "read_csv ex_env (input_csv ex_args) = Inr ex_frame"
    "read_csv ex_env (input_csv ex_multi_args) = Inr ex_frame"
    by (simp_all add: ex_env_def)
  have su: "\<And>key. sample_unique key (sample_size ex_args) ex_frame = Inr ex_frame"
    "\<And>key. sample_unique key (sample_size ex_multi_args) ex_frame = Inr ex_frame"
    "sample_first (sample_size ex_args) ex_frame = Inr ex_frame"
    by (simp_all add: sample_unique_def sample_first_def ex_args_def ex_multi_args_def)
  have two: "length (columns ex_frame) = 2" "0 < length (rows ex_frame)"
    by (simp_all add: ex_frame_def)
  note inst = existing_columns_unchanged [where E = ex_env and A = ex_args
      and M = ex_multi_args and ?df0.0 = ex_frame]
  have use: "take 2 (columns out) = columns ex_frame \<and>
      (\<forall>c\<in>set (columns ex_frame). row_get (rows out ! 0) c = row_get (rows ex_frame ! 0) c)"
    if "\<exists>df1. smp = Inr df1 \<and> columns out = columns ex_frame @ new \<and>
         length (rows out) = length (rows df1) \<and>
         (\<forall>i<length (rows df1). \<forall>c\<in>set (columns ex_frame).
            row_get (rows out ! i) c = row_get (rows df1 ! i) c)"
      and "smp = Inr ex_frame"
    for out new and smp :: "error + dataframe"
    using that two by auto
  let ?t1 = "snd (main_lin ex_env ex_args [])"
  obtain p1 out1 where w1: "written ?t1 = [(p1, out1)]" using ex_lin_written by blast
  then have "(p1, out1) \<in> set (written ?t1)" by simp
  with inst [where tr = ?t1 and r = "fst (main_lin ex_env ex_args [])" and p = p1
      and out = out1, THEN conjunct1] rd ex_frame_new_columns
  have 1: "take 2 (columns out1) = columns ex_frame \<and>
      (\<forall>c\<in>set (columns ex_frame). row_get (rows out1 ! 0) c = row_get (rows ex_frame ! 0) c)"
    by (intro use [OF _ su(1)]) simp
  let ?t2 = "snd (main_rev ex_env ex_args [])"
  obtain p2 out2 where w2: "written ?t2 = [(p2, out2)]" using ex_rev_written by blast
  then have "(p2, out2) \<in> set (written ?t2)" by simp
  with inst [where tr = ?t2 and r = "fst (main_rev ex_env ex_args [])" and p = p2
      and out = out2, THEN conjunct2, THEN conjunct1] rd ex_frame_new_columns
  have 2: "take 2 (columns out2) = columns ex_frame \<and>
      (\<forall>c\<in>set (columns ex_frame). row_get (rows out2 ! 0) c = row_get (rows ex_frame ! 0) c)"
    by (intro use [OF _ su(1)]) simp
  let ?t3 = "snd (main_multi ex_env ex_multi_args [])"
  obtain p3 out3 where w3: "written ?t3 = [(p3, out3)]" using ex_multi_written by blast
  then have "(p3, out3) \<in> set (written ?t3)" by simp
  with inst [where tr = ?t3 and r = "fst (main_multi ex_env ex_multi_args [])" and p = p3
      and out = out3, THEN conjunct2, THEN conjunct2, THEN conjunct1] rd ex_frame_new_columns
  have 3: "take 2 (columns out3) = columns ex_frame \<and>
      (\<forall>c\<in>set (columns ex_frame). row_get (rows out3 ! 0) c = row_get (rows ex_frame ! 0) c)"
    by (intro use [OF _ su(2)]) simp
  let ?t4 = "snd (main_rnd ex_env ex_args [])"
  obtain p4 out4 where w4: "written ?t4 = [(p4, out4)]" using ex_rnd_written by blast
  then have "(p4, out4) \<in> set (written ?t4)" by simp
  with inst [where tr = ?t4 and r = "fst (main_rnd ex_env ex_args [])" and p = p4
      and out = out4, THEN conjunct2, THEN conjunct2, THEN conjunct2] rd ex_frame_new_columns
  have 4: "take 2 (columns out4) = columns ex_frame \<and>
      (\<forall>c\<in>set (columns ex_frame). row_get (rows out4 ! 0) c = row_get (rows ex_frame ! 0) c)"
    by (intro use [OF _ su(3)]) simp
  from w1 1 w2 2 w3 3 w4 4 show ?thesis by blast
qed

section \<open>The sampling step\<close>

lemma first_occurrences_index:
  "first_occurrences seen krs =
     map (\<lambda>i. snd (krs ! i))
       (filter (\<lambda>i. fst (krs ! i) \<notin> set seen \<union> set (take i (map fst krs))) [0..<length krs])"
proof (induction krs arbitrary: seen)
  case Nil
  show ?case by simp
next
  case (Cons kr krs)
  obtain k r where kr: "kr = (k, r)" by (cases kr)
  let ?Q = "\<lambda>seen i. fst (krs ! i) \<notin> set seen \<union> set (take i (map fst krs))"
  let ?P = "\<lambda>i. fst ((kr # krs) ! i) \<notin> set seen \<union> set (take i (map fst (kr # krs)))"
  have upt: "[0..<length (kr # krs)] = 0 # map Suc [0..<length krs]"
    by (simp add: upt_conv_Cons map_Suc_upt del: upt_Suc)
  have tl: "filter ?P (map Suc [0..<length krs]) = map Suc (filter (?Q (k # seen)) [0..<length krs])"
    by (auto simp: filter_map o_def kr intro!: filter_cong)
  have comp: "map (\<lambda>i. snd ((kr # krs) ! i)) (map Suc is) = map (\<lambda>i. snd (krs ! i)) is" for "is"
    by simp
  show ?case
  proof (cases "k \<in> set seen")
    case True
    then have same: "?Q (k # seen) = ?Q seen" by (auto simp: fun_eq_iff)
    have "first_occurrences seen (kr # krs) = first_occurrences seen krs"
      using True by (simp add: kr)
    also have "\<dots> = map (\<lambda>i. snd (krs ! i)) (filter (?Q seen) [0..<length krs])"
      by (rule Cons.IH)
    also have "\<dots> = map (\<lambda>i. snd ((kr # krs) ! i)) (filter ?P [0..<length (kr # krs)])"
      unfolding upt using True by (simp only: filter.simps tl comp same) (simp add: kr)
    finally show ?thesis .
  next
    case False
    have "first_occurrences seen (kr # krs) = r # first_occurrences (k # seen) krs"
      using False by (simp add: kr)
    also have "\<dots> = r # map (\<lambda>i. snd (krs ! i)) (filter (?Q (k # seen)) [0..<length krs])"
      by (simp only: Cons.IH [of "k # seen"])
    also have "\<dots> = map (\<lambda>i. snd ((kr # krs) ! i)) (filter ?P [0..<length (kr # krs)])"
      unfolding upt using False by (simp only: filter.simps tl comp) (simp add: kr)
    finally show ?thesis .
  qed
qed


lemma first_occurrences_unique_rows:
  assumes "length keys = length rs"
  shows "first_occurrences [] (zip keys rs) = unique_rows keys rs"
proof -
  have "map fst (zip keys rs) = keys" using assms by simp
  then have "first_occurrences [] (zip keys rs) =
     map (\<lambda>i. snd (zip keys rs ! i))
       (filter (\<lambda>i. fst (zip keys rs ! i) \<notin> set (take i keys)) [0..<length rs])"
    using assms by (simp add: first_occurrences_index)
  also have "\<dots> = unique_rows keys rs"
    unfolding unique_rows_def using assms
    by (intro arg_cong2 [where f = map] filter_cong ext map_cong) auto
  finally show ?thesis .
qed

lemma drop_duplicates_unique_rows:
  "get_column key df = Inr keys \<Longrightarrow>
   drop_duplicates key df = Inr (df\<lparr>rows := unique_rows keys (rows df)\<rparr>)"
  by (simp add: drop_duplicates_def first_occurrences_unique_rows get_column_length)

text \<open>
  Claim C10, as amended. With a positive sample size \<open>n\<close>, the scripts that sample with
  \<open>sample_unique\<close> (the linguistically motivated and the multi-language script on the
  source column, the reverse script on the target column) drop the rows whose key
  occurs in an earlier row and keep the first \<open>n\<close> of the rest, and the random script,
  which samples with \<open>sample_first\<close>, keeps the first \<open>n\<close> rows as they are. With a
  negative sample size \<open>n\<close> the same scripts keep all but the last \<open>-n\<close> of those rows.
  Without a sample size, or with 0, all rows are kept. The frame that a script writes has
  as many rows as its sampling step kept.
\<close>

theorem sample_size_rule:
  "(get_column key df = Inr keys \<and> 0 < n \<longrightarrow>
      sample_unique key (Some n) df
        = Inr (df\<lparr>rows := take (nat n) (unique_rows keys (rows df))\<rparr>)) \<and>
   (get_column key df = Inr keys \<and> n < 0 \<longrightarrow>
      sample_unique key (Some n) df
        = Inr (df\<lparr>rows := take (length (unique_rows keys (rows df)) - nat (- n))
                              (unique_rows keys (rows df))\<rparr>)) \<and>
   (0 < n \<longrightarrow> sample_first (Some n) df = Inr (df\<lparr>rows := take (nat n) (rows df)\<rparr>)) \<and>
   (n < 0 \<longrightarrow> sample_first (Some n) df
                = Inr (df\<lparr>rows := take (length (rows df) - nat (- n)) (rows df)\<rparr>)) \<and>
   sample_unique key None df = Inr df \<and> sample_unique key (Some 0) df = Inr df \<and>
   sample_first None df = Inr df \<and> sample_first (Some 0) df = Inr df \<and>
   (main_lin E A [] = (r, tr) \<and> (p, out) \<in> set (written tr) \<longrightarrow>
      (\<exists>df0 df1. read_csv E (input_csv A) = Inr df0 \<and>
         sample_unique (source_column A) (sample_size A) df0 = Inr df1 \<and>
         length (rows out) = length (rows df1))) \<and>
   (main_rev E A [] = (r, tr) \<and> (p, out) \<in> set (written tr) \<longrightarrow>
      (\<exists>df0 df1. read_csv E (input_csv A) = Inr df0 \<and>
         sample_unique (target_column A) (sample_size A) df0 = Inr df1 \<and>
         length (rows out) = length (rows df1))) \<and>
   (main_rnd E A [] = (r, tr) \<and> (p, out) \<in> set (written tr) \<longrightarrow>
      (\<exists>df0 df1. read_csv E (input_csv A) = Inr df0 \<and>
         sample_first (sample_size A) df0 = Inr df1 \<and>
         length (rows out) = length (rows df1)))"
proof -
  have 1: "sample_unique key (Some n) df
        = Inr (df\<lparr>rows := take (nat n) (unique_rows keys (rows df))\<rparr>)"
    if "get_column key df = Inr keys \<and> 0 < n"
    using that by (simp add: sample_unique_def drop_duplicates_unique_rows head_def)
  have 2: "sample_unique key (Some n) df
        = Inr (df\<lparr>rows := take (length (unique_rows keys (rows df)) - nat (- n))
                              (unique_rows keys (rows df))\<rparr>)"
    if "get_column key df = Inr keys \<and> n < 0"
    using that by (simp add: sample_unique_def drop_duplicates_unique_rows head_def)
  have 3: "sample_first (Some n) df = Inr (df\<lparr>rows := take (nat n) (rows df)\<rparr>)" if "0 < n"
    using that by (simp add: sample_first_def head_def)
  have 4: "sample_first (Some n) df
                = Inr (df\<lparr>rows := take (length (rows df) - nat (- n)) (rows df)\<rparr>)" if "n < 0"
    using that by (simp add: sample_first_def head_def)
  have 5: "sample_unique key None df = Inr df" "sample_unique key (Some 0) df = Inr df"
    "sample_first None df = Inr df" "sample_first (Some 0) df = Inr df"
    by (simp_all add: sample_unique_def sample_first_def)
  have 6: "\<exists>df0 df1. read_csv E (input_csv A) = Inr df0 \<and>
         sample_unique (source_column A) (sample_size A) df0 = Inr df1 \<and>
         length (rows out) = length (rows df1)"
    if "main_lin E A [] = (r, tr) \<and> (p, out) \<in> set (written tr)"
  proof -
    from that have run: "main_lin E A [] = (r, tr)" and w: "(p, out) \<in> set (written tr)"
      by simp_all
    then have "written tr \<noteq> [] \<or> r = Inr ()" by auto
    from main_lin_complete [OF run this] w show ?thesis
      by (elim exE conjE)
         (auto simp: written_append written_map_Invoke written_Invoke rows_set_column)
  qed
  have 7: "\<exists>df0 df1. read_csv E (input_csv A) = Inr df0 \<and>
         sample_unique (target_column A) (sample_size A) df0 = Inr df1 \<and>
         length (rows out) = length (rows df1)"
    if "main_rev E A [] = (r, tr) \<and> (p, out) \<in> set (written tr)"
  proof -
    from that have run: "main_rev E A [] = (r, tr)" and w: "(p, out) \<in> set (written tr)"
      by simp_all
    then have "written tr \<noteq> [] \<or> r = Inr ()" by auto
    from main_rev_complete [OF run this] w show ?thesis
      by (elim exE conjE)
         (auto simp: written_append written_map_Invoke written_Invoke rows_set_column)
  qed
  have 8: "\<exists>df0 df1. read_csv E (input_csv A) = Inr df0 \<and>
         sample_first (sample_size A) df0 = Inr df1 \<and>
         length (rows out) = length (rows df1)"
    if "main_rnd E A [] = (r, tr) \<and> (p, out) \<in> set (written tr)"
  proof -
    from that have run: "main_rnd E A [] = (r, tr)" and w: "(p, out) \<in> set (written tr)"
      by simp_all
    then have "written tr \<noteq> [] \<or> r = Inr ()" by auto
    from main_rnd_complete [OF run this] w show ?thesis
      by (elim exE conjE)
         (auto simp: written_append written_map_Sample written_Invoke rows_set_column)
  qed
  from 1 2 3 4 5 6 7 8 show ?thesis by blast
qed


lemma ex_frame2_keys:
  "get_column (str ''en'') ex_frame2 = Inr [Str (str ''a''), Str (str ''a''), Str (str ''b'')]"
  by (simp add: ex_frame2_def get_column_def row_get_def str_def)

lemma ex_frame2_unique:
  "unique_rows [Str (str ''a''), Str (str ''a''), Str (str ''b'')] (rows ex_frame2) =
     [[(str ''en'', Str (str ''a'')), (str ''fr'', Str (str ''x''))],
      [(str ''en'', Str (str ''b'')), (str ''fr'', Str (str ''z''))]]"
  by (simp add: unique_rows_def ex_frame2_def str_def)

theorem sample_size_rule_witness:
  "sample_unique (str ''en'') (Some 1) ex_frame2 =
     Inr (ex_frame2\<lparr>rows := [[(str ''en'', Str (str ''a'')), (str ''fr'', Str (str ''x''))]]\<rparr>) \<and>
   sample_unique (str ''en'') (Some (- 1)) ex_frame2 =
     Inr (ex_frame2\<lparr>rows := [[(str ''en'', Str (str ''a'')), (str ''fr'', Str (str ''x''))]]\<rparr>) \<and>
   sample_first (Some 1) ex_frame2 =
     Inr (ex_frame2\<lparr>rows := [[(str ''en'', Str (str ''a'')), (str ''fr'', Str (str ''x''))]]\<rparr>) \<and>
   sample_first (Some (- 1)) ex_frame2 =
     Inr (ex_frame2\<lparr>rows := [[(str ''en'', Str (str ''a'')), (str ''fr'', Str (str ''x''))],
                              [(str ''en'', Str (str ''a'')), (str ''fr'', Str (str ''y''))]]\<rparr>) \<and>
   (\<exists>p out df1. written (snd (main_lin ex_env ex_args [])) = [(p, out)] \<and>
      sample_unique (source_column ex_args) (sample_size ex_args) ex_frame = Inr df1 \<and>
      length (rows out) = length (rows df1)) \<and>
   (\<exists>p out df1. written (snd (main_rev ex_env ex_args [])) = [(p, out)] \<and>
      sample_unique (target_column ex_args) (sample_size ex_args) ex_frame = Inr df1 \<and>
      length (rows out) = length (rows df1)) \<and>
   (\<exists>p out df1. written (snd (main_rnd ex_env ex_args [])) = [(p, out)] \<and>
      sample_first (sample_size ex_args) ex_frame = Inr df1 \<and>
      length (rows out) = length (rows df1))"
proof -
  let ?keys = "[Str (str ''a''), Str (str ''a''), Str (str ''b'')]"
  have pos: "get_column (str ''en'') ex_frame2 = Inr ?keys \<and> (0::int) < 1"
    using ex_frame2_keys by simp
  have neg: "get_column (str ''en'') ex_frame2 = Inr ?keys \<and> (- 1 :: int) < 0"
    using ex_frame2_keys by simp
  note ps = sample_size_rule [where key = "str ''en''" and df = ex_frame2 and keys = ?keys
      and n = 1]
  note ng = sample_size_rule [where key = "str ''en''" and df = ex_frame2 and keys = ?keys
      and n = "- 1"]
  have l: "length (rows ex_frame2) = 3" by (simp add: ex_frame2_def)
  have t: "take (Suc 0) (rows ex_frame2)
      = [[(str ''en'', Str (str ''a'')), (str ''fr'', Str (str ''x''))]]"
    "take 2 (rows ex_frame2) = [[(str ''en'', Str (str ''a'')), (str ''fr'', Str (str ''x''))],
                              [(str ''en'', Str (str ''a'')), (str ''fr'', Str (str ''y''))]]"
    "take (Suc (Suc 0)) (rows ex_frame2)
      = [[(str ''en'', Str (str ''a'')), (str ''fr'', Str (str ''x''))],
         [(str ''en'', Str (str ''a'')), (str ''fr'', Str (str ''y''))]]"
    by (simp_all add: ex_frame2_def)
  from ps [THEN conjunct1] pos have 1: "sample_unique (str ''en'') (Some 1) ex_frame2 =
     Inr (ex_frame2\<lparr>rows := [[(str ''en'', Str (str ''a'')), (str ''fr'', Str (str ''x''))]]\<rparr>)"
    by (simp add: ex_frame2_unique)
  from ng [THEN conjunct2, THEN conjunct1] neg have 2: "sample_unique (str ''en'') (Some (- 1)) ex_frame2 =
     Inr (ex_frame2\<lparr>rows := [[(str ''en'', Str (str ''a'')), (str ''fr'', Str (str ''x''))]]\<rparr>)"
    by (simp add: ex_frame2_unique)
  from ps [THEN conjunct2, THEN conjunct2, THEN conjunct1] have 3: "sample_first (Some 1) ex_frame2 =
     Inr (ex_frame2\<lparr>rows := [[(str ''en'', Str (str ''a'')), (str ''fr'', Str (str ''x''))]]\<rparr>)"
    by (simp add: t)
  from ng [THEN conjunct2, THEN conjunct2, THEN conjunct2, THEN conjunct1] have 4: "sample_first (Some (- 1)) ex_frame2 =
     Inr (ex_frame2\<lparr>rows := [[(str ''en'', Str (str ''a'')), (str ''fr'', Str (str ''x''))],
                              [(str ''en'', Str (str ''a'')), (str ''fr'', Str (str ''y''))]]\<rparr>)"
    by (simp add: l t)
  have rd: "read_csv ex_env (input_csv ex_args) = Inr ex_frame" by (simp add: ex_env_def)
  let ?t1 = "snd (main_lin ex_env ex_args [])"
  obtain p1 out1 where w1: "written ?t1 = [(p1, out1)]" using ex_lin_written by blast
  then have "main_lin ex_env ex_args [] = (fst (main_lin ex_env ex_args []), ?t1)
      \<and> (p1, out1) \<in> set (written ?t1)" by simp
  with sample_size_rule [where E = ex_env and A = ex_args and tr = ?t1
      and r = "fst (main_lin ex_env ex_args [])" and p = p1 and out = out1] rd
  have 5: "\<exists>df1. sample_unique (source_column ex_args) (sample_size ex_args) ex_frame = Inr df1 \<and>
      length (rows out1) = length (rows df1)"
    by auto
  let ?t2 = "snd (main_rev ex_env ex_args [])"
  obtain p2 out2 where w2: "written ?t2 = [(p2, out2)]" using ex_rev_written by blast
  then have "main_rev ex_env ex_args [] = (fst (main_rev ex_env ex_args []), ?t2)
      \<and> (p2, out2) \<in> set (written ?t2)" by simp
  with sample_size_rule [where E = ex_env and A = ex_args and tr = ?t2
      and r = "fst (main_rev ex_env ex_args [])" and p = p2 and out = out2] rd
  have 6: "\<exists>df1. sample_unique (target_column ex_args) (sample_size ex_args) ex_frame = Inr df1 \<and>
      length (rows out2) = length (rows df1)"
    by auto
  let ?t3 = "snd (main_rnd ex_env ex_args [])"
  obtain p3 out3 where w3: "written ?t3 = [(p3, out3)]" using ex_rnd_written by blast
  then have "main_rnd ex_env ex_args [] = (fst (main_rnd ex_env ex_args []), ?t3)
      \<and> (p3, out3) \<in> set (written ?t3)" by simp
  with sample_size_rule [where E = ex_env and A = ex_args and tr = ?t3
      and r = "fst (main_rnd ex_env ex_args [])" and p = p3 and out = out3] rd
  have 7: "\<exists>df1. sample_first (sample_size ex_args) ex_frame = Inr df1 \<and>
      length (rows out3) = length (rows df1)"
    by auto
  from 1 2 3 4 w1 5 w2 6 w3 7 show ?thesis by blast
qed

theorem sample_size_rule_counterexample:
  "sample_first (Some (- 1)) ex_frame2 =
     Inr (ex_frame2\<lparr>rows := [[(str ''en'', Str (str ''a'')), (str ''fr'', Str (str ''x''))],
                              [(str ''en'', Str (str ''a'')), (str ''fr'', Str (str ''y''))]]\<rparr>) \<and>
   take (nat (- 1)) (rows ex_frame2) = []"
  by (simp add: sample_first_def head_def ex_frame2_def)

text \<open>
  Claim C5, as amended. Each \<open>main\<close> is the two-stage pipeline \<open>mask_then_fill\<close> with
  its own parameters: the sampling step, the column that is masked, the name of the
  intermediate column, the parallel columns, the prompts and the output file. In the
  linguistically motivated, the reverse and the multi-language script the mask stage is
  \<open>mask_stage\<close> with the script's prompt, that is, the stripped answer to a prompt made
  from the text, and the multi-language script skips it when the column of masked texts
  exists; in the random script the mask stage is \<open>insert_placeholders_random\<close>, which
  asks nothing. In all four the fill stage is \<open>fill_stage\<close> with the script's prompt.
\<close>

theorem scripts_are_two_stage_pipelines:
  "main_lin E A =
     mask_then_fill E (input_csv A) (sample_unique (source_column A) (sample_size A)) False
       (source_column A) (mask_stage E prompt_get_switching_points_lin) col_placeholder_text
       (fill_stage E col_placeholder_text [target_column A]
          (\<lambda>p ts. prompt_code_switch_text_lin p (format_cell (hd ts)) (target_language A)))
       (csw_column_name A)
       (path_join E (output_dir A)
          (path_stem E (input_csv A) @ str ''_with_'' @ csw_column_name A @ str ''.csv'')) \<and>
   main_rev E A =
     mask_then_fill E (input_csv A) (sample_unique (target_column A) (sample_size A)) False
       (target_column A) (mask_stage E (\<lambda>txt. prompt_mask_target_points txt (target_language A)))
       col_masked_target
       (fill_stage E col_masked_target [source_column A]
          (\<lambda>p ts. prompt_insert_english_words p (format_cell (hd ts)) (target_language A)))
       (csw_column_name A)
       (path_join E (output_dir A)
          (path_stem E (input_csv A) @ str ''_reverse_'' @ csw_column_name A @ str ''.csv'')) \<and>
   main_multi E M =
     (if length (map strip (split_on 44 (target_columns M)))
          \<noteq> length (map strip (split_on 44 (target_languages M)))
      then io_raise ValueError
      else mask_then_fill E (input_csv M) (sample_unique (source_column M) (sample_size M)) True
        (source_column M) (mask_stage E prompt_get_switching_points_multi) col_placeholder_text
        (fill_stage E col_placeholder_text (map strip (split_on 44 (target_columns M)))
           (\<lambda>p ts. prompt_code_switch_multi p
                      (parallel_section (map strip (split_on 44 (target_languages M))) ts)))
        (csw_column_name M)
        (path_join E (output_dir M)
           (path_stem E (input_csv M) @ str ''_with_'' @ csw_column_name M @ str ''.csv''))) \<and>
   main_rnd E A =
     mask_then_fill E (input_csv A) (sample_first (sample_size A)) False
       (source_column A) (insert_placeholders_random_io E) col_placeholder_text
       (fill_stage E col_placeholder_text [target_column A]
          (\<lambda>p ts. prompt_code_switch_text_rnd p (format_cell (hd ts)) (target_language A)))
       (csw_column_name A)
       (path_join E (output_dir A)
          (path_stem E (input_csv A) @ str ''_rnd_'' @ csw_column_name A @ str ''.csv'')) \<and>
   get_switching_points_lin E txt = ask E (prompt_get_switching_points_lin (format_cell txt)) \<and>
   mask_target_points E txt lang = ask E (prompt_mask_target_points (format_cell txt) lang) \<and>
   get_switching_points_multi E txt = ask E (prompt_get_switching_points_multi (format_cell txt)) \<and>
   code_switch_text_lin E masked parallel lang
     = ask E (prompt_code_switch_text_lin (format_cell masked) (format_cell parallel) lang) \<and>
   insert_english_words E masked parallel lang
     = ask E (prompt_insert_english_words (format_cell masked) (format_cell parallel) lang) \<and>
   code_switch_multi E masked parallels langs
     = ask E (prompt_code_switch_multi (format_cell masked) (parallel_section langs parallels)) \<and>
   code_switch_text_rnd E masked parallel lang
     = ask E (prompt_code_switch_text_rnd (format_cell masked) (format_cell parallel) lang)"
proof -
  have stages: "get_switching_points_lin E txt = ask E (prompt_get_switching_points_lin (format_cell txt))"
    "mask_target_points E txt lang = ask E (prompt_mask_target_points (format_cell txt) lang)"
    "get_switching_points_multi E txt = ask E (prompt_get_switching_points_multi (format_cell txt))"
    "code_switch_text_lin E masked parallel lang
     = ask E (prompt_code_switch_text_lin (format_cell masked) (format_cell parallel) lang)"
    "insert_english_words E masked parallel lang
     = ask E (prompt_insert_english_words (format_cell masked) (format_cell parallel) lang)"
    "code_switch_multi E masked parallels langs
     = ask E (prompt_code_switch_multi (format_cell masked) (parallel_section langs parallels))"
    "code_switch_text_rnd E masked parallel lang
     = ask E (prompt_code_switch_text_rnd (format_cell masked) (format_cell parallel) lang)"
    by (simp_all add: get_switching_points_lin_def mask_target_points_def
        get_switching_points_multi_def code_switch_text_lin_def insert_english_words_def
        code_switch_multi_def code_switch_text_rnd_def ask_def parallel_section_def)
  show ?thesis
    by (intro conjI main_lin_shape main_rev_shape main_multi_shape main_rnd_shape stages)
qed

theorem scripts_are_two_stage_pipelines_counterexample:
  "\<not> (\<exists>prompt. \<forall>txt tr. insert_placeholders_random_io ex_env txt tr = mask_stage ex_env prompt txt tr)"
proof
  assume "\<exists>prompt. \<forall>txt tr. insert_placeholders_random_io ex_env txt tr = mask_stage ex_env prompt txt tr"
  then obtain prompt where
    eq: "insert_placeholders_random_io ex_env (Str (str ''good morning'')) []
         = mask_stage ex_env prompt (Str (str ''good morning'')) []"
    by blast
  have "snd (insert_placeholders_random_io ex_env (Str (str ''good morning'')) [])
        = [Sample (str ''good morning'')]"
    by (simp add: insert_placeholders_random_io_def)
  moreover have "snd (mask_stage ex_env prompt (Str (str ''good morning'')) [])
        = [Invoke (prompt (str ''good morning''))]"
    by (simp add: mask_stage_def ask_def io_bind_def invoke_claude_def io_return_def
        split: sum.splits)
  ultimately show False using eq by simp
qed

section \<open>The XNLI columns\<close>

lemma frame_get_set:
  "frame_get c (frame_set c' ws df) = (if c = c' then Inr ws else frame_get c df)"
  by (simp add: frame_get_def frame_set_def update_conv')

lemma collect_map_Inr: "collect (map (\<lambda>x. Inr (f x)) xs) = Inr (map f xs)"
  by (induction xs) simp_all

lemma extract_translation_of: "extract_translation lang d = Inr (translation_of lang d)"
  by (simp add: extract_translation_def translation_of_def split: pyval.splits option.splits)

lemma collect_extract:
  "collect (map (extract_translation lang) vs) = Inr (map (translation_of lang) vs)"
proof -
  have "extract_translation lang = (\<lambda>x. Inr (translation_of lang x))"
    by (rule ext) (rule extract_translation_of)
  then show ?thesis by (simp add: collect_map_Inr)
qed

lemma apply_column_extract:
  "frame_get c df = Inr vs \<Longrightarrow>
   apply_column new c (extract_translation lang) df
     = Inr (frame_set new (map (translation_of lang) vs) df)"
  by (simp add: apply_column_def collect_extract)

lemma apply_column_Inr:
  "apply_column new c f df = Inr out \<Longrightarrow>
   \<exists>vs ws. frame_get c df = Inr vs \<and> collect (map f vs) = Inr ws \<and> out = frame_set new ws df"
  by (auto simp: apply_column_def split: sum.splits)

lemma extract_loop_columns:
  assumes P: "frame_get (str ''premise'') xnli = Inr P"
    and H: "frame_get (str ''hypothesis'') xnli = Inr H"
  shows "\<exists>out. extract_loop language_map xnli = Inr out \<and>
     frame_get (str ''premise'') out = Inr P \<and> frame_get (str ''hypothesis'') out = Inr H \<and>
     (\<forall>(lang, prefix)\<in>set language_map.
        frame_get (prefix @ str ''_premise'') out = Inr (map (translation_of lang) P) \<and>
        frame_get (prefix @ str ''_hypothesis'') out = Inr (map (translation_of lang) H))"
  using P H
  by (simp add: language_map_def apply_column_extract frame_get_set str_def)


text \<open>
  Claim C7. When the XNLI step succeeds, for every pair of the language map the two new
  columns hold, row by row, the translation stored under the language key in the parsed
  premise and in the processed hypothesis when that field is a dictionary, and \<^verbatim>\<open>None\<close>
  otherwise. The extraction never raises: not for a single field, and not as a loop over
  a frame that has the two columns.
\<close>

theorem xnli_translation_columns:
  "(prepare_xnli literal_eval raw = Inr out \<longrightarrow>
      (\<exists>P0 H0 H1 P H.
         frame_get (str ''premise'') raw = Inr P0 \<and>
         collect (map (parse_field literal_eval) P0) = Inr P \<and>
         frame_get (str ''hypothesis'') raw = Inr H0 \<and>
         collect (map (parse_field literal_eval) H0) = Inr H1 \<and>
         collect (map process_translation H1) = Inr H \<and>
         (\<forall>(lang, prefix)\<in>set language_map.
            frame_get (prefix @ str ''_premise'') out = Inr (map (translation_of lang) P) \<and>
            frame_get (prefix @ str ''_hypothesis'') out = Inr (map (translation_of lang) H)))) \<and>
   (frame_get (str ''premise'') xnli = Inr P' \<and> frame_get (str ''hypothesis'') xnli = Inr H' \<longrightarrow>
      (\<exists>out'. extract_loop language_map xnli = Inr out')) \<and>
   (\<exists>v. extract_translation lang d = Inr v) \<and>
   (\<forall>kvs v. d = PDict kvs \<and> map_of kvs (PStr lang) = Some v \<longrightarrow> translation_of lang d = v) \<and>
   (\<forall>kvs. d = PDict kvs \<and> map_of kvs (PStr lang) = None \<longrightarrow> translation_of lang d = PNone) \<and>
   ((\<forall>kvs. d \<noteq> PDict kvs) \<longrightarrow> translation_of lang d = PNone)"
proof (intro conjI impI)
  assume run: "prepare_xnli literal_eval raw = Inr out"
  then obtain x1 x2 x3 where
    1: "apply_column (str ''premise'') (str ''premise'') (parse_field literal_eval) raw = Inr x1"
    and 2: "apply_column (str ''hypothesis'') (str ''hypothesis'') (parse_field literal_eval) x1 = Inr x2"
    and 3: "apply_column (str ''hypothesis'') (str ''hypothesis'') process_translation x2 = Inr x3"
    and 4: "extract_loop language_map x3 = Inr out"
    by (auto simp: prepare_xnli_def split: sum.splits)
  from apply_column_Inr [OF 1] obtain P0 P where
    p: "frame_get (str ''premise'') raw = Inr P0" "collect (map (parse_field literal_eval) P0) = Inr P"
       "x1 = frame_set (str ''premise'') P raw" by blast
  from apply_column_Inr [OF 2] obtain H0 H1 where
    h: "frame_get (str ''hypothesis'') x1 = Inr H0" "collect (map (parse_field literal_eval) H0) = Inr H1"
       "x2 = frame_set (str ''hypothesis'') H1 x1" by blast
  from apply_column_Inr [OF 3] obtain H1' H where
    g: "frame_get (str ''hypothesis'') x2 = Inr H1'" "collect (map process_translation H1') = Inr H"
       "x3 = frame_set (str ''hypothesis'') H x2" by blast
  have ne: "str ''hypothesis'' \<noteq> str ''premise''" by (simp add: str_def)
  from h(1) p(3) ne have h0: "frame_get (str ''hypothesis'') raw = Inr H0"
    by (simp add: frame_get_set)
  from g(1) h(3) have "H1' = H1" by (simp add: frame_get_set)
  with g have g2: "collect (map process_translation H1) = Inr H" by simp
  have xp: "frame_get (str ''premise'') x3 = Inr P"
    using ne by (simp add: g(3) h(3) p(3) frame_get_set)
  have xh: "frame_get (str ''hypothesis'') x3 = Inr H"
    by (simp add: g(3) frame_get_set)
  from extract_loop_columns [OF xp xh] 4
  have cols: "\<forall>(lang, prefix)\<in>set language_map.
            frame_get (prefix @ str ''_premise'') out = Inr (map (translation_of lang) P) \<and>
            frame_get (prefix @ str ''_hypothesis'') out = Inr (map (translation_of lang) H)"
    by auto
  show "\<exists>P0 H0 H1 P H.
         frame_get (str ''premise'') raw = Inr P0 \<and>
         collect (map (parse_field literal_eval) P0) = Inr P \<and>
         frame_get (str ''hypothesis'') raw = Inr H0 \<and>
         collect (map (parse_field literal_eval) H0) = Inr H1 \<and>
         collect (map process_translation H1) = Inr H \<and>
         (\<forall>(lang, prefix)\<in>set language_map.
            frame_get (prefix @ str ''_premise'') out = Inr (map (translation_of lang) P) \<and>
            frame_get (prefix @ str ''_hypothesis'') out = Inr (map (translation_of lang) H))"
    apply (rule exI [of _ P0], rule exI [of _ H0], rule exI [of _ H1])
    apply (rule exI [of _ P], rule exI [of _ H])
    using p(1,2) h0 h(2) g2 cols by (intro conjI)
next
  assume "frame_get (str ''premise'') xnli = Inr P' \<and> frame_get (str ''hypothesis'') xnli = Inr H'"
  then have "frame_get (str ''premise'') xnli = Inr P'" "frame_get (str ''hypothesis'') xnli = Inr H'"
    by simp_all
  from extract_loop_columns [OF this] show "\<exists>out'. extract_loop language_map xnli = Inr out'"
    by blast
next
  show "\<exists>v. extract_translation lang d = Inr v" by (simp add: extract_translation_of)
next
  show "\<forall>kvs v. d = PDict kvs \<and> map_of kvs (PStr lang) = Some v \<longrightarrow> translation_of lang d = v"
    by (simp add: translation_of_def)
next
  show "\<forall>kvs. d = PDict kvs \<and> map_of kvs (PStr lang) = None \<longrightarrow> translation_of lang d = PNone"
    by (simp add: translation_of_def)
next
  assume "\<forall>kvs. d \<noteq> PDict kvs"
  then show "translation_of lang d = PNone"
    by (cases d) (simp_all add: translation_of_def)
qed


theorem xnli_translation_columns_witness:
  "\<exists>out. prepare_xnli ex_literal_eval ex_xnli = Inr out \<and>
     frame_get (str ''eng_premise'') out = Inr [PStr (str ''a''), PNone] \<and>
     frame_get (str ''fra_hypothesis'') out = Inr [PStr (str ''i''), PNone] \<and>
     frame_get (str ''deu_premise'') out = Inr [PNone, PNone]"
proof -
  have "\<exists>out. prepare_xnli ex_literal_eval ex_xnli = Inr out"
    by (simp add: prepare_xnli_def apply_column_def frame_get_def frame_set_def ex_xnli_def
        ex_literal_eval_def parse_field_def process_translation_def language_map_def
        extract_translation_def str_def)
  then obtain out where run: "prepare_xnli ex_literal_eval ex_xnli = Inr out" by blast
  from xnli_translation_columns [of ex_literal_eval ex_xnli out, THEN conjunct1, rule_format, OF run]
  obtain P0 H0 H1 P H where
    a: "frame_get (str ''premise'') ex_xnli = Inr P0"
       "collect (map (parse_field ex_literal_eval) P0) = Inr P"
       "frame_get (str ''hypothesis'') ex_xnli = Inr H0"
       "collect (map (parse_field ex_literal_eval) H0) = Inr H1"
       "collect (map process_translation H1) = Inr H"
    and c: "\<forall>(lang, prefix)\<in>set language_map.
            frame_get (prefix @ str ''_premise'') out = Inr (map (translation_of lang) P) \<and>
            frame_get (prefix @ str ''_hypothesis'') out = Inr (map (translation_of lang) H)"
    by blast
  from a(1) have P0: "P0 = [PDict [(PStr (str ''en''), PStr (str ''a'')),
                                 (PStr (str ''fr''), PStr (str ''b''))], PStr (str ''3'')]"
    by (simp add: frame_get_def ex_xnli_def str_def)
  from a(2) have P: "P = [PDict [(PStr (str ''en''), PStr (str ''a'')),
                                (PStr (str ''fr''), PStr (str ''b''))], PInt 3]"
    by (simp add: P0 parse_field_def ex_literal_eval_def)
  from a(3) have H0: "H0 = [PDict [(PStr (str ''language''), PList [PStr (str ''en''), PStr (str ''fr'')]),
               (PStr (str ''translation''), PList [PStr (str ''h''), PStr (str ''i'')])], PNone]"
    by (simp add: frame_get_def ex_xnli_def str_def)
  from a(4) have H1: "H1 = H0"
    by (simp add: H0 parse_field_def)
  from a(5) have H: "H = [PDict [(PStr (str ''en''), PStr (str ''h'')),
                                (PStr (str ''fr''), PStr (str ''i''))], PNone]"
    by (simp add: H1 H0 process_translation_def str_def)
  from c have
    "frame_get (str ''eng'' @ str ''_premise'') out = Inr (map (translation_of (str ''en'')) P)"
    "frame_get (str ''fra'' @ str ''_hypothesis'') out = Inr (map (translation_of (str ''fr'')) H)"
    "frame_get (str ''deu'' @ str ''_premise'') out = Inr (map (translation_of (str ''de'')) P)"
    by (simp_all add: language_map_def)
  then have "frame_get (str ''eng_premise'') out = Inr [PStr (str ''a''), PNone] \<and>
     frame_get (str ''fra_hypothesis'') out = Inr [PStr (str ''i''), PNone] \<and>
     frame_get (str ''deu_premise'') out = Inr [PNone, PNone]"
    by (simp add: P H translation_of_def str_def)
  with run show ?thesis by blast
qed

end
